theory Spec2Isabelle
  imports Main
begin

section \<open>Values, errors and recorded builder calls\<close>

text \<open>
  The query helper receives JavaScript values (conditions, data dictionaries) and drives a
  knex query builder. Values are a datatype; a dictionary is an association list in
  insertion order (the order of \<open>Object.keys\<close>). The builder is external, so the
  model records the calls made on it: a call with a callback (\<open>qb.where(inner => ...)\<close>)
  is a node holding the calls made on the inner builder. Knex prints every such callback
  group in parentheses.
\<close>

datatype jsval =
    VUndefined
  | VNull
  | VBool bool
  | VNum int
  | VStr string
  | VRegExp string
  | VArr "jsval list"
  | VObj "(string \<times> jsval) list"
  | VRaw string "jsval list"

datatype error =
    TypeError
  | RangeError
  | InvalidQueryCondition
  | OptimisticLockError string
  | MetadataError string
  | SchemaDependencyError

datatype lhs = Col string | RawLhs string

datatype kcall =
    Where string lhs string jsval
  | WhereRaw string jsval
  | WhereFn string "kcall list"
  | Custom string string jsval

text \<open>The own enumerable entries of a value, which \<open>Object.keys\<close> lists: the entries
  of a dictionary, the elements of an array and the characters of a string under their
  indices (written as decimal numerals); a number, a boolean and a RegExp have none. A
  knex raw expression is made by the helper for the builder and is never taken apart by it;
  the fields that knex keeps in it are not modelled, so it has no entries here either.
  \<open>Object.keys\<close> of \<open>undefined\<close> or \<open>null\<close> throws; the functions that call it on a
  condition have those two cases of their own.\<close>

fun indexKey :: "nat \<Rightarrow> string" where
  "indexKey n =
    (if n < 10 then [''0123456789'' ! n]
     else indexKey (n div 10) @ [''0123456789'' ! (n mod 10)])"

fun ownEntries :: "jsval \<Rightarrow> (string \<times> jsval) list" where
  "ownEntries (VObj kvs) = kvs"
| "ownEntries (VArr xs) = zip (map indexKey [0 ..< length xs]) xs"
| "ownEntries (VStr s) = zip (map indexKey [0 ..< length s]) (map (\<lambda>c. VStr [c]) s)"
| "ownEntries _ = []"

text \<open>Property access \<open>obj[k]\<close> for an own key, \<open>Object.keys\<close>, and the type tests of
  \<open>Utils\<close> (the helper class is outside the sources at hand; on the value datatype each
  test is the test for the constructor).\<close>

fun getv :: "jsval \<Rightarrow> string \<Rightarrow> jsval" where
  "getv (VObj kvs) k = (case map_of kvs k of Some v \<Rightarrow> v | None \<Rightarrow> VUndefined)"
| "getv v k = (case map_of (ownEntries v) k of Some x \<Rightarrow> x | None \<Rightarrow> VUndefined)"

fun objKeys :: "jsval \<Rightarrow> string list" where
  "objKeys (VObj kvs) = map fst kvs"
| "objKeys v = map fst (ownEntries v)"

fun isPlainObject :: "jsval \<Rightarrow> bool" where
  "isPlainObject (VObj kvs) = True"
| "isPlainObject _ = False"

fun isArray :: "jsval \<Rightarrow> bool" where
  "isArray (VArr xs) = True"
| "isArray _ = False"

fun arrItems :: "jsval \<Rightarrow> jsval list" where
  "arrItems (VArr xs) = xs"
| "arrItems _ = []"

definition getObjectKeysSize :: "jsval \<Rightarrow> nat" where
  "getObjectKeysSize v = length (objKeys v)"

text \<open>The static tables \<open>GROUP_OPERATORS\<close> and \<open>OPERATORS\<close> of the helper; the
  enumeration \<open>QueryOperator\<close> of the core package lists the same operators.\<close>

definition GROUP_OPERATORS :: "(string \<times> string) list" where
  "GROUP_OPERATORS = [(''$and'', ''and''), (''$or'', ''or'')]"

definition OPERATORS :: "(string \<times> string) list" where
  "OPERATORS =
    [(''$eq'', ''=''), (''$in'', ''in''), (''$nin'', ''not in''), (''$gt'', ''>''),
     (''$gte'', ''>=''), (''$lt'', ''<''), (''$lte'', ''<=''), (''$ne'', ''!=''),
     (''$not'', ''not''), (''$like'', ''like''), (''$fulltext'', ''fulltext''),
     (''$re'', ''regexp'')]"

definition isOperator :: "string \<Rightarrow> bool" where
  "isOperator k = (k \<in> set (map fst GROUP_OPERATORS) \<or> k \<in> set (map fst OPERATORS))"

section \<open>Regular expressions rewritten to LIKE\<close>

definition backslash :: char where
  "backslash = CHR 0x5C"

text \<open>\<open>s.replace(/ab/g, r)\<close> for a two-character pattern: a scan from the left over
  non-overlapping matches.\<close>

fun replace2 :: "char \<Rightarrow> char \<Rightarrow> char \<Rightarrow> string \<Rightarrow> string" where
  "replace2 a b r (c1 # c2 # cs) =
     (if c1 = a \<and> c2 = b then r # replace2 a b r cs else c1 # replace2 a b r (c2 # cs))"
| "replace2 a b r cs = cs"

definition replace1 :: "char \<Rightarrow> char \<Rightarrow> string \<Rightarrow> string" where
  "replace1 a r s = map (\<lambda>c. if c = a then r else c) s"

definition startsWith :: "string \<Rightarrow> char \<Rightarrow> bool" where
  "startsWith s c = (case s of [] \<Rightarrow> False | x # xs \<Rightarrow> x = c)"

definition endsWith :: "string \<Rightarrow> char \<Rightarrow> bool" where
  "endsWith s c = (s \<noteq> [] \<and> last s = c)"

definition stripStart :: "char \<Rightarrow> string \<Rightarrow> string" where
  "stripStart c s = (if startsWith s c then tl s else s)"

definition stripEnd :: "char \<Rightarrow> string \<Rightarrow> string" where
  "stripEnd c s = (if endsWith s c then butlast s else s)"

text \<open>\<open>isSimpleRegExp\<close>: a RegExp whose source has no opening brace, bracket or
  parenthesis.\<close>

fun isSimpleRegExp :: "jsval \<Rightarrow> bool" where
  "isSimpleRegExp (VRegExp src) =
     (\<not> (CHR ''{'' \<in> set src \<or> CHR ''['' \<in> set src \<or> CHR ''('' \<in> set src))"
| "isSimpleRegExp _ = False"

definition getRegExpParam :: "string \<Rightarrow> string" where
  "getRegExpParam src =
    (let v = stripEnd CHR ''$'' (stripStart CHR ''^''
               (replace2 backslash CHR ''_'' CHR ''.''
                 (replace1 CHR ''.'' CHR ''_''
                   (replace2 CHR ''.'' CHR ''*'' CHR ''%'' src))))
     in if startsWith src CHR ''^'' \<and> endsWith src CHR ''$'' then v
        else if startsWith src CHR ''^'' then v @ ''%''
        else if endsWith src CHR ''$'' then ''%'' @ v
        else ''%'' @ v @ ''%'')"

text \<open>\<open>isCustomExpression\<close>: the field matches \<open>/[ ?<>=()]|^\d/\<close>.\<close>

definition isCustomExpression :: "string \<Rightarrow> bool" where
  "isCustomExpression field =
    ((\<exists>c \<in> set field. c \<in> set '' ?<>=()'') \<or>
     (case field of [] \<Rightarrow> False | c # cs \<Rightarrow> c \<in> set ''0123456789''))"

section \<open>Compiling query conditions\<close>

text \<open>
  What the helper reads from its collaborators: \<open>mapper\<close> (resolution of a field to a
  column through the metadata, carried as a function), the sub-query dictionary, the
  platform's regular-expression operator, full-text clause and VALUES keyword, the entity's
  table name and \<open>Utils.splitPrimaryKeys\<close>.
\<close>

record helper_env =
  mapper :: "string \<Rightarrow> string"
  subQueries :: "string \<Rightarrow> string option"
  getRegExpOperator :: string
  getFullTextWhereClause :: string
  requiresValuesKeyword :: bool
  tableName :: string
  splitPrimaryKeys :: "string \<Rightarrow> string list"

definition getOperatorReplacement :: "helper_env \<Rightarrow> string \<Rightarrow> jsval \<Rightarrow> string" where
  "getOperatorReplacement env op v =
    (let r0 = (case map_of OPERATORS op of Some r \<Rightarrow> r | None \<Rightarrow> []);
         r1 = (if getv v op = VNull \<and> op \<in> set [''$eq'', ''$ne'']
               then (if op = ''$eq'' then ''is'' else ''is not'') else r0)
     in if op = ''$re'' then getRegExpOperator env else r1)"

definition joinComma :: "string list \<Rightarrow> string" where
  "joinComma xs = concat (case xs of [] \<Rightarrow> [] | y # ys \<Rightarrow> y # map (\<lambda>s. '', '' @ s) ys)"

text \<open>The part of \<open>processObjectSubCondition\<close> after the multi-key split: one operator
  object (or a RegExp, turned into \<open>{ $re: source }\<close>) for one field.\<close>

definition processOperator :: "helper_env \<Rightarrow> string \<Rightarrow> jsval \<Rightarrow> string \<Rightarrow> error + kcall list" where
  "processOperator env key v0 m =
    (let v = (case v0 of VRegExp src \<Rightarrow> VObj [(''$re'', VStr src)] | _ \<Rightarrow> v0) in
     case find (\<lambda>op. op \<in> set (objKeys v)) (map fst OPERATORS) of
       None \<Rightarrow> Inl InvalidQueryCondition
     | Some op \<Rightarrow>
        (let replacement = getOperatorReplacement env op v;
             fields = splitPrimaryKeys env key;
             arg = (if length fields > 1 \<and> isArray (getv v op)
                        \<and> \<not> list_all isArray (arrItems (getv v op))
                    then VRaw ((if requiresValuesKeyword env then ''values '' else [])
                               @ ''('' @ joinComma (map (\<lambda>f. ''?'') fields) @ '')'')
                              (arrItems (getv v op))
                    else getv v op)
         in case subQueries env key of
              Some (c # cs) \<Rightarrow> Inr [Where m (RawLhs (''('' @ (c # cs) @ '')'')) replacement arg]
            | _ \<Rightarrow>
              if op = ''$fulltext''
              then Inr [WhereRaw m (VRaw (getFullTextWhereClause env)
                                        [VStr (tableName env), VStr key, arg])]
              else Inr [Where m (Col (mapper env key)) replacement arg]))"

text \<open>\<open>processObjectSubCondition\<close>. With more than one key the source builds
  \<open>{ [key]: { [subKey]: subValue } }\<close> per entry and re-enters \<open>appendQueryCondition\<close>
  with operator \<open>$and\<close>; that call reaches this function again with a one-key object and
  \<open>m = method\<close>, which is what the first branch computes directly.\<close>

fun seqAll :: "(error + kcall list) list \<Rightarrow> error + kcall list" where
  "seqAll [] = Inr []"
| "seqAll (r # rs) =
     (case r of Inl e \<Rightarrow> Inl e
      | Inr cs \<Rightarrow> (case seqAll rs of Inl e \<Rightarrow> Inl e | Inr ds \<Rightarrow> Inr (cs @ ds)))"

definition processObjectSubCondition ::
  "helper_env \<Rightarrow> string \<Rightarrow> jsval \<Rightarrow> string \<Rightarrow> string \<Rightarrow> error + kcall list" where
  "processObjectSubCondition env key v method' m =
    (if getObjectKeysSize v > 1
     then seqAll (map (\<lambda>(sk, sv). processOperator env key (VObj [(sk, sv)]) method')
                      (case v of VObj kvs \<Rightarrow> kvs | _ \<Rightarrow> []))
     else processOperator env key v m)"

definition appendQuerySubCondition ::
  "helper_env \<Rightarrow> string \<Rightarrow> string \<Rightarrow> jsval \<Rightarrow> string option \<Rightarrow> error + kcall list" where
  "appendQuerySubCondition env method' key v operator =
    (let m = (if operator = Some ''$or'' then ''orWhere'' else method') in
     if isSimpleRegExp v
     then Inr [Where m (Col (mapper env key)) ''like''
                 (VStr (getRegExpParam (case v of VRegExp src \<Rightarrow> src | _ \<Rightarrow> [])))]
     else if isPlainObject v \<or> (case v of VRegExp src \<Rightarrow> True | _ \<Rightarrow> False)
     then processObjectSubCondition env key v method' m
     else if isCustomExpression key then Inr [Custom m key v]
     else (let op = (if v = VNull then ''is'' else ''='') in
           case subQueries env key of
             Some (c # cs) \<Rightarrow> Inr [Where m (RawLhs (''('' @ (c # cs) @ '')'')) op v]
           | _ \<Rightarrow> Inr [Where m (Col (mapper env key)) op v]))"

text \<open>The test of \<open>appendGroupCondition\<close> for a member of a multi-member \<open>$or\<close> group:
  one key, whose value is a scalar, an object with a single key, or an object without
  operator keys.\<close>

definition simpleMember :: "jsval \<Rightarrow> bool" where
  "simpleMember sub =
    (let keys = objKeys sub;
         val = (case keys of [] \<Rightarrow> VUndefined | k # ks \<Rightarrow> getv sub k);
         simple = (\<not> isPlainObject val \<or> getObjectKeysSize val = 1
                   \<or> list_all (\<lambda>k. \<not> isOperator k) (objKeys val))
     in length keys = 1 \<and> simple)"

text \<open>\<open>appendQueryCondition\<close> and \<open>appendGroupCondition\<close>. \<open>appendQueryCondition\<close>
  loops over \<open>Object.keys(cond)\<close>: for \<open>undefined\<close> and \<open>null\<close> that is a
  \<open>TypeError\<close>; a value that is not a dictionary has index keys at most, none of which is
  \<open>$and\<close>, \<open>$or\<close> or \<open>$not\<close>, so each of its entries goes to
  \<open>appendQuerySubCondition\<close>. \<open>appendGroupCondition\<close> calls \<open>forEach\<close> on the group,
  which only an array has. \<open>appendGroupInline\<close> is the loop of the flattened case,
  \<open>appendGroupNested\<close> the loop inside the callback group.\<close>

fun appendQueryCondition :: "helper_env \<Rightarrow> jsval \<Rightarrow> string option \<Rightarrow> string \<Rightarrow> error + kcall list"
and appendGroupCondition :: "helper_env \<Rightarrow> string \<Rightarrow> string \<Rightarrow> jsval \<Rightarrow> error + kcall list"
and appendGroupInline :: "helper_env \<Rightarrow> string \<Rightarrow> jsval \<Rightarrow> error + kcall list"
and appendGroupNested :: "helper_env \<Rightarrow> string \<Rightarrow> jsval \<Rightarrow> error + kcall list"
where
  "appendQueryCondition env (VObj []) operator method' = Inr []"
| "appendQueryCondition env (VObj ((k, v) # rest)) operator method' =
    (case (if k = ''$and'' \<or> k = ''$or''
           then (case appendGroupCondition env k method' v of
                   Inl e \<Rightarrow> Inl e
                 | Inr cs \<Rightarrow>
                     Inr (if operator \<noteq> None
                          then [WhereFn (if operator = Some ''$or'' then ''orWhere'' else ''andWhere'') cs]
                          else cs))
           else if k = ''$not''
           then (case appendQueryCondition env v None ''where'' of
                   Inl e \<Rightarrow> Inl e
                 | Inr cs \<Rightarrow>
                     Inr [WhereFn (if operator = Some ''$or'' then ''orWhereNot'' else ''whereNot'') cs])
           else appendQuerySubCondition env method' k v operator) of
       Inl e \<Rightarrow> Inl e
     | Inr cs \<Rightarrow>
        (case appendQueryCondition env (VObj rest) operator method' of
           Inl e \<Rightarrow> Inl e
         | Inr ds \<Rightarrow> Inr (cs @ ds)))"
| "appendQueryCondition env VUndefined operator method' = Inl TypeError"
| "appendQueryCondition env VNull operator method' = Inl TypeError"
| "appendQueryCondition env v operator method' =
    seqAll (map (\<lambda>kv. appendQuerySubCondition env method' (fst kv) (snd kv) operator)
                (ownEntries v))"
| "appendGroupCondition env operator method' (VArr subs) =
    (if length subs = 1 \<or> operator = ''$and''
     then appendGroupInline env method' (VArr subs)
     else (case appendGroupNested env operator (VArr subs) of
             Inl e \<Rightarrow> Inl e
           | Inr cs \<Rightarrow> Inr [WhereFn method' cs]))"
| "appendGroupCondition env operator method' VUndefined = Inl TypeError"
| "appendGroupCondition env operator method' VNull = Inl TypeError"
| "appendGroupCondition env operator method' (VBool b) = Inl TypeError"
| "appendGroupCondition env operator method' (VNum n) = Inl TypeError"
| "appendGroupCondition env operator method' (VStr s) = Inl TypeError"
| "appendGroupCondition env operator method' (VRegExp s) = Inl TypeError"
| "appendGroupCondition env operator method' (VObj kvs) = Inl TypeError"
| "appendGroupCondition env operator method' (VRaw s ps) = Inl TypeError"
| "appendGroupInline env method' (VArr (sub # rest)) =
    (case appendQueryCondition env sub None method' of
       Inl e \<Rightarrow> Inl e
     | Inr cs \<Rightarrow>
        (case appendGroupInline env method' (VArr rest) of
           Inl e \<Rightarrow> Inl e
         | Inr ds \<Rightarrow> Inr (cs @ ds)))"
| "appendGroupInline env method' v = Inr []"
| "appendGroupNested env operator (VArr (sub # rest)) =
    (case (if simpleMember sub
           then appendQueryCondition env sub (Some operator) ''where''
           else (case appendQueryCondition env sub None ''where'' of
                   Inl e \<Rightarrow> Inl e
                 | Inr cs \<Rightarrow> Inr [WhereFn ''orWhere'' cs])) of
       Inl e \<Rightarrow> Inl e
     | Inr cs \<Rightarrow>
        (case appendGroupNested env operator (VArr rest) of
           Inl e \<Rightarrow> Inl e
         | Inr ds \<Rightarrow> Inr (cs @ ds)))"
| "appendGroupNested env operator v = Inr []"

section \<open>Compiling join conditions\<close>

text \<open>\<open>processObjectSubClause\<close> for an object with at most one key: the first operator of
  the table that the object has.\<close>

definition joinOperator :: "helper_env \<Rightarrow> string \<Rightarrow> jsval \<Rightarrow> string \<Rightarrow> kcall list" where
  "joinOperator env key v m =
    (case find (\<lambda>(op, replacement). op \<in> set (objKeys v)) OPERATORS of
       None \<Rightarrow> []
     | Some (op, replacement) \<Rightarrow>
         [Where m (Col (mapper env key)) replacement (VRaw ''?'' [getv v op])])"

text \<open>\<open>processObjectSubClause\<close>. With more than one key the source re-enters
  \<open>appendJoinClause\<close> with \<open>{ [key]: { [subKey]: subValue } }\<close> and operator \<open>$and\<close>
  inside a callback group; each of those calls ends in the one-key case with \<open>andOn\<close>.\<close>

definition processObjectSubClause :: "helper_env \<Rightarrow> string \<Rightarrow> jsval \<Rightarrow> string \<Rightarrow> kcall list" where
  "processObjectSubClause env key v m =
    (if getObjectKeysSize v > 1
     then [WhereFn m (concat (map (\<lambda>(sk, sv). joinOperator env key (VObj [(sk, sv)]) ''andOn'')
                                  (case v of VObj kvs \<Rightarrow> kvs | _ \<Rightarrow> [])))]
     else joinOperator env key v m)"

text \<open>\<open>appendJoinSubClause\<close>: every RegExp goes to LIKE through \<open>getRegExpParam\<close>; there
  is no \<open>isSimpleRegExp\<close> test on this path.\<close>

definition appendJoinSubClause ::
  "helper_env \<Rightarrow> string \<Rightarrow> jsval \<Rightarrow> string option \<Rightarrow> kcall list" where
  "appendJoinSubClause env key v operator =
    (let m = (if operator = Some ''$or'' then ''orOn'' else ''andOn'') in
     case v of
       VRegExp src \<Rightarrow>
         [Where m (Col (mapper env key)) ''like'' (VRaw ''?'' [VStr (getRegExpParam src)])]
     | _ \<Rightarrow>
       if isPlainObject v then processObjectSubClause env key v m
       else if isCustomExpression key then [Custom m key v]
       else [WhereRaw m (VRaw (mapper env key @ '' '' @ (if v = VNull then ''is'' else ''='') @ '' ?'') [v])])"

text \<open>\<open>appendJoinClause\<close> loops over \<open>Object.keys(cond)\<close> in the same way: a
  \<open>TypeError\<close> for \<open>undefined\<close> and \<open>null\<close>, and the entries of a value that is not a
  dictionary go to \<open>appendJoinSubClause\<close>. The members of a group are taken with
  \<open>forEach\<close>, which only an array has.\<close>

fun appendJoinClause :: "helper_env \<Rightarrow> jsval \<Rightarrow> string option \<Rightarrow> error + kcall list"
and appendJoinGroup :: "helper_env \<Rightarrow> string \<Rightarrow> jsval \<Rightarrow> error + kcall list"
where
  "appendJoinClause env (VObj []) operator = Inr []"
| "appendJoinClause env (VObj ((k, v) # rest)) operator =
    (case (if k = ''$and'' \<or> k = ''$or''
           then (if \<not> isArray v then Inl TypeError
                 else (case appendJoinGroup env k v of
                         Inl e \<Rightarrow> Inl e
                       | Inr cs \<Rightarrow>
                           Inr [WhereFn (if operator = Some ''$or'' then ''orOn'' else ''andOn'') cs]))
           else Inr (appendJoinSubClause env k v operator)) of
       Inl e \<Rightarrow> Inl e
     | Inr cs \<Rightarrow>
        (case appendJoinClause env (VObj rest) operator of
           Inl e \<Rightarrow> Inl e
         | Inr ds \<Rightarrow> Inr (cs @ ds)))"
| "appendJoinClause env VUndefined operator = Inl TypeError"
| "appendJoinClause env VNull operator = Inl TypeError"
| "appendJoinClause env v operator =
    Inr (concat (map (\<lambda>kv. appendJoinSubClause env (fst kv) (snd kv) operator) (ownEntries v)))"
| "appendJoinGroup env k (VArr (sub # rest)) =
    (case (if getObjectKeysSize sub = 1
           then appendJoinClause env sub (Some k)
           else (case appendJoinClause env sub (Some ''$and'') of
                   Inl e \<Rightarrow> Inl e
                 | Inr cs \<Rightarrow> Inr [WhereFn (if k = ''$or'' then ''orOn'' else ''andOn'') cs])) of
       Inl e \<Rightarrow> Inl e
     | Inr cs \<Rightarrow>
        (case appendJoinGroup env k (VArr rest) of
           Inl e \<Rightarrow> Inl e
         | Inr ds \<Rightarrow> Inr (cs @ ds)))"
| "appendJoinGroup env k v = Inr []"

text \<open>A helper over an entity without metadata-driven renaming: the mapper is the
  identity, there are no sub-queries, and the platform's operator is \<open>regexp\<close>.\<close>

definition plainEnv :: helper_env where
  "plainEnv = \<lparr> mapper = (\<lambda>f. f), subQueries = (\<lambda>k. None), getRegExpOperator = ''regexp'',
                getFullTextWhereClause = ''match(:column:) against (:query)'',
                requiresValuesKeyword = False, tableName = ''t'',
                splitPrimaryKeys = (\<lambda>k. [k]) \<rparr>"

section \<open>Metadata\<close>

text \<open>
  Entity metadata as the core package types it, restricted to the fields that the functions
  below read or write. An optional field is an \<open>option\<close>; a flag that is tested for
  truthiness only is a \<open>bool\<close> (\<open>undefined\<close> is \<open>False\<close>). \<open>properties\<close> is the
  dictionary in insertion order and \<open>meta.props\<close> its values. The metadata storage is
  the dictionary from entity name to metadata; \<open>root\<close> holds the name of the root entity
  where the source holds a reference to it.
\<close>

datatype ReferenceType = SCALAR | ONE_TO_ONE | ONE_TO_MANY | MANY_TO_ONE | MANY_TO_MANY | EMBEDDED

datatype idxflag = IdxUnset | IdxBool bool | IdxName string

record EntityProperty =
  name :: string
  type :: string
  reference :: ReferenceType
  owner :: bool
  nullable :: bool
  primary :: bool
  persist :: "bool option"
  object :: bool
  customType :: bool
  inherited :: bool
  fieldNames :: "string list option"
  joinColumns :: "string list option"
  inverseJoinColumns :: "string list option"
  referencedColumnNames :: "string list option"
  referencedTableName :: "string option"
  mappedBy :: "string option"
  inversedBy :: "string option"
  pivotTable :: "string option"
  fixedOrder :: bool
  fixedOrderColumn :: "string option"
  index :: idxflag
  unique :: idxflag

record IndexDecl =
  name :: idxflag
  properties :: "string list"

record EntityMetadata =
  name :: string
  className :: string
  collection :: string
  properties :: "(string \<times> EntityProperty) list"
  primaryKeys :: "string list"
  compositePK :: bool
  pivotTable :: bool
  embeddable :: bool
  root :: "string option"
  versionProperty :: "string option"
  discriminatorColumn :: "string option"
  discriminatorMap :: "(string \<times> string) list option"
  discriminatorValue :: "string option"
  indexes :: "IndexDecl list"
  uniques :: "IndexDecl list"

type_synonym MetadataStorage = "(string \<times> EntityMetadata) list"

definition props :: "EntityMetadata \<Rightarrow> EntityProperty list" where
  "props meta = map snd (EntityMetadata.properties meta)"

definition findMeta :: "MetadataStorage \<Rightarrow> string \<Rightarrow> EntityMetadata option" where
  "findMeta storage ename = map_of storage ename"

section \<open>Locking\<close>

datatype LockMode = NONE | OPTIMISTIC | PESSIMISTIC_READ | PESSIMISTIC_WRITE

datatype lockcall = ForShare | ForUpdate

text \<open>\<open>getLockSQL\<close>: the calls made on the builder, or the error thrown
  (\<open>OptimisticLockError.lockFailed(entityName)\<close>, which the specification files under
  its configuration errors). \<open>!meta.versionProperty\<close> holds for a missing and for an
  empty name.\<close>

definition getLockSQL :: "MetadataStorage \<Rightarrow> string \<Rightarrow> LockMode option \<Rightarrow> error + lockcall list" where
  "getLockSQL storage ename lockMode =
    (if lockMode = Some PESSIMISTIC_READ then Inr [ForShare]
     else if lockMode = Some PESSIMISTIC_WRITE then Inr [ForUpdate]
     else (case findMeta storage ename of
             None \<Rightarrow> Inr []
           | Some meta \<Rightarrow>
               if lockMode = Some OPTIMISTIC
                  \<and> (versionProperty meta = None \<or> versionProperty meta = Some [])
               then Inl (OptimisticLockError ename)
               else Inr []))"

text \<open>Records with every optional field unset, from which examples are built.\<close>

definition blankProperty :: EntityProperty where
  "blankProperty = \<lparr> EntityProperty.name = [], type = [], reference = SCALAR, owner = False,
      nullable = False, primary = False, persist = None, object = False, customType = False,
      inherited = False, fieldNames = None, joinColumns = None, inverseJoinColumns = None,
      referencedColumnNames = None, referencedTableName = None, mappedBy = None,
      inversedBy = None, pivotTable = None, fixedOrder = False, fixedOrderColumn = None,
      index = IdxUnset, unique = IdxUnset \<rparr>"

definition blankMeta :: EntityMetadata where
  "blankMeta = \<lparr> EntityMetadata.name = [], className = [], collection = [], properties = [],
      primaryKeys = [], compositePK = False, pivotTable = False, embeddable = False,
      root = None, versionProperty = None, discriminatorColumn = None,
      discriminatorMap = None, discriminatorValue = None, indexes = [], uniques = [] \<rparr>"

text \<open>Two results combined the way the compiler's loops do; a callback group around a
  result.\<close>

definition wrapFn :: "string \<Rightarrow> error + kcall list \<Rightarrow> error + kcall list" where
  "wrapFn m r = (case r of Inl e \<Rightarrow> Inl e | Inr cs \<Rightarrow> Inr [WhereFn m cs])"

definition orMember :: "helper_env \<Rightarrow> jsval \<Rightarrow> error + kcall list" where
  "orMember env sub =
    (if simpleMember sub then appendQueryCondition env sub (Some ''$or'') ''where''
     else wrapFn ''orWhere'' (appendQueryCondition env sub None ''where''))"

section \<open>Preparing data for the builder\<close>

text \<open>
  \<open>processData\<close> copies its argument and edits the copy, so the model has an explicit
  store: a list of objects addressed by position, each a dictionary or an array of
  addresses. A dictionary's values are immutable values. Writing a key that exists keeps
  its position; a new key goes last.
\<close>

datatype hobj = HDict "(string \<times> jsval) list" | HArr "nat list"

type_synonym heap = "hobj list"

definition dget :: "(string \<times> jsval) list \<Rightarrow> string \<Rightarrow> jsval" where
  "dget d k = (case map_of d k of Some v \<Rightarrow> v | None \<Rightarrow> VUndefined)"

definition dset :: "(string \<times> jsval) list \<Rightarrow> string \<Rightarrow> jsval \<Rightarrow> (string \<times> jsval) list" where
  "dset d k v =
    (if k \<in> set (map fst d) then map (\<lambda>(k', v'). if k' = k then (k', v) else (k', v')) d
     else d @ [(k, v)])"

definition ddelete :: "(string \<times> jsval) list \<Rightarrow> string \<Rightarrow> (string \<times> jsval) list" where
  "ddelete d k = filter (\<lambda>(k', v'). k' \<noteq> k) d"

definition itemAt :: "jsval list \<Rightarrow> nat \<Rightarrow> jsval" where
  "itemAt xs i = (if i < length xs then xs ! i else VUndefined)"

text \<open>The collaborators of \<open>processData\<close>: the metadata storage and entity name of the
  helper, \<open>JSON.stringify\<close>, \<open>Utils.renameKey\<close> (it is handed the copy and edits that
  object only, so it is a function on the copy's content) and the platform flag.\<close>

record data_env =
  metadata :: MetadataStorage
  entityName :: string
  stringify :: "jsval \<Rightarrow> string"
  renameKey :: "(string \<times> jsval) list \<Rightarrow> string \<Rightarrow> jsval \<Rightarrow> (string \<times> jsval) list"
  usesDefaultKeyword :: bool

text \<open>The body of the \<open>forEach\<close> over the keys, on the content of the copy.\<close>

definition processKey :: "data_env \<Rightarrow> (string \<times> jsval) list \<Rightarrow> string \<Rightarrow> (string \<times> jsval) list" where
  "processKey env d k =
    (case findMeta (metadata env) (entityName env) of
       None \<Rightarrow> d
     | Some meta \<Rightarrow>
        (case map_of (EntityMetadata.properties meta) k of
           None \<Rightarrow> d
         | Some p \<Rightarrow>
            if joinColumns p \<noteq> None \<and> isArray (dget d k)
            then (let copy = arrItems (dget d k);
                      jcs = (case joinColumns p of Some js \<Rightarrow> js | None \<Rightarrow> [])
                  in fold (\<lambda>(joinColumn, idx) d'. dset d' joinColumn (itemAt copy idx))
                          (zip jcs [0 ..< length jcs]) (ddelete d k))
            else (let d1 = (if \<not> customType p \<and> (isArray (dget d k) \<or> isPlainObject (dget d k))
                            then dset d k (VStr (stringify env (dget d k))) else d)
                  in case fieldNames p of
                       None \<Rightarrow> d1
                     | Some fns \<Rightarrow>
                         renameKey env d1 k (case fns of [] \<Rightarrow> VUndefined | f # fs \<Rightarrow> VStr f))))"

definition dictAt :: "heap \<Rightarrow> nat \<Rightarrow> (string \<times> jsval) list" where
  "dictAt h a = (if a < length h then (case h ! a of HDict d \<Rightarrow> d | HArr rs \<Rightarrow> []) else [])"

text \<open>\<open>processData\<close> on a dictionary: \<open>Object.assign({}, data)\<close> allocates the copy, the
  loop runs over the keys the copy has at that moment, and an empty result of a
  multi-insert gets the first primary key set to \<open>default\<close> or \<open>undefined\<close>.\<close>

definition processDict :: "data_env \<Rightarrow> heap \<Rightarrow> (string \<times> jsval) list \<Rightarrow> bool \<Rightarrow> heap \<times> nat" where
  "processDict env h kvs multi =
    (let a = length h;
         h1 = h @ [HDict kvs];
         h2 = fold (\<lambda>k hh. hh[a := HDict (processKey env (dictAt hh a) k)]) (map fst kvs) h1;
         d2 = dictAt h2 a;
         h3 = (case findMeta (metadata env) (entityName env) of
                 None \<Rightarrow> h2
               | Some meta \<Rightarrow>
                   if d2 = [] \<and> multi
                   then h2[a := HDict (dset d2 (case primaryKeys meta of [] \<Rightarrow> ''undefined'' | pk # pks \<Rightarrow> pk)
                                    (if usesDefaultKeyword env then VRaw ''default'' [] else VUndefined))]
                   else h2)
     in (h3, a))"

text \<open>\<open>processData\<close>. An array is mapped element by element (with \<open>multi = true\<close>) into
  a new array. The recursion follows the store, which may be cyclic, so it carries fuel:
  \<open>None\<close> is a call that has not returned within it (or a dangling address).\<close>

fun processData :: "data_env \<Rightarrow> nat \<Rightarrow> heap \<Rightarrow> nat \<Rightarrow> bool \<Rightarrow> (heap \<times> nat) option"
and processAll :: "data_env \<Rightarrow> nat \<Rightarrow> heap \<Rightarrow> nat list \<Rightarrow> (heap \<times> nat list) option"
where
  "processData env 0 h a multi = None"
| "processData env (Suc n) h a multi =
    (if a < length h
     then (case h ! a of
             HDict kvs \<Rightarrow> Some (processDict env h kvs multi)
           | HArr refs \<Rightarrow>
               (case processAll env n h refs of
                  None \<Rightarrow> None
                | Some (h', rs) \<Rightarrow> Some (h' @ [HArr rs], length h')))
     else None)"
| "processAll env n h [] = Some (h, [])"
| "processAll env n h (r # rs) =
    (case processData env n h r True of
       None \<Rightarrow> None
     | Some (h1, r1) \<Rightarrow>
        (case processAll env n h1 rs of
           None \<Rightarrow> None
         | Some (h2, rs') \<Rightarrow> Some (h2, r1 # rs')))"

text \<open>An instance of the collaborators for examples: \<open>renameKey\<close> moves the value to the
  new key when the old key is present and the new one is not.\<close>

definition renameKeyMove :: "(string \<times> jsval) list \<Rightarrow> string \<Rightarrow> jsval \<Rightarrow> (string \<times> jsval) list" where
  "renameKeyMove d from to =
    (case to of
       VStr t \<Rightarrow> if from \<in> set (map fst d) \<and> t \<notin> set (map fst d)
                 then ddelete (dset d t (dget d from)) from else d
     | _ \<Rightarrow> d)"

definition authorMeta :: EntityMetadata where
  "authorMeta = blankMeta \<lparr> EntityMetadata.name := ''Author'', className := ''Author'',
      collection := ''author'', primaryKeys := [''id''],
      properties :=
        [(''id'', blankProperty \<lparr> EntityProperty.name := ''id'', type := ''number'',
             primary := True, fieldNames := Some [''id''] \<rparr>),
         (''fullName'', blankProperty \<lparr> EntityProperty.name := ''fullName'', type := ''string'',
             fieldNames := Some [''full_name''] \<rparr>),
         (''tags'', blankProperty \<lparr> EntityProperty.name := ''tags'', type := ''object'',
             fieldNames := Some [''tags''] \<rparr>)] \<rparr>"

definition authorDataEnv :: data_env where
  "authorDataEnv = \<lparr> metadata = [(''Author'', authorMeta)], entityName = ''Author'',
      stringify = (\<lambda>v. ''[json]''), renameKey = renameKeyMove, usesDefaultKeyword = False \<rparr>"

section \<open>Schema generator: data\<close>

text \<open>
  The live schema as the introspection returns it, the difference record, and what the
  generator reads from the platform and its schema helper (\<open>isSame\<close> is the platform's
  structural-equality check; called with two arguments its index is \<open>0\<close>). The generator
  emits knex schema builders; the model records each builder as a statement and each call
  on a table builder as an operation. Column builders (\<open>createTableColumn\<close>,
  \<open>configureColumn\<close>) only add or alter columns and are recorded as one operation.
\<close>

record ForeignKey =
  columnName :: string
  constraintName :: string

record IndexEntry =
  columnName :: string
  keyName :: string
  unique :: bool

record Column =
  name :: string
  type :: string
  nullable :: bool
  defaultValue :: "string option"
  fk :: "ForeignKey option"
  indexes :: "IndexEntry list"

record DatabaseTable =
  name :: string
  columns :: "Column list"
  tableIndexes :: "(string \<times> IndexEntry list) list"

type_synonym DatabaseSchema = "DatabaseTable list"

record IsSame =
  all :: bool
  sameTypes :: bool
  sameNullable :: bool
  sameDefault :: bool
  sameIndex :: bool

record IndexDef =
  keyName :: string
  columnNames :: "string list"
  unique :: bool

record TableDifference =
  create :: "EntityProperty list"
  update :: "(EntityProperty \<times> Column \<times> IsSame) list"
  rename :: "(Column \<times> EntityProperty) list"
  remove :: "Column list"
  addIndex :: "IndexDef list"
  dropIndex :: "IndexDef list"

record schema_helper =
  isSame :: "EntityProperty \<Rightarrow> Column \<Rightarrow> nat \<Rightarrow> IsSame"
  supportsColumnAlter :: bool
  supportsSchemaConstraints :: bool
  getIndexName :: "string \<Rightarrow> string list \<Rightarrow> string \<Rightarrow> string"
  isImplicitIndex :: "string \<Rightarrow> bool"
  usesCascadeStatement :: bool
  getSchemaBeginning :: string
  getSchemaEnd :: string

datatype alterArg = NoAlter | EmptyAlter | Alter IsSame

datatype colop =
    CreateColumn EntityProperty alterArg
  | AlterColumn EntityProperty IsSame
  | AddForeign EntityProperty
  | DropForeign "string list" string
  | DropIndexOp "string list" "string option"
  | DropUniqueOp "string list" string
  | DropColumn string
  | AddIndexOp "string list" string
  | AddUniqueOp "string list" string

datatype stmt =
    CreateTable EntityMetadata
  | AlterTable string "colop list"
  | RenameColumn string Column EntityProperty
  | DropTable string bool
  | Raw string

text \<open>The generator runs on resolved metadata, whose type gives \<open>fieldNames\<close> and
  \<open>joinColumns\<close> as arrays; where one is still unset it is read as empty.\<close>

definition fieldNamesOf :: "EntityProperty \<Rightarrow> string list" where
  "fieldNamesOf p = (case fieldNames p of Some fs \<Rightarrow> fs | None \<Rightarrow> [])"

definition joinColumnsOf :: "EntityProperty \<Rightarrow> string list" where
  "joinColumnsOf p = (case joinColumns p of Some js \<Rightarrow> js | None \<Rightarrow> [])"

definition getColumn :: "DatabaseTable \<Rightarrow> string \<Rightarrow> Column option" where
  "getColumn table n = find (\<lambda>c. Column.name c = n) (columns table)"

definition getTable :: "DatabaseSchema \<Rightarrow> string \<Rightarrow> DatabaseTable option" where
  "getTable schema n = find (\<lambda>t. DatabaseTable.name t = n) schema"

fun foldE :: "('a \<Rightarrow> 'b \<Rightarrow> error + 'b) \<Rightarrow> 'a list \<Rightarrow> 'b \<Rightarrow> error + 'b" where
  "foldE f [] acc = Inr acc"
| "foldE f (x # xs) acc = (case f x acc of Inl e \<Rightarrow> Inl e | Inr acc' \<Rightarrow> foldE f xs acc')"

fun concatE :: "(error + 'a list) list \<Rightarrow> error + 'a list" where
  "concatE [] = Inr []"
| "concatE (r # rs) =
     (case r of Inl e \<Rightarrow> Inl e
      | Inr xs \<Rightarrow> (case concatE rs of Inl e \<Rightarrow> Inl e | Inr ys \<Rightarrow> Inr (xs @ ys)))"

section \<open>Schema generator: the table difference\<close>

text \<open>\<open>shouldHaveColumn\<close>. The source's second test reads
  \<open>ReferenceType.EMBEDDED && prop.object\<close>; the enum member is a non-empty string, so the
  test is \<open>prop.object\<close>.\<close>

definition shouldHaveColumn :: "schema_helper \<Rightarrow> EntityMetadata \<Rightarrow> EntityProperty \<Rightarrow> bool \<Rightarrow> bool" where
  "shouldHaveColumn hp meta p upd =
    (if persist p = Some False then False
     else if EntityMetadata.pivotTable meta \<or> object p then True
     else if reference p \<noteq> SCALAR \<and> \<not> primary p \<and> \<not> supportsSchemaConstraints hp \<and> \<not> upd then False
     else (reference p = SCALAR \<or> reference p = MANY_TO_ONE
           \<or> (reference p = ONE_TO_ONE \<and> owner p)))"

text \<open>\<open>computeColumnDifference\<close> for one column name of a property: a missing live
  column puts the property on the create list; a live column that differs puts it on the
  update list when the platform can alter columns.\<close>

definition columnLeaf ::
  "schema_helper \<Rightarrow> DatabaseTable \<Rightarrow> EntityProperty \<Rightarrow> string \<times> nat
   \<Rightarrow> EntityProperty list \<times> (EntityProperty \<times> Column \<times> IsSame) list
   \<Rightarrow> EntityProperty list \<times> (EntityProperty \<times> Column \<times> IsSame) list" where
  "columnLeaf hp table p ni cu =
    (case getColumn table (fst ni) of
       None \<Rightarrow> (fst cu @ [p], snd cu)
     | Some column \<Rightarrow>
         if supportsColumnAlter hp \<and> \<not> all (isSame hp p column (snd ni))
         then (fst cu, snd cu @ [(p, column, isSame hp p column (snd ni))])
         else cu)"

definition columnNamesOf :: "EntityProperty \<Rightarrow> string list" where
  "columnNamesOf p =
    (if reference p = MANY_TO_ONE \<or> reference p = ONE_TO_ONE then joinColumnsOf p
     else fieldNamesOf p)"

text \<open>\<open>computeColumnDifference\<close> for a property: it re-enters itself once per join column
  (many-to-one and one-to-one) or field name (otherwise). The re-entry is told from the
  first entry by \<open>!joinColumn\<close>, so an empty name re-enters without end; that is the
  \<open>RangeError\<close> of the exhausted call stack.\<close>

definition computeColumnDifference ::
  "schema_helper \<Rightarrow> DatabaseTable \<Rightarrow> EntityProperty
   \<Rightarrow> EntityProperty list \<times> (EntityProperty \<times> Column \<times> IsSame) list
   \<Rightarrow> error + EntityProperty list \<times> (EntityProperty \<times> Column \<times> IsSame) list" where
  "computeColumnDifference hp table p cu =
    (let names = columnNamesOf p in
     if [] \<in> set names then Inl RangeError
     else Inr (fold (columnLeaf hp table p) (zip names [0 ..< length names]) cu))"

text \<open>\<open>xs.indexOf(x)\<close> and \<open>xs.splice(i, 1)\<close>. \<open>indexOf\<close> compares object identity;
  the model compares values, which is the same as long as distinct objects of a list
  differ in value. A negative start counts from the end, so \<open>splice(-1, 1)\<close>, the case
  of an element that is not found, removes the last element.\<close>

definition indexOf :: "'a list \<Rightarrow> 'a \<Rightarrow> int" where
  "indexOf xs x = (if x \<in> set xs then int (length (takeWhile (\<lambda>y. y \<noteq> x) xs)) else - 1)"

definition splice1 :: "int \<Rightarrow> 'a list \<Rightarrow> 'a list" where
  "splice1 i xs =
    (let n = int (length xs);
         start = (if i < 0 then max (n + i) 0 else min i n)
     in take (nat start) xs @ drop (nat start + 1) xs)"

definition renamedTo :: "schema_helper \<Rightarrow> Column list \<Rightarrow> EntityProperty \<Rightarrow> (Column \<times> EntityProperty) list" where
  "renamedTo hp rm p =
    concat (map (\<lambda>fieldName.
        (case find (\<lambda>column. all (isSame hp p (column \<lparr> Column.name := fieldName \<rparr>) 0)) rm of
           None \<Rightarrow> []
         | Some match \<Rightarrow> [(match, p)]))
      (fieldNamesOf p))"

text \<open>\<open>findRenamedColumns\<close> edits the two arrays it is given; the model returns the
  rename list with the edited create and remove lists.\<close>

definition findRenamedColumns ::
  "schema_helper \<Rightarrow> EntityProperty list \<Rightarrow> Column list
   \<Rightarrow> (Column \<times> EntityProperty) list \<times> EntityProperty list \<times> Column list" where
  "findRenamedColumns hp cr rm =
    (let renamed = concat (map (renamedTo hp rm) cr);
         edited = fold (\<lambda>entry (cr', rm').
                      (splice1 (indexOf cr' (snd entry)) cr', splice1 (indexOf rm' (fst entry)) rm'))
                    renamed (cr, rm)
     in (renamed, fst edited, snd edited))"

definition idxName :: "schema_helper \<Rightarrow> EntityMetadata \<Rightarrow> idxflag \<Rightarrow> string list \<Rightarrow> string \<Rightarrow> string" where
  "idxName hp meta nm cols ty =
    (case nm of IdxName s \<Rightarrow> s | _ \<Rightarrow> getIndexName hp (collection meta) cols ty)"

definition idxTruthy :: "idxflag \<Rightarrow> bool" where
  "idxTruthy f = (case f of IdxUnset \<Rightarrow> False | IdxBool b \<Rightarrow> b | IdxName s \<Rightarrow> s \<noteq> [])"

text \<open>The field names of the properties an index declaration lists; a name that is not a
  property of the entity is a \<open>TypeError\<close>.\<close>

fun indexColumns :: "EntityMetadata \<Rightarrow> string list \<Rightarrow> error + string list" where
  "indexColumns meta [] = Inr []"
| "indexColumns meta (pn # pns) =
    (case map_of (EntityMetadata.properties meta) pn of
       None \<Rightarrow> Inl TypeError
     | Some p \<Rightarrow>
        (case indexColumns meta pns of Inl e \<Rightarrow> Inl e | Inr cs \<Rightarrow> Inr (fieldNamesOf p @ cs)))"

definition declaredIndexes :: "EntityMetadata \<Rightarrow> (IndexDecl \<times> bool) list" where
  "declaredIndexes meta =
    map (\<lambda>i. (i, False)) (EntityMetadata.indexes meta) @ map (\<lambda>i. (i, True)) (uniques meta)"

text \<open>First loop of \<open>findIndexDifference\<close>: the expected names and the indexes to add.\<close>

fun expectDeclared ::
  "schema_helper \<Rightarrow> EntityMetadata \<Rightarrow> string list \<Rightarrow> (IndexDecl \<times> bool) list
   \<Rightarrow> error + (string list \<times> IndexDef list)" where
  "expectDeclared hp meta existing [] = Inr ([], [])"
| "expectDeclared hp meta existing (d # ds) =
    (case indexColumns meta (IndexDecl.properties (fst d)) of
       Inl e \<Rightarrow> Inl e
     | Inr cols \<Rightarrow>
        (let nm = idxName hp meta (IndexDecl.name (fst d)) cols (if snd d then ''unique'' else ''index'')
         in case expectDeclared hp meta existing ds of
              Inl e \<Rightarrow> Inl e
            | Inr (expected, adds) \<Rightarrow>
                Inr (nm # expected,
                     (if nm \<in> set existing then []
                      else [\<lparr> IndexDef.keyName = nm, columnNames = cols, unique = snd d \<rparr>]) @ adds)))"

definition expectProperty :: "schema_helper \<Rightarrow> EntityMetadata \<Rightarrow> EntityProperty \<Rightarrow> string list" where
  "expectProperty hp meta p =
    (if idxTruthy (index p) then [idxName hp meta (index p) (fieldNamesOf p) ''index''] else [])
    @ (if idxTruthy (EntityProperty.unique p)
       then [idxName hp meta (EntityProperty.unique p) (fieldNamesOf p) ''unique''] else [])
    @ (if reference p = ONE_TO_ONE \<or> reference p = MANY_TO_ONE
       then [getIndexName hp (collection meta) (fieldNamesOf p) ''index'',
             getIndexName hp (collection meta) (fieldNamesOf p) ''foreign'']
       else [])"

text \<open>Last loop of \<open>findIndexDifference\<close>: a live index is dropped when it is not
  expected, not implicit, and on no column of the \<open>remove\<close> argument.\<close>

fun dropLive ::
  "schema_helper \<Rightarrow> string list \<Rightarrow> Column list \<Rightarrow> (string \<times> IndexEntry list) list
   \<Rightarrow> error + IndexDef list" where
  "dropLive hp expected rm [] = Inr []"
| "dropLive hp expected rm (ni # rest) =
    (let willBeRemoved =
           (\<exists>col \<in> set rm. \<exists>i \<in> set (snd ni). IndexEntry.columnName i = Column.name col)
     in if fst ni \<notin> set expected \<and> \<not> isImplicitIndex hp (fst ni) \<and> \<not> willBeRemoved
        then (case snd ni of
                [] \<Rightarrow> Inl TypeError
              | i0 # is \<Rightarrow>
                 (case dropLive hp expected rm rest of
                    Inl e \<Rightarrow> Inl e
                  | Inr ds \<Rightarrow>
                      Inr (\<lparr> IndexDef.keyName = fst ni,
                               columnNames = map IndexEntry.columnName (snd ni),
                               unique = IndexEntry.unique i0 \<rparr> # ds)))
        else dropLive hp expected rm rest)"

definition findIndexDifference ::
  "schema_helper \<Rightarrow> EntityMetadata \<Rightarrow> DatabaseTable \<Rightarrow> Column list
   \<Rightarrow> error + (IndexDef list \<times> IndexDef list)" where
  "findIndexDifference hp meta table rm =
    (case expectDeclared hp meta (map fst (tableIndexes table)) (declaredIndexes meta) of
       Inl e \<Rightarrow> Inl e
     | Inr (expected, adds) \<Rightarrow>
        (case dropLive hp (expected @ concat (map (expectProperty hp meta) (props meta))) rm
                (tableIndexes table) of
           Inl e \<Rightarrow> Inl e
         | Inr drops \<Rightarrow> Inr (adds, drops)))"

definition unmatchedColumns :: "EntityProperty list \<Rightarrow> Column list \<Rightarrow> Column list" where
  "unmatchedColumns ps cols =
    filter (\<lambda>col. find (\<lambda>p. Column.name col \<in> set (fieldNamesOf p)
                              \<or> Column.name col \<in> set (joinColumnsOf p)) ps = None) cols"

definition computeTableDifference ::
  "schema_helper \<Rightarrow> EntityMetadata \<Rightarrow> DatabaseTable \<Rightarrow> bool \<Rightarrow> error + TableDifference" where
  "computeTableDifference hp meta table safe =
    (let ps = filter (\<lambda>p. shouldHaveColumn hp meta p True) (props meta);
         remove0 = unmatchedColumns ps (columns table)
     in case foldE (computeColumnDifference hp table) ps ([], []) of
          Inl e \<Rightarrow> Inl e
        | Inr cu \<Rightarrow>
           (let found = findRenamedColumns hp (fst cu) remove0;
                renamed = fst found;
                remove1 = snd (snd found);
                ignore = remove1 @ map fst (filter (\<lambda>c. reference (snd c) = MANY_TO_ONE
                                                       \<or> reference (snd c) = ONE_TO_ONE) renamed)
            in case findIndexDifference hp meta table ignore of
                 Inl e \<Rightarrow> Inl e
               | Inr ad \<Rightarrow>
                   Inr \<lparr> create = fst (snd found), update = snd cu, rename = renamed,
                         remove = (if safe then [] else remove1),
                         addIndex = fst ad, dropIndex = snd ad \<rparr>))"

section \<open>Schema generator: statements\<close>

text \<open>\<open>dump\<close> prints a builder, and prints nothing for one whose SQL is empty: an
  \<open>alterTable\<close> whose callback made no call.\<close>

definition dump :: "stmt \<Rightarrow> stmt list" where
  "dump s = (case s of AlterTable t [] \<Rightarrow> [] | _ \<Rightarrow> [s])"

definition dropTable :: "schema_helper \<Rightarrow> string \<Rightarrow> stmt" where
  "dropTable hp n = DropTable n (usesCascadeStatement hp)"

definition createForeignKey ::
  "schema_helper \<Rightarrow> EntityMetadata \<Rightarrow> EntityProperty \<Rightarrow> IsSame option \<Rightarrow> colop list" where
  "createForeignKey hp meta p diff =
    (if supportsSchemaConstraints hp then [AddForeign p]
     else (let columnAlreadyCreated = (primary p \<and> reference p \<noteq> SCALAR \<and> diff = None)
           in if \<not> EntityMetadata.pivotTable meta \<and> \<not> columnAlreadyCreated
              then [CreateColumn p (case diff of None \<Rightarrow> EmptyAlter | Some d \<Rightarrow> Alter d)]
              else []))"

text \<open>\<open>meta.relations\<close>: the properties that are not scalar.\<close>

definition relations :: "EntityMetadata \<Rightarrow> EntityProperty list" where
  "relations meta = filter (\<lambda>p. reference p \<noteq> SCALAR) (props meta)"

definition createForeignKeys ::
  "schema_helper \<Rightarrow> EntityMetadata \<Rightarrow> EntityProperty list option \<Rightarrow> colop list" where
  "createForeignKeys hp meta only =
    concat (map (\<lambda>p. createForeignKey hp meta p None)
      (filter (\<lambda>p. reference p = MANY_TO_ONE \<or> (reference p = ONE_TO_ONE \<and> owner p))
        (filter (\<lambda>p. case only of None \<Rightarrow> True | Some ps \<Rightarrow> p \<in> set ps) (relations meta))))"

definition updateTableColumn ::
  "schema_helper \<Rightarrow> EntityMetadata \<Rightarrow> EntityProperty \<times> Column \<times> IsSame \<Rightarrow> colop list" where
  "updateTableColumn hp meta u =
    (let p = fst u; column = fst (snd u); diff = snd (snd u);
         equalDefinition = (sameTypes diff \<and> sameDefault diff \<and> sameNullable diff)
     in (case fk column of
           Some f \<Rightarrow> if \<not> sameIndex diff
                     then [DropForeign [ForeignKey.columnName f] (constraintName f)] else []
         | None \<Rightarrow> [])
        @ (if Column.indexes column \<noteq> [] \<and> \<not> sameIndex diff
           then [DropIndexOp (map IndexEntry.columnName (Column.indexes column)) None] else [])
        @ (if fk column \<noteq> None \<and> \<not> sameIndex diff \<and> equalDefinition
           then createForeignKey hp meta p (Some diff)
           else [AlterColumn p diff]))"

definition dropTableColumn :: "Column \<Rightarrow> colop list" where
  "dropTableColumn column =
    (case fk column of
       Some f \<Rightarrow> [DropForeign [ForeignKey.columnName f] (constraintName f)]
     | None \<Rightarrow> [])
    @ map (\<lambda>i. if IndexEntry.unique i
                then DropUniqueOp [IndexEntry.columnName i] (IndexEntry.keyName i)
                else DropIndexOp [IndexEntry.columnName i] (Some (IndexEntry.keyName i)))
          (Column.indexes column)
    @ [DropColumn (Column.name column)]"

definition updateTable ::
  "schema_helper \<Rightarrow> EntityMetadata \<Rightarrow> DatabaseTable \<Rightarrow> bool \<Rightarrow> error + stmt list" where
  "updateTable hp meta table safe =
    (case computeTableDifference hp meta table safe of
       Inl e \<Rightarrow> Inl e
     | Inr d \<Rightarrow>
        if length (create d) + length (update d) + length (remove d) + length (rename d) = 0
        then Inr []
        else Inr (map (\<lambda>r. RenameColumn (DatabaseTable.name table) (fst r) (snd r)) (rename d)
                  @ [AlterTable (collection meta)
                       (map (\<lambda>p. CreateColumn p NoAlter) (create d)
                        @ concat (map (updateTableColumn hp meta) (update d))
                        @ concat (map dropTableColumn (remove d)))]))"

definition getUpdateTableSQL ::
  "schema_helper \<Rightarrow> EntityMetadata \<Rightarrow> DatabaseSchema \<Rightarrow> bool \<Rightarrow> error + stmt list" where
  "getUpdateTableSQL hp meta schema safe =
    (case getTable schema (collection meta) of
       None \<Rightarrow> Inr (dump (CreateTable meta))
     | Some table \<Rightarrow>
        (case updateTable hp meta table safe of
           Inl e \<Rightarrow> Inl e
         | Inr builders \<Rightarrow> Inr (concat (map dump builders))))"

definition getUpdateTableFKsSQL ::
  "schema_helper \<Rightarrow> EntityMetadata \<Rightarrow> DatabaseSchema \<Rightarrow> error + stmt list" where
  "getUpdateTableFKsSQL hp meta schema =
    (case getTable schema (collection meta) of
       None \<Rightarrow> Inr (dump (AlterTable (collection meta) (createForeignKeys hp meta None)))
     | Some table \<Rightarrow>
        (case computeTableDifference hp meta table True of
           Inl e \<Rightarrow> Inl e
         | Inr d \<Rightarrow>
            if create d = [] then Inr []
            else Inr (dump (AlterTable (collection meta)
                              (createForeignKeys hp meta (Some (create d)))))))"

text \<open>\<open>createIndex\<close> for one declared index.\<close>

definition createIndex ::
  "schema_helper \<Rightarrow> EntityMetadata \<Rightarrow> IndexDecl \<times> bool \<Rightarrow> error + colop list" where
  "createIndex hp meta d =
    (case indexColumns meta (IndexDecl.properties (fst d)) of
       Inl e \<Rightarrow> Inl e
     | Inr cols \<Rightarrow>
        (let nm = idxName hp meta (IndexDecl.name (fst d)) cols (if snd d then ''unique'' else ''index'')
         in Inr [if snd d then AddUniqueOp cols nm else AddIndexOp cols nm]))"

definition indexStatement :: "EntityMetadata \<Rightarrow> bool \<Rightarrow> IndexDef \<Rightarrow> stmt list" where
  "indexStatement meta dropping i =
    dump (AlterTable (collection meta)
      [if dropping
       then (if IndexDef.unique i then DropUniqueOp (columnNames i) (IndexDef.keyName i)
             else DropIndexOp (columnNames i) (Some (IndexDef.keyName i)))
       else (if IndexDef.unique i then AddUniqueOp (columnNames i) (IndexDef.keyName i)
             else AddIndexOp (columnNames i) (IndexDef.keyName i))])"

definition getUpdateTableIndexesSQL ::
  "schema_helper \<Rightarrow> EntityMetadata \<Rightarrow> DatabaseSchema \<Rightarrow> error + stmt list" where
  "getUpdateTableIndexesSQL hp meta schema =
    (case getTable schema (collection meta) of
       None \<Rightarrow>
        (case concatE (map (createIndex hp meta) (declaredIndexes meta)) of
           Inl e \<Rightarrow> Inl e
         | Inr ops \<Rightarrow> Inr (dump (AlterTable (collection meta) ops)))
     | Some table \<Rightarrow>
        (case computeTableDifference hp meta table True of
           Inl e \<Rightarrow> Inl e
         | Inr d \<Rightarrow>
            Inr (concat (map (indexStatement meta True) (dropIndex d))
                 @ concat (map (indexStatement meta False) (addIndex d)))))"

definition wrapSchema :: "schema_helper \<Rightarrow> stmt list \<Rightarrow> bool \<Rightarrow> stmt list" where
  "wrapSchema hp sql wrap =
    (if \<not> wrap then sql else [Raw (getSchemaBeginning hp)] @ sql @ [Raw (getSchemaEnd hp)])"

text \<open>\<open>getUpdateSchemaSQL\<close>. \<open>metadata\<close> is the list \<open>getOrderedMetadata()\<close> returned and
  \<open>schema\<close> the introspected live schema.\<close>

definition getUpdateSchemaSQL ::
  "schema_helper \<Rightarrow> EntityMetadata list \<Rightarrow> DatabaseSchema \<Rightarrow> bool \<Rightarrow> bool \<Rightarrow> bool
   \<Rightarrow> error + stmt list" where
  "getUpdateSchemaSQL hp ordered schema wrap safe dropTables =
    (case concatE (map (\<lambda>meta. getUpdateTableSQL hp meta schema safe) ordered
                   @ map (\<lambda>meta. getUpdateTableFKsSQL hp meta schema) ordered
                   @ map (\<lambda>meta. getUpdateTableIndexesSQL hp meta schema) ordered) of
       Inl e \<Rightarrow> Inl e
     | Inr ret \<Rightarrow>
        if \<not> dropTables \<or> safe then Inr (wrapSchema hp ret wrap)
        else (let definedTables = map collection ordered;
                  removed = filter (\<lambda>table. DatabaseTable.name table \<notin> set definedTables) schema
              in Inr (wrapSchema hp
                        (ret @ concat (map (\<lambda>table. dump (dropTable hp (DatabaseTable.name table))) removed))
                        wrap)))"

text \<open>The drop operations: of a table, of a column, and of an index, unique constraint or
  foreign key.\<close>

fun dropsColumn :: "colop \<Rightarrow> bool" where
  "dropsColumn (DropColumn n) = True"
| "dropsColumn _ = False"

fun dropsKey :: "colop \<Rightarrow> bool" where
  "dropsKey (DropForeign cs n) = True"
| "dropsKey (DropIndexOp cs n) = True"
| "dropsKey (DropUniqueOp cs n) = True"
| "dropsKey _ = False"

fun dropsTableOrColumn :: "stmt \<Rightarrow> bool" where
  "dropsTableOrColumn (DropTable n c) = True"
| "dropsTableOrColumn (AlterTable t ops) = list_ex dropsColumn ops"
| "dropsTableOrColumn _ = False"

fun dropsAnything :: "stmt \<Rightarrow> bool" where
  "dropsAnything (DropTable n c) = True"
| "dropsAnything (AlterTable t ops) = (list_ex dropsColumn ops \<or> list_ex dropsKey ops)"
| "dropsAnything _ = False"

text \<open>A platform for examples: a column has the type of its property when the names of
  the types agree, index names are the column names joined to the table name, and no
  index is implicit.\<close>

definition plainHelper :: schema_helper where
  "plainHelper = \<lparr>
     isSame = (\<lambda>p c idx.
        \<lparr> all = (Column.type c = EntityProperty.type p \<and> Column.nullable c = EntityProperty.nullable p
                  \<and> defaultValue c = None),
          sameTypes = (Column.type c = EntityProperty.type p),
          sameNullable = (Column.nullable c = EntityProperty.nullable p),
          sameDefault = (defaultValue c = None), sameIndex = True \<rparr>),
     supportsColumnAlter = True, supportsSchemaConstraints = True,
     getIndexName = (\<lambda>t cols ty. t @ ''_'' @ concat cols @ ''_'' @ ty),
     isImplicitIndex = (\<lambda>n. False), usesCascadeStatement = False,
     getSchemaBeginning = ''begin'', getSchemaEnd = ''end'' \<rparr>"

definition idProperty :: EntityProperty where
  "idProperty = blankProperty \<lparr> EntityProperty.name := ''id'', EntityProperty.type := ''int'',
      primary := True, fieldNames := Some [''id''] \<rparr>"

definition titleProperty :: EntityProperty where
  "titleProperty = blankProperty \<lparr> EntityProperty.name := ''title'',
      EntityProperty.type := ''varchar'', fieldNames := Some [''title''] \<rparr>"

definition bookMeta :: EntityMetadata where
  "bookMeta = blankMeta \<lparr> EntityMetadata.name := ''Book'', className := ''Book'',
      collection := ''book'', primaryKeys := [''id''],
      properties := [(''id'', idProperty), (''title'', titleProperty)] \<rparr>"

definition plainColumn :: "string \<Rightarrow> string \<Rightarrow> Column" where
  "plainColumn n ty = \<lparr> Column.name = n, type = ty, nullable = False, defaultValue = None,
                         fk = None, indexes = [] \<rparr>"

text \<open>A live table \<open>book\<close> with the columns \<open>id\<close> and \<open>title\<close> and an index that the
  metadata does not declare; the same table with two columns in place of \<open>title\<close>; and a
  live table that no entity maps.\<close>

definition bookTableIndexed :: DatabaseTable where
  "bookTableIndexed = \<lparr> DatabaseTable.name = ''book'',
      columns = [plainColumn ''id'' ''int'', plainColumn ''title'' ''varchar''],
      tableIndexes = [(''title_custom'',
          [\<lparr> IndexEntry.columnName = ''title'', keyName = ''title_custom'', unique = False \<rparr>])] \<rparr>"

definition bookTableOld :: DatabaseTable where
  "bookTableOld = \<lparr> DatabaseTable.name = ''book'',
      columns = [plainColumn ''id'' ''int'', plainColumn ''name'' ''varchar'',
                 plainColumn ''label'' ''varchar''],
      tableIndexes = [] \<rparr>"

definition legacyTable :: DatabaseTable where
  "legacyTable = \<lparr> DatabaseTable.name = ''legacy'', columns = [plainColumn ''id'' ''int''],
      tableIndexes = [] \<rparr>"

section \<open>Metadata discovery: field and join-column names\<close>

text \<open>
  The naming strategy is a collaborator; its methods are carried as functions. During
  discovery the storage is edited in place, so the functions below take the storage and
  return the edited one; an entity is named by its key in the storage and a property by
  its key in the entity's \<open>properties\<close>. \<open>metadata.get\<close> throws for an entity that is
  not in the storage.
\<close>

record naming_strategy =
  classToTableName :: "string \<Rightarrow> string"
  propertyToColumnName :: "string \<Rightarrow> string"
  joinKeyColumnName :: "string \<Rightarrow> string \<Rightarrow> bool \<Rightarrow> string"
  joinTableName :: "string \<Rightarrow> string \<Rightarrow> string \<Rightarrow> string"
  joinColumnName :: "string \<Rightarrow> string"
  referenceColumnName :: string

definition lookupProperty :: "MetadataStorage \<Rightarrow> string \<Rightarrow> string \<Rightarrow> EntityProperty option" where
  "lookupProperty st e k =
    (case findMeta st e of None \<Rightarrow> None | Some meta \<Rightarrow> map_of (EntityMetadata.properties meta) k)"

definition updateMeta ::
  "MetadataStorage \<Rightarrow> string \<Rightarrow> (EntityMetadata \<Rightarrow> EntityMetadata) \<Rightarrow> MetadataStorage" where
  "updateMeta st e g = map (\<lambda>(k, m). if k = e then (k, g m) else (k, m)) st"

definition updateProperty ::
  "MetadataStorage \<Rightarrow> string \<Rightarrow> string \<Rightarrow> (EntityProperty \<Rightarrow> EntityProperty) \<Rightarrow> MetadataStorage" where
  "updateProperty st e k g =
    updateMeta st e (\<lambda>m. m \<lparr> EntityMetadata.properties :=
        map (\<lambda>(k', p). if k' = k then (k', g p) else (k', p)) (EntityMetadata.properties m) \<rparr>)"

text \<open>\<open>initFieldName\<close> and \<open>initManyToOneFieldName\<close> call each other along the
  primary keys of the target entities, which may form a cycle, so they carry fuel
  (\<open>None\<close>: not returned within it). \<open>initPrimaryKeyNames\<close> is the loop over the
  target's primary keys: it initialises the field names of each and derives one join-key
  name per field name. Iterating over field names that are still unset, or
  reading them from a primary key that is not a property, is a \<open>TypeError\<close>.\<close>

definition hasFieldNames :: "EntityProperty \<Rightarrow> bool" where
  "hasFieldNames p = (case fieldNames p of Some (f # fs) \<Rightarrow> True | _ \<Rightarrow> False)"

text \<open>The branches of \<open>initFieldName\<close> that do not re-enter: a scalar property, the
  owning side of a many-to-many relation (\<open>initManyToManyFieldName\<close>), and every other
  kind, which is left alone.\<close>

definition initFieldNameDirect ::
  "naming_strategy \<Rightarrow> MetadataStorage \<Rightarrow> string \<Rightarrow> string \<Rightarrow> EntityProperty \<Rightarrow> error + MetadataStorage" where
  "initFieldNameDirect ns st e k p =
    (if reference p = SCALAR
     then Inr (updateProperty st e k
            (\<lambda>q. q \<lparr> fieldNames := Some [propertyToColumnName ns (EntityProperty.name p)] \<rparr>))
     else if reference p = MANY_TO_MANY \<and> owner p
     then (case findMeta st (EntityProperty.type p) of
             None \<Rightarrow> Inl (MetadataError (EntityProperty.type p))
           | Some meta2 \<Rightarrow>
               Inr (updateProperty st e k (\<lambda>q. q \<lparr> fieldNames :=
                 Some (map (\<lambda>pk. propertyToColumnName ns (EntityProperty.name p))
                           (primaryKeys meta2)) \<rparr>)))
     else Inr st)"

definition joinKeyNames ::
  "naming_strategy \<Rightarrow> MetadataStorage \<Rightarrow> string \<Rightarrow> string \<Rightarrow> string list \<Rightarrow> string list" where
  "joinKeyNames ns st target nm fs =
    map (\<lambda>fieldName. joinKeyColumnName ns nm fieldName
           (case findMeta st target of Some m \<Rightarrow> compositePK m | None \<Rightarrow> False)) fs"

fun initFieldName ::
  "naming_strategy \<Rightarrow> nat \<Rightarrow> MetadataStorage \<Rightarrow> string \<Rightarrow> string \<Rightarrow> (error + MetadataStorage) option"
and initManyToOneFieldName ::
  "naming_strategy \<Rightarrow> nat \<Rightarrow> MetadataStorage \<Rightarrow> string \<Rightarrow> string
   \<Rightarrow> (error + MetadataStorage \<times> string list) option"
and initPrimaryKeyNames ::
  "naming_strategy \<Rightarrow> nat \<Rightarrow> MetadataStorage \<Rightarrow> string \<Rightarrow> string \<Rightarrow> string list
   \<Rightarrow> (error + MetadataStorage \<times> string list) option"
where
  "initFieldName ns 0 st e k = None"
| "initFieldName ns (Suc n) st e k =
    (case lookupProperty st e k of
       None \<Rightarrow> Some (Inl TypeError)
     | Some p \<Rightarrow>
        if hasFieldNames p then Some (Inr st)
        else if reference p = MANY_TO_ONE \<or> reference p = ONE_TO_ONE
        then (case initManyToOneFieldName ns n st (EntityProperty.type p) (EntityProperty.name p) of
                None \<Rightarrow> None
              | Some r \<Rightarrow>
                  Some (map_sum id
                    (\<lambda>sn. updateProperty (fst sn) e k (\<lambda>q. q \<lparr> fieldNames := Some (snd sn) \<rparr>)) r))
        else Some (initFieldNameDirect ns st e k p))"
| "initManyToOneFieldName ns n st target nm =
    (case findMeta st target of
       None \<Rightarrow> Some (Inl (MetadataError target))
     | Some meta2 \<Rightarrow> initPrimaryKeyNames ns n st target nm (primaryKeys meta2))"
| "initPrimaryKeyNames ns n st target nm [] = Some (Inr (st, []))"
| "initPrimaryKeyNames ns n st target nm (primaryKey # rest) =
    (case initFieldName ns n st target primaryKey of
       None \<Rightarrow> None
     | Some (Inl err) \<Rightarrow> Some (Inl err)
     | Some (Inr st1) \<Rightarrow>
        (case Option.bind (lookupProperty st1 target primaryKey) fieldNames of
           None \<Rightarrow> Some (Inl TypeError)
         | Some fs \<Rightarrow>
            (case initPrimaryKeyNames ns n st1 target nm rest of
               None \<Rightarrow> None
             | Some r \<Rightarrow>
                 Some (map_sum id (\<lambda>sn. (fst sn, joinKeyNames ns st1 target nm fs @ snd sn)) r))))"

text \<open>The field names of the target's primary keys, in primary-key order
  (\<open>Utils.flatten\<close> over the primary keys). A primary key that is not a property of the
  target is a \<open>TypeError\<close>; discovery has set the field names of the others before this
  point (their type is \<open>string[]\<close>), one that is unset is read as empty.\<close>

fun primaryKeyFieldNames :: "EntityMetadata \<Rightarrow> string list \<Rightarrow> error + string list" where
  "primaryKeyFieldNames meta2 [] = Inr []"
| "primaryKeyFieldNames meta2 (primaryKey # rest) =
    (case map_of (EntityMetadata.properties meta2) primaryKey of
       None \<Rightarrow> Inl TypeError
     | Some q \<Rightarrow>
        (case primaryKeyFieldNames meta2 rest of
           Inl e \<Rightarrow> Inl e
         | Inr names \<Rightarrow> Inr (fieldNamesOf q @ names)))"

text \<open>\<open>initManyToOneFields\<close>, returning the edited property.\<close>

definition initManyToOneFields ::
  "naming_strategy \<Rightarrow> MetadataStorage \<Rightarrow> EntityProperty \<Rightarrow> error + EntityProperty" where
  "initManyToOneFields ns st p =
    (case findMeta st (EntityProperty.type p) of
       None \<Rightarrow> Inl (MetadataError (EntityProperty.type p))
     | Some meta2 \<Rightarrow>
        (case primaryKeyFieldNames meta2 (primaryKeys meta2) of
           Inl e \<Rightarrow> Inl e
         | Inr fns \<Rightarrow>
            Inr (p \<lparr> joinColumns :=
                        (case joinColumns p of
                           None \<Rightarrow> Some (map (\<lambda>fieldName. joinKeyColumnName ns (EntityProperty.name p)
                                                   fieldName (length fns > 1)) fns)
                         | Some js \<Rightarrow> Some js),
                      referencedColumnNames :=
                        (case referencedColumnNames p of None \<Rightarrow> Some fns | Some rs \<Rightarrow> Some rs),
                      referencedTableName :=
                        (case referencedTableName p of
                           None \<Rightarrow> Some (collection meta2) | Some t \<Rightarrow> Some t) \<rparr>)))"

text \<open>The usual strategy for examples: names joined with an underscore.\<close>

definition underscoreNames :: naming_strategy where
  "underscoreNames = \<lparr> classToTableName = (\<lambda>c. c), propertyToColumnName = (\<lambda>p. p),
      joinKeyColumnName = (\<lambda>e c composite. e @ ''_'' @ c),
      joinTableName = (\<lambda>s t p. s @ ''_'' @ p), joinColumnName = (\<lambda>p. p @ ''_id''),
      referenceColumnName = ''id'' \<rparr>"

text \<open>An order line keyed by order number and position, and an entity that refers to
  it.\<close>

definition lineMeta :: EntityMetadata where
  "lineMeta = blankMeta \<lparr> EntityMetadata.name := ''Line'', className := ''Line'',
      collection := ''line'', primaryKeys := [''order'', ''pos''], compositePK := True,
      properties :=
        [(''order'', blankProperty \<lparr> EntityProperty.name := ''order'',
             EntityProperty.type := ''number'', primary := True, fieldNames := Some [''order_no''] \<rparr>),
         (''pos'', blankProperty \<lparr> EntityProperty.name := ''pos'',
             EntityProperty.type := ''number'', primary := True, fieldNames := Some [''pos''] \<rparr>)] \<rparr>"

definition lineReference :: EntityProperty where
  "lineReference = blankProperty \<lparr> EntityProperty.name := ''line'', EntityProperty.type := ''Line'',
      reference := MANY_TO_ONE \<rparr>"

text \<open>The primary-key field components of an entity: the field names of its primary-key
  properties, in primary-key order.\<close>

definition primaryKeyComponents :: "EntityMetadata \<Rightarrow> string list" where
  "primaryKeyComponents meta2 =
    concat (map (\<lambda>pk. case map_of (EntityMetadata.properties meta2) pk of
                         Some q \<Rightarrow> fieldNamesOf q | None \<Rightarrow> [])
                (primaryKeys meta2))"

section \<open>Metadata discovery: single-table inheritance\<close>

text \<open>Assignment to a key of a \<open>properties\<close> dictionary: an existing key keeps its
  place, a new key goes last.\<close>

definition setProperty ::
  "(string \<times> EntityProperty) list \<Rightarrow> string \<Rightarrow> EntityProperty \<Rightarrow> (string \<times> EntityProperty) list" where
  "setProperty ps k p =
    (if k \<in> set (map fst ps) then map (\<lambda>(k', p'). if k' = k then (k', p) else (k', p')) ps
     else ps @ [(k, p)])"

definition setEntry :: "(string \<times> string) list \<Rightarrow> string \<Rightarrow> string \<Rightarrow> (string \<times> string) list" where
  "setEntry d k v =
    (if k \<in> set (map fst d) then map (\<lambda>(k', v'). if k' = k then (k', v) else (k', v')) d
     else d @ [(k, v)])"

text \<open>\<open>Utils.unique\<close>: the first occurrence of every element, in order.\<close>

definition uniqueItems :: "'a list \<Rightarrow> 'a list" where
  "uniqueItems xs = rev (remdups (rev xs))"

text \<open>\<open>createDiscriminatorProperty\<close>: a scalar string property named after the
  discriminator column, indexed, whose field name \<open>initFieldName\<close> takes from the naming
  strategy.\<close>

definition createDiscriminatorProperty :: "naming_strategy \<Rightarrow> string \<Rightarrow> EntityProperty" where
  "createDiscriminatorProperty ns dc =
    blankProperty \<lparr> EntityProperty.name := dc, EntityProperty.type := ''string'',
      reference := SCALAR, fieldNames := Some [propertyToColumnName ns dc],
      index := IdxBool True \<rparr>"

text \<open>The loop that copies the properties of a subclass to the root: the copy is made
  nullable, and is tagged \<open>inherited\<close> when the root had no property of that name.\<close>

definition copyToRoot ::
  "EntityProperty \<Rightarrow> (string \<times> EntityProperty) list \<Rightarrow> (string \<times> EntityProperty) list" where
  "copyToRoot p rootProps =
    (let exists = (map_of rootProps (EntityProperty.name p) \<noteq> None);
         copy = p \<lparr> EntityProperty.nullable := True \<rparr>
     in setProperty rootProps (EntityProperty.name p)
          (if \<not> exists then copy \<lparr> inherited := True \<rparr> else copy))"

text \<open>What the loop stores for a property, given the root's properties before the
  loop.\<close>

definition copied :: "(string \<times> EntityProperty) list \<Rightarrow> EntityProperty \<Rightarrow> EntityProperty" where
  "copied before p =
    p \<lparr> EntityProperty.nullable := True,
        inherited := (if map_of before (EntityProperty.name p) = None then True else inherited p) \<rparr>"

text \<open>
  \<open>initSingleTableInheritance\<close> for the entity stored under \<open>cname\<close>.
  \<open>Utils.getRootEntity\<close> is outside the sources at hand; it follows the \<open>extends\<close> links,
  which this function never edits, so the root of every entity is carried as the function
  \<open>rootOf\<close> on entity keys. The entity and its root are entries of the storage (a missing
  entry, which the source cannot meet, leaves the storage as it is).
\<close>

definition discriminatorName :: "naming_strategy \<Rightarrow> EntityMetadata \<Rightarrow> string" where
  "discriminatorName ns m =
    (case discriminatorValue m of
       Some (c # cs) \<Rightarrow> c # cs
     | _ \<Rightarrow> classToTableName ns (className m))"

definition initSingleTableInheritance ::
  "naming_strategy \<Rightarrow> (string \<Rightarrow> string) \<Rightarrow> MetadataStorage \<Rightarrow> string \<Rightarrow> MetadataStorage" where
  "initSingleTableInheritance ns rootOf st cname =
    (case (findMeta st cname, findMeta st (rootOf cname)) of
       (Some meta, Some root0) \<Rightarrow>
        (case discriminatorColumn root0 of
           Some (c # cs) \<Rightarrow>
            (let dc = c # cs;
                 rname = rootOf cname;
                 dmap = (case discriminatorMap root0 of
                           Some dm \<Rightarrow> dm
                         | None \<Rightarrow>
                             fold (\<lambda>km dm. setEntry dm (discriminatorName ns (snd km)) (className (snd km)))
                                  (filter (\<lambda>km. rootOf (fst km) = rname) st) []);
                 st1 = updateMeta st rname (\<lambda>r. r \<lparr> discriminatorMap := Some dmap \<rparr>);
                 st2 = updateMeta st1 cname (\<lambda>m. m \<lparr> discriminatorValue :=
                         map_option fst (find (\<lambda>e. snd e = className meta) dmap) \<rparr>);
                 st3 = updateMeta st2 rname (\<lambda>r.
                         if map_of (EntityMetadata.properties r) dc = None
                         then r \<lparr> EntityMetadata.properties :=
                                   setProperty (EntityMetadata.properties r) dc
                                     (createDiscriminatorProperty ns dc) \<rparr>
                         else r)
             in if rname = cname then st3
                else updateMeta st3 rname (\<lambda>r. r \<lparr>
                       EntityMetadata.properties :=
                         fold copyToRoot (props meta) (EntityMetadata.properties r),
                       EntityMetadata.indexes :=
                         uniqueItems (EntityMetadata.indexes r @ EntityMetadata.indexes meta),
                       uniques := uniqueItems (uniques r @ uniques meta) \<rparr>))
         | _ \<Rightarrow> st)
     | _ \<Rightarrow> st)"

text \<open>The root's properties at the moment the copying loop starts: with the
  discriminator property in place.\<close>

definition rootPropertiesBefore ::
  "naming_strategy \<Rightarrow> EntityMetadata \<Rightarrow> string \<Rightarrow> (string \<times> EntityProperty) list" where
  "rootPropertiesBefore ns root0 dc =
    (if map_of (EntityMetadata.properties root0) dc = None
     then setProperty (EntityMetadata.properties root0) dc (createDiscriminatorProperty ns dc)
     else EntityMetadata.properties root0)"

text \<open>A hierarchy for examples: the root \<open>Person\<close> declares \<open>name\<close> as required, the
  subclass \<open>Employee\<close> declares \<open>name\<close> again and adds \<open>salary\<close>.\<close>

definition personMeta :: EntityMetadata where
  "personMeta = blankMeta \<lparr> EntityMetadata.name := ''Person'', className := ''Person'',
      collection := ''person'', discriminatorColumn := Some ''kind'',
      discriminatorMap := Some [(''person'', ''Person''), (''employee'', ''Employee'')],
      properties :=
        [(''kind'', blankProperty \<lparr> EntityProperty.name := ''kind'', EntityProperty.type := ''string'',
             fieldNames := Some [''kind''] \<rparr>),
         (''name'', blankProperty \<lparr> EntityProperty.name := ''name'', EntityProperty.type := ''string'',
             fieldNames := Some [''name''] \<rparr>)] \<rparr>"

definition nameProperty :: EntityProperty where
  "nameProperty = blankProperty \<lparr> EntityProperty.name := ''name'',
      EntityProperty.type := ''string'', fieldNames := Some [''name''] \<rparr>"

definition salaryProperty :: EntityProperty where
  "salaryProperty = blankProperty \<lparr> EntityProperty.name := ''salary'',
      EntityProperty.type := ''number'', fieldNames := Some [''salary''] \<rparr>"

definition employeeMeta :: EntityMetadata where
  "employeeMeta = blankMeta \<lparr> EntityMetadata.name := ''Employee'', className := ''Employee'',
      collection := ''person'',
      properties := [(''name'', nameProperty), (''salary'', salaryProperty)] \<rparr>"

definition personStorage :: MetadataStorage where
  "personStorage = [(''Person'', personMeta), (''Employee'', employeeMeta)]"

section \<open>Metadata discovery: pivot tables\<close>

text \<open>\<open>metadata.set\<close>: the entry under the name is replaced, or added.\<close>

definition setMeta :: "MetadataStorage \<Rightarrow> string \<Rightarrow> EntityMetadata \<Rightarrow> MetadataStorage" where
  "setMeta st e m =
    (if e \<in> set (map fst st) then map (\<lambda>(k, m'). if k = e then (k, m) else (k, m')) st
     else st @ [(e, m)])"

text \<open>\<open>joinColumns.every((joinColumn, idx) => joinColumn === inverseJoinColumns[idx])\<close>.\<close>

definition everyEqual :: "string list \<Rightarrow> string list \<Rightarrow> bool" where
  "everyEqual jcs ijs =
    list_all (\<lambda>(joinColumn, idx). idx < length ijs \<and> joinColumn = ijs ! idx)
             (zip jcs [0 ..< length jcs])"

text \<open>An edit of the inverse side \<open>metadata.get(prop.type).properties[prop.inversedBy]\<close>,
  made when \<open>prop.inversedBy\<close> is set: a missing target entity is the error of
  \<open>metadata.get\<close>, a missing property a \<open>TypeError\<close>.\<close>

definition editInverse ::
  "MetadataStorage \<Rightarrow> EntityProperty \<Rightarrow> (EntityProperty \<Rightarrow> EntityProperty) \<Rightarrow> error + MetadataStorage" where
  "editInverse st p g =
    (case inversedBy p of
       Some (c # cs) \<Rightarrow>
        (case findMeta st (EntityProperty.type p) of
           None \<Rightarrow> Inl (MetadataError (EntityProperty.type p))
         | Some meta2 \<Rightarrow>
            (case map_of (EntityMetadata.properties meta2) (c # cs) of
               None \<Rightarrow> Inl TypeError
             | Some prop2 \<Rightarrow> Inr (updateProperty st (EntityProperty.type p) (c # cs) g)))
     | _ \<Rightarrow> Inr st)"

text \<open>\<open>defineFixedOrderProperty\<close> for the property at \<open>(e, k)\<close>: the primary property
  of the pivot entity, with the order column stored on both sides of the relation.\<close>

definition defineFixedOrderProperty ::
  "naming_strategy \<Rightarrow> MetadataStorage \<Rightarrow> string \<Rightarrow> string \<Rightarrow> EntityProperty
   \<Rightarrow> error + (EntityProperty \<times> MetadataStorage)" where
  "defineFixedOrderProperty ns st e k p =
    (let pk = (case fixedOrderColumn p of Some (c # cs) \<Rightarrow> c # cs | _ \<Rightarrow> referenceColumnName ns);
         primaryProp = blankProperty \<lparr> EntityProperty.name := pk, EntityProperty.type := ''number'',
             reference := SCALAR, primary := True,
             fieldNames := Some [propertyToColumnName ns pk] \<rparr>;
         st1 = updateProperty st e k (\<lambda>q. q \<lparr> fixedOrderColumn := Some pk \<rparr>)
     in case editInverse st1 p (\<lambda>q. q \<lparr> fixedOrder := True, fixedOrderColumn := Some pk \<rparr>) of
          Inl err \<Rightarrow> Inl err
        | Inr st2 \<Rightarrow> Inr (primaryProp, st2))"

text \<open>The field names of all primary keys of an entity, as the inverse pivot property
  collects them with \<open>push(...prop2.fieldNames)\<close>: a primary key that is no property, or
  has no field names yet, is a \<open>TypeError\<close>.\<close>

fun pushFieldNames :: "EntityMetadata \<Rightarrow> string list \<Rightarrow> error + string list" where
  "pushFieldNames meta [] = Inr []"
| "pushFieldNames meta (primaryKey # rest) =
    (case Option.bind (map_of (EntityMetadata.properties meta) primaryKey) fieldNames of
       None \<Rightarrow> Inl TypeError
     | Some fs \<Rightarrow>
        (case pushFieldNames meta rest of Inl e \<Rightarrow> Inl e | Inr names \<Rightarrow> Inr (fs @ names)))"

text \<open>\<open>definePivotProperty\<close> (the column types and the unsigned flag it also sets are
  not part of the model).\<close>

definition definePivotProperty ::
  "MetadataStorage \<Rightarrow> EntityProperty \<Rightarrow> string \<Rightarrow> string \<Rightarrow> string \<Rightarrow> bool
   \<Rightarrow> error + EntityProperty" where
  "definePivotProperty st p nm ty inverseName isOwner =
    (case findMeta st ty of
       None \<Rightarrow> Inl (MetadataError ty)
     | Some meta \<Rightarrow>
        (let ret = blankProperty \<lparr> EntityProperty.name := nm, EntityProperty.type := ty,
                     reference := MANY_TO_ONE, fixedOrder := fixedOrder p,
                     fixedOrderColumn := fixedOrderColumn p,
                     referencedTableName := Some (collection meta) \<rparr>
         in if isOwner
            then Inr (ret \<lparr> owner := True, inversedBy := Some inverseName,
                            referencedColumnNames := referencedColumnNames p,
                            fieldNames := joinColumns p, joinColumns := joinColumns p,
                            inverseJoinColumns := referencedColumnNames p \<rparr>)
            else (case pushFieldNames meta (primaryKeys meta) of
                    Inl e \<Rightarrow> Inl e
                  | Inr names \<Rightarrow>
                      Inr (ret \<lparr> owner := False, mappedBy := Some inverseName,
                                  fieldNames := inverseJoinColumns p,
                                  joinColumns := inverseJoinColumns p,
                                  referencedColumnNames := Some names,
                                  inverseJoinColumns := Some names \<rparr>))))"

text \<open>The step of \<open>definePivotTableEntity\<close> for a self-referenced many-to-many relation
  with the same default names on both sides: the join columns are derived again from the
  table name with the suffixes \<open>_1\<close> and \<open>_2\<close>, and the inverse side mirrors them. Calling
  \<open>every\<close> on join columns that are unset, or comparing with inverse join columns that
  are unset, is a \<open>TypeError\<close>.\<close>

definition renameSelfReference ::
  "naming_strategy \<Rightarrow> MetadataStorage \<Rightarrow> EntityMetadata \<Rightarrow> string \<Rightarrow> string \<Rightarrow> EntityProperty
   \<Rightarrow> error + MetadataStorage" where
  "renameSelfReference ns st meta e k p =
    (if EntityMetadata.name meta \<noteq> EntityProperty.type p then Inr st
     else (case joinColumns p of
             None \<Rightarrow> Inl TypeError
           | Some jcs \<Rightarrow>
              if jcs \<noteq> [] \<and> inverseJoinColumns p = None then Inl TypeError
              else if \<not> everyEqual jcs (case inverseJoinColumns p of Some ijs \<Rightarrow> ijs | None \<Rightarrow> [])
              then Inr st
              else (case referencedColumnNames p of
                      None \<Rightarrow> Inl TypeError
                    | Some refs \<Rightarrow>
                       (let st1 = updateProperty st e k (\<lambda>q. q \<lparr>
                              joinColumns := Some (map (\<lambda>n. joinKeyColumnName ns
                                   (collection meta @ ''_1'') n (compositePK meta)) refs),
                              inverseJoinColumns := Some (map (\<lambda>n. joinKeyColumnName ns
                                   (collection meta @ ''_2'') n (compositePK meta)) refs) \<rparr>)
                        in case editInverse st1 p (\<lambda>q. q \<lparr> inverseJoinColumns :=
                                  Option.bind (lookupProperty st1 e k) joinColumns \<rparr>) of
                             Inl err \<Rightarrow> Inl err
                           | Inr st2 \<Rightarrow>
                               editInverse st2 p (\<lambda>q. q \<lparr> joinColumns :=
                                  Option.bind (lookupProperty st2 e k) inverseJoinColumns \<rparr>)))))"

text \<open>The first step of \<open>definePivotTableEntity\<close>: the pivot entity with its primary
  keys, which are the fixed-order column or the two references.\<close>

definition pivotSkeleton ::
  "naming_strategy \<Rightarrow> MetadataStorage \<Rightarrow> string \<Rightarrow> string \<Rightarrow> EntityMetadata \<Rightarrow> EntityProperty
   \<Rightarrow> error + (EntityMetadata \<times> MetadataStorage)" where
  "pivotSkeleton ns st e k meta p0 =
    (let pivot = (case EntityProperty.pivotTable p0 of Some t \<Rightarrow> t | None \<Rightarrow> []);
         data0 = blankMeta \<lparr> EntityMetadata.name := pivot, collection := pivot,
                    EntityMetadata.pivotTable := True \<rparr>
     in if fixedOrder p0
        then (case defineFixedOrderProperty ns st e k p0 of
                Inl err \<Rightarrow> Inl err
              | Inr (primaryProp, st1) \<Rightarrow>
                  Inr (data0 \<lparr> EntityMetadata.properties :=
                                 [(EntityProperty.name primaryProp, primaryProp)],
                               primaryKeys := [EntityProperty.name primaryProp] \<rparr>, st1))
        else Inr (data0 \<lparr> primaryKeys := [EntityMetadata.name meta @ ''_owner'',
                                           EntityProperty.type p0 @ ''_inverse''],
                           compositePK := True \<rparr>, st))"

text \<open>
  \<open>definePivotTableEntity\<close> for the owning many-to-many property stored at \<open>(e, k)\<close>
  (the caller passes properties that have a pivot table name). The property is an object
  of the storage, so every step reads it from there.
\<close>

definition definePivotTableEntity ::
  "naming_strategy \<Rightarrow> MetadataStorage \<Rightarrow> string \<Rightarrow> string \<Rightarrow> error + MetadataStorage" where
  "definePivotTableEntity ns st e k =
    (case (findMeta st e, lookupProperty st e k) of
       (Some meta, Some p0) \<Rightarrow>
        (let pivot = (case EntityProperty.pivotTable p0 of Some t \<Rightarrow> t | None \<Rightarrow> []);
             ownerKey = EntityMetadata.name meta @ ''_owner'';
             inverseKey = EntityProperty.type p0 @ ''_inverse''
         in case pivotSkeleton ns st e k meta p0 of
              Inl err \<Rightarrow> Inl err
            | Inr (data1, st1) \<Rightarrow>
               (case lookupProperty st1 e k of
                  None \<Rightarrow> Inl TypeError
                | Some p1 \<Rightarrow>
                   (case renameSelfReference ns st1 meta e k p1 of
                      Inl err \<Rightarrow> Inl err
                    | Inr st2 \<Rightarrow>
                       (case lookupProperty st2 e k of
                          None \<Rightarrow> Inl TypeError
                        | Some p2 \<Rightarrow>
                           (case definePivotProperty st2 p2 ownerKey (EntityMetadata.name meta)
                                   inverseKey True of
                              Inl err \<Rightarrow> Inl err
                            | Inr ownerProp \<Rightarrow>
                               (case definePivotProperty st2 p2 inverseKey (EntityProperty.type p2)
                                       ownerKey False of
                                  Inl err \<Rightarrow> Inl err
                                | Inr inverseProp \<Rightarrow>
                                    Inr (setMeta st2 pivot
                                      (data1 \<lparr> EntityMetadata.properties :=
                                         setProperty
                                           (setProperty (EntityMetadata.properties data1)
                                              ownerKey ownerProp)
                                           inverseKey inverseProp \<rparr>))))))))
     | _ \<Rightarrow> Inl TypeError)"

text \<open>A self-referential relation for examples: \<open>Friend.friends\<close>, many-to-many to
  \<open>Friend\<close>, as \<open>initManyToManyFields\<close> leaves it.\<close>

definition friendsProperty :: EntityProperty where
  "friendsProperty = blankProperty \<lparr> EntityProperty.name := ''friends'',
      EntityProperty.type := ''Friend'', reference := MANY_TO_MANY, owner := True,
      EntityProperty.pivotTable := Some ''friend_friends'',
      fieldNames := Some [''friends''],
      joinColumns := Some [''friend_id''], inverseJoinColumns := Some [''friend_id''],
      referencedColumnNames := Some [''id''] \<rparr>"

definition friendMeta :: EntityMetadata where
  "friendMeta = blankMeta \<lparr> EntityMetadata.name := ''Friend'', className := ''Friend'',
      collection := ''friend'', primaryKeys := [''id''],
      properties := [(''id'', idProperty), (''friends'', friendsProperty)] \<rparr>"

section \<open>Commit order\<close>

text \<open>
  Modelled from the spec: the class \<open>CommitOrderCalculator\<close> of the core package is not
  among the sources at hand; \<open>getOrderedMetadata\<close> and \<open>addCommitDependency\<close>, which
  drive it, are. The specification describes it as a dependency graph with a node per
  root entity and weighted edges, weight \<open>0\<close> for a nullable foreign key and \<open>1\<close> for a
  required one, and a dependency-respecting topological sort in which a cycle of
  weight-1 edges only is a \<open>SchemaDependencyError\<close>, while a weight-0 edge of a cycle is
  deferrable and does not block the ordering. \<open>addDependency c from to w\<close> records that
  \<open>from\<close> has to come before \<open>to\<close>.
\<close>

record calculator =
  nodes :: "string list"
  dependencies :: "(string \<times> string \<times> nat) list"

definition newCalculator :: calculator where
  "newCalculator = \<lparr> nodes = [], dependencies = [] \<rparr>"

definition hasNode :: "calculator \<Rightarrow> string \<Rightarrow> bool" where
  "hasNode c h = (h \<in> set (nodes c))"

definition addNode :: "calculator \<Rightarrow> string \<Rightarrow> calculator" where
  "addNode c h = (if h \<in> set (nodes c) then c else c \<lparr> nodes := nodes c @ [h] \<rparr>)"

definition addDependency :: "calculator \<Rightarrow> string \<Rightarrow> string \<Rightarrow> nat \<Rightarrow> calculator" where
  "addDependency c from to w = c \<lparr> dependencies := dependencies c @ [(from, to, w)] \<rparr>"

text \<open>
  Modelled from the spec: the sort. A node is blocked while a node it depends on is still
  to be placed. The next node placed is the first one that no edge blocks; when every
  remaining node is blocked (the remaining nodes hold a cycle), the weight-0 edges are
  deferred and the first node that no weight-1 edge blocks is placed; when there is none
  either, the remaining nodes hold a cycle of weight-1 edges and the sort fails.
\<close>

definition blocked :: "(string \<times> string \<times> nat) list \<Rightarrow> nat \<Rightarrow> string list \<Rightarrow> string \<Rightarrow> bool" where
  "blocked deps least remaining n =
    list_ex (\<lambda>d. fst (snd d) = n \<and> least \<le> snd (snd d) \<and> fst d \<in> set remaining) deps"

definition nextNode :: "(string \<times> string \<times> nat) list \<Rightarrow> string list \<Rightarrow> string option" where
  "nextNode deps remaining =
    (case find (\<lambda>n. \<not> blocked deps 0 remaining n) remaining of
       Some n \<Rightarrow> Some n
     | None \<Rightarrow> find (\<lambda>n. \<not> blocked deps 1 remaining n) remaining)"

function sortLoop ::
  "(string \<times> string \<times> nat) list \<Rightarrow> string list \<Rightarrow> string list \<Rightarrow> error + string list" where
  "sortLoop deps remaining placed =
    (if remaining = [] then Inr placed
     else (case nextNode deps remaining of
             None \<Rightarrow> Inl SchemaDependencyError
           | Some n \<Rightarrow> sortLoop deps (remove1 n remaining) (placed @ [n])))"
  by pat_completeness auto
termination
proof (relation "measure (\<lambda>(deps, remaining, placed). length remaining)")
  show "wf (measure (\<lambda>(deps, remaining, placed). length remaining))" by simp
next
  fix deps :: "(string \<times> string \<times> nat) list" and remaining placed :: "string list" and n
  assume "remaining \<noteq> []" "nextNode deps remaining = Some n"
  then have "n \<in> set remaining"
    by (auto simp: nextNode_def find_Some_iff split: option.splits)
  then have "length (remove1 n remaining) < length remaining"
    using length_pos_if_in_set [of n remaining] by (simp add: length_remove1)
  then show "((deps, remove1 n remaining, placed @ [n]), (deps, remaining, placed))
               \<in> measure (\<lambda>(deps, remaining, placed). length remaining)"
    by simp
qed

definition sortNodes :: "calculator \<Rightarrow> error + string list" where
  "sortNodes c = sortLoop (dependencies c) (nodes c) []"

text \<open>\<open>addCommitDependency\<close> and \<open>getOrderedMetadata\<close>, from the schema generator. The
  loop takes the entities with \<open>pop\<close>, from the last to the first. A sorted name is looked
  up in the storage (the storage is keyed by entity name).\<close>

definition addCommitDependency :: "calculator \<Rightarrow> EntityProperty \<Rightarrow> string \<Rightarrow> calculator" where
  "addCommitDependency c p ename =
    (if \<not> (reference p = ONE_TO_ONE \<and> owner p) \<and> reference p \<noteq> MANY_TO_ONE then c
     else addDependency c (EntityProperty.type p) ename (if EntityProperty.nullable p then 0 else 1))"

definition rootEntities :: "MetadataStorage \<Rightarrow> EntityMetadata list" where
  "rootEntities storage =
    filter (\<lambda>meta. (root meta = None \<or> root meta = Some (EntityMetadata.name meta))
                    \<and> \<not> embeddable meta)
           (map snd storage)"

definition commitGraph :: "MetadataStorage \<Rightarrow> calculator" where
  "commitGraph storage =
    (let ms = rootEntities storage;
         c0 = fold (\<lambda>meta c. addNode c (EntityMetadata.name meta)) ms newCalculator
     in fold (\<lambda>meta c.
               fold (\<lambda>p c'. if \<not> hasNode c' (EntityProperty.type p) then c'
                             else addCommitDependency c' p (EntityMetadata.name meta))
                    (props meta) c)
             (rev ms) c0)"

definition getOrderedMetadata :: "MetadataStorage \<Rightarrow> error + EntityMetadata list" where
  "getOrderedMetadata storage =
    (case sortNodes (commitGraph storage) of
       Inl e \<Rightarrow> Inl e
     | Inr names \<Rightarrow> Inr (List.map_filter (findMeta storage) names))"

text \<open>\<open>x\<close> stands before \<open>y\<close> in a list; a closed chain of weight-1 edges through the
  given nodes; a property that drives a foreign key of its entity's table (a many-to-one
  reference or the owning side of a one-to-one); the edge that such a property registers; the edges of a graph as a relation.\<close>

definition precedes :: "'a \<Rightarrow> 'a \<Rightarrow> 'a list \<Rightarrow> bool" where
  "precedes x y xs = (y \<in> set xs \<and> x \<in> set (takeWhile (\<lambda>z. z \<noteq> y) xs))"

definition requiredCycle :: "(string \<times> string \<times> nat) list \<Rightarrow> string list \<Rightarrow> bool" where
  "requiredCycle deps ns =
    (ns \<noteq> [] \<and> list_all (\<lambda>ft. (fst ft, snd ft, 1) \<in> set deps) (zip ns (rotate1 ns)))"

definition ownsForeignKey :: "EntityProperty \<Rightarrow> bool" where
  "ownsForeignKey p = (reference p = MANY_TO_ONE \<or> (reference p = ONE_TO_ONE \<and> owner p))"

definition commitEdge :: "EntityMetadata \<Rightarrow> EntityProperty \<Rightarrow> string \<times> string \<times> nat" where
  "commitEdge meta p =
    (EntityProperty.type p, EntityMetadata.name meta, if EntityProperty.nullable p then 0 else 1)"

definition edges :: "(string \<times> string \<times> nat) list \<Rightarrow> (string \<times> string) set" where
  "edges deps = set (map (\<lambda>d. (fst d, fst (snd d))) deps)"

text \<open>Authors and their books: \<open>Book.author\<close> is a required many-to-one reference. And
  two entities that require each other.\<close>

definition authorReference :: EntityProperty where
  "authorReference = blankProperty \<lparr> EntityProperty.name := ''author'',
      EntityProperty.type := ''Author'', reference := MANY_TO_ONE,
      fieldNames := Some [''author_id''], joinColumns := Some [''author_id''] \<rparr>"

definition libraryBook :: EntityMetadata where
  "libraryBook = bookMeta \<lparr> EntityMetadata.properties :=
     [(''id'', idProperty), (''title'', titleProperty), (''author'', authorReference)] \<rparr>"

definition libraryStorage :: MetadataStorage where
  "libraryStorage = [(''Book'', libraryBook), (''Author'', authorMeta)]"

definition knotStorage :: MetadataStorage where
  "knotStorage =
    [(''A'', blankMeta \<lparr> EntityMetadata.name := ''A'', className := ''A'', collection := ''a'',
         properties := [(''b'', blankProperty \<lparr> EntityProperty.name := ''b'',
             EntityProperty.type := ''B'', reference := MANY_TO_ONE \<rparr>)] \<rparr>),
     (''B'', blankMeta \<lparr> EntityMetadata.name := ''B'', className := ''B'', collection := ''b'',
         properties := [(''a'', blankProperty \<lparr> EntityProperty.name := ''a'',
             EntityProperty.type := ''A'', reference := ONE_TO_ONE, owner := True \<rparr>)] \<rparr>)]"

section \<open>Notions for the shape of compiled conditions\<close>

text \<open>A builder call of the given method that takes no callback, so that knex prints it
  without parentheses of its own.\<close>

fun plainCall :: "string \<Rightarrow> kcall \<Rightarrow> bool" where
  "plainCall m (Where m' l op v) = (m' = m)"
| "plainCall m (WhereRaw m' v) = (m' = m)"
| "plainCall m (Custom m' k v) = (m' = m)"
| "plainCall m (WhereFn m' cs) = False"

section \<open>A second renamed property\<close>



section \<open>Single-table inheritance over all discovered entities\<close>

text \<open>The loop of \<open>discover\<close>,
  \<open>filtered.forEach(meta => this.initSingleTableInheritance(meta))\<close>, over the keys of the
  discovered entities in their order.\<close>

definition discoverInheritance ::
  "naming_strategy \<Rightarrow> (string \<Rightarrow> string) \<Rightarrow> MetadataStorage \<Rightarrow> string list \<Rightarrow> MetadataStorage" where
  "discoverInheritance ns rootOf st order =
    fold (\<lambda>cname s. initSingleTableInheritance ns rootOf s cname) order st"

text \<open>The properties of the subclasses of the root \<open>r\<close>, in the order in which the loop
  meets them.\<close>

definition subclassProperties ::
  "(string \<Rightarrow> string) \<Rightarrow> MetadataStorage \<Rightarrow> string \<Rightarrow> string list \<Rightarrow> EntityProperty list" where
  "subclassProperties rootOf st r order =
    concat (map (\<lambda>e. case findMeta st e of Some m \<Rightarrow> props m | None \<Rightarrow> [])
                (filter (\<lambda>e. rootOf e = r \<and> e \<noteq> r) order))"

text \<open>A second subclass of \<open>Person\<close>: \<open>Manager\<close> declares \<open>salary\<close> with another type
  and adds \<open>level\<close>.\<close>

definition managerSalary :: EntityProperty where
  "managerSalary = blankProperty \<lparr> EntityProperty.name := ''salary'',
      EntityProperty.type := ''string'', fieldNames := Some [''salary''] \<rparr>"

definition levelProperty :: EntityProperty where
  "levelProperty = blankProperty \<lparr> EntityProperty.name := ''level'',
      EntityProperty.type := ''number'', fieldNames := Some [''level''] \<rparr>"

definition managerMeta :: EntityMetadata where
  "managerMeta = blankMeta \<lparr> EntityMetadata.name := ''Manager'', className := ''Manager'',
      collection := ''person'',
      properties := [(''salary'', managerSalary), (''level'', levelProperty)] \<rparr>"

definition teamStorage :: MetadataStorage where
  "teamStorage = [(''Person'', personMeta), (''Employee'', employeeMeta), (''Manager'', managerMeta)]"

section \<open>A reference to a subclass\<close>

text \<open>\<open>Person\<close> and its subclass \<open>Employee\<close> with their root set, and a \<open>Book\<close> with a
  required many-to-one reference \<open>editor\<close> to the subclass.\<close>

definition editorReference :: EntityProperty where
  "editorReference = blankProperty \<lparr> EntityProperty.name := ''editor'',
      EntityProperty.type := ''Employee'', reference := MANY_TO_ONE,
      fieldNames := Some [''editor_id''], joinColumns := Some [''editor_id''] \<rparr>"

definition editedBook :: EntityMetadata where
  "editedBook = bookMeta \<lparr> EntityMetadata.properties :=
     [(''id'', idProperty), (''title'', titleProperty), (''editor'', editorReference)] \<rparr>"

definition staffStorage :: MetadataStorage where
  "staffStorage =
    [(''Book'', editedBook),
     (''Person'', personMeta \<lparr> root := Some ''Person'' \<rparr>),
     (''Employee'', employeeMeta \<lparr> root := Some ''Person'' \<rparr>)]"

section \<open>Properties of the regular-expression rewrite\<close>

lemmas regexp_defs = getRegExpParam_def stripEnd_def stripStart_def startsWith_def
  endsWith_def replace1_def backslash_def

lemma regexp_examples:
  "getRegExpParam ''^foo.*bar$'' = ''foo%bar'' \<and> getRegExpParam ''^foo'' = ''foo%''
   \<and> getRegExpParam ''bar$'' = ''%bar'' \<and> getRegExpParam ''foo'' = ''%foo%''"
  by (simp add: regexp_defs)

lemma complex_not_simple:
  "CHR ''{'' \<in> set src \<or> CHR ''['' \<in> set src \<or> CHR ''('' \<in> set src
   \<Longrightarrow> \<not> isSimpleRegExp (VRegExp src)"
  by simp

text \<open>In a WHERE or HAVING condition a pattern that is not simple reaches the platform's
  operator with its source unchanged.\<close>

lemma complex_where_native:
  assumes "CHR ''{'' \<in> set src \<or> CHR ''['' \<in> set src \<or> CHR ''('' \<in> set src"
    and "subQueries env key = None"
  shows "appendQuerySubCondition env m key (VRegExp src) operator =
     Inr [Where (if operator = Some ''$or'' then ''orWhere'' else m) (Col (mapper env key))
            (getRegExpOperator env) (VStr src)]"
  using assms
  by (simp add: appendQuerySubCondition_def processObjectSubCondition_def getObjectKeysSize_def
      processOperator_def OPERATORS_def getOperatorReplacement_def Let_def)

text \<open>
  C4. The four documented rewrites hold (\<open>regexp_examples\<close>), every pattern with an
  opening brace, bracket or parenthesis is classified as not simple
  (\<open>complex_not_simple\<close>), and a WHERE condition hands it to the native operator
  unmodified (\<open>complex_where_native\<close>). A join condition does not: \<open>appendJoinSubClause\<close>
  sends every RegExp through \<open>getRegExpParam\<close> to LIKE without asking
  \<open>isSimpleRegExp\<close>. For the join condition \<open>{ title: /(foo|bar)/ }\<close> the pattern is
  not simple, yet the clause is \<open>title like '%(foo|bar)%'\<close>, while the same condition in
  WHERE is \<open>title regexp '(foo|bar)'\<close>.
\<close>

theorem join_regexp_rewritten:
  "\<not> isSimpleRegExp (VRegExp ''(foo|bar)'')
   \<and> appendJoinClause plainEnv (VObj [(''title'', VRegExp ''(foo|bar)'')]) None
      = Inr [Where ''andOn'' (Col ''title'') ''like'' (VRaw ''?'' [VStr ''%(foo|bar)%''])]
   \<and> appendQueryCondition plainEnv (VObj [(''title'', VRegExp ''(foo|bar)'')]) None ''where''
      = Inr [Where ''where'' (Col ''title'') ''regexp'' (VStr ''(foo|bar)'')]"
  by (simp add: appendJoinSubClause_def plainEnv_def regexp_defs appendQuerySubCondition_def
      processObjectSubCondition_def getObjectKeysSize_def processOperator_def OPERATORS_def
      getOperatorReplacement_def Let_def)

section \<open>Properties of locking\<close>

text \<open>
  C6. For an entity whose metadata has no version property, \<open>getLockSQL\<close> with the
  optimistic mode throws (the result is the error, so no call reaches the builder and no
  SQL is produced). With a pessimistic mode it returns after the one builder call, for
  every storage: the version property is never looked at.
\<close>

theorem getLockSQL_optimistic_unversioned:
  "(findMeta storage ename = Some meta \<and> versionProperty meta = None
      \<longrightarrow> getLockSQL storage ename (Some OPTIMISTIC) = Inl (OptimisticLockError ename))
   \<and> getLockSQL storage ename (Some PESSIMISTIC_READ) = Inr [ForShare]
   \<and> getLockSQL storage ename (Some PESSIMISTIC_WRITE) = Inr [ForUpdate]"
  by (simp add: getLockSQL_def)

theorem getLockSQL_optimistic_unversioned_witness:
  "findMeta [(''Author4'', blankMeta)] ''Author4'' = Some blankMeta
   \<and> versionProperty blankMeta = None
   \<and> getLockSQL [(''Author4'', blankMeta)] ''Author4'' (Some OPTIMISTIC)
       = Inl (OptimisticLockError ''Author4'')
   \<and> getLockSQL [(''Author4'', blankMeta)] ''Author4'' (Some PESSIMISTIC_READ) = Inr [ForShare]
   \<and> getLockSQL [(''Author4'', blankMeta)] ''Author4'' (Some PESSIMISTIC_WRITE) = Inr [ForUpdate]"
  using getLockSQL_optimistic_unversioned [of "[(''Author4'', blankMeta)]" "''Author4''" blankMeta]
  by (simp add: findMeta_def blankMeta_def)

section \<open>Properties of \<open>$or\<close> groups\<close>

lemma appendGroupNested_seqAll:
  "appendGroupNested env ''$or'' (VArr subs) = seqAll (map (orMember env) subs)"
  by (induction subs) (auto simp: orMember_def wrapFn_def split: sum.splits)

lemma find_member: "x \<in> set xs \<Longrightarrow> find (\<lambda>y. y = x) xs = Some x"
  by (induction xs) auto

lemma processOperator_plain:
  assumes "op \<in> set (map fst OPERATORS)"
  shows "\<exists>call. processOperator env k (VObj [(op, x)]) m = Inr [call] \<and> plainCall m call"
proof -
  from assms have "find (\<lambda>o'. o' \<in> set (objKeys (VObj [(op, x)]))) (map fst OPERATORS) = Some op"
    using find_member [of op "map fst OPERATORS"] by simp
  then show ?thesis
    by (auto simp: processOperator_def Let_def split: option.splits list.splits)
qed

lemma processOperator_regexp:
  "\<exists>call. processOperator env k (VRegExp src) m = Inr [call] \<and> plainCall m call"
proof -
  have "find (\<lambda>o'. o' \<in> set (objKeys (VObj [(''$re'', VStr src)]))) (map fst OPERATORS) = Some ''$re''"
    by (simp add: OPERATORS_def)
  then show ?thesis
    by (auto simp: processOperator_def Let_def split: option.splits list.splits)
qed

lemma processOperator_invalid:
  assumes "list_all (\<lambda>k. \<not> isOperator k) (map fst kvs)"
  shows "processOperator env k (VObj kvs) m = Inl InvalidQueryCondition"
proof -
  have "o' \<notin> set (objKeys (VObj kvs))" if "o' \<in> set (map fst OPERATORS)" for o'
  proof
    assume "o' \<in> set (objKeys (VObj kvs))"
    with assms have "\<not> isOperator o'" by (auto simp: list_all_iff)
    with that show False by (simp add: isOperator_def)
  qed
  then have "find (\<lambda>o'. o' \<in> set (objKeys (VObj kvs))) (map fst OPERATORS) = None"
    by (simp add: find_None_iff)
  then show ?thesis by (simp add: processOperator_def)
qed

lemma processObjectSubCondition_invalid:
  assumes "list_all (\<lambda>k. \<not> isOperator k) (map fst kvs)"
  shows "processObjectSubCondition env k (VObj kvs) method' m = Inl InvalidQueryCondition"
proof (cases "getObjectKeysSize (VObj kvs) > 1")
  case False
  with assms show ?thesis
    by (simp add: processObjectSubCondition_def processOperator_invalid)
next
  case True
  then obtain kv rest where kvs: "kvs = kv # rest"
    by (cases kvs) (auto simp: getObjectKeysSize_def)
  with assms have "\<not> isOperator (fst kv)" by simp
  then have "processOperator env k (VObj [(fst kv, snd kv)]) method' = Inl InvalidQueryCondition"
    using processOperator_invalid [of "[(fst kv, snd kv)]" env k method'] by simp
  with True kvs show ?thesis
    by (simp add: processObjectSubCondition_def case_prod_beta)
qed

text \<open>
  C5, as the code has it. A \<open>$or\<close> group with exactly one member is compiled in place,
  exactly as the member is compiled on its own. A \<open>$or\<close> group with any other number of
  members is compiled inside one callback group, which knex prints in parentheses. Inside
  that group a member with exactly one key, whose value is not a plain object or is a
  plain object with exactly one key or without operator keys, is compiled directly with
  the operator \<open>$or\<close>; every other member is compiled inside an \<open>orWhere\<close> callback
  group of its own. Compiled directly, a field (a key other than \<open>$and\<close>, \<open>$or\<close>,
  \<open>$not\<close>) whose value is not a plain object is one \<open>orWhere\<close> call without a callback,
  and so is a field with a one-operator object such as \<open>{ $gt: 1 }\<close>; a field whose
  object has no operator key is the error \<open>Invalid query condition\<close>; a member whose one
  key is \<open>$and\<close> or \<open>$or\<close> is put in an \<open>orWhere\<close> callback group, whether compiled
  directly or not, and a directly compiled member whose one key is \<open>$not\<close> in an
  \<open>orWhereNot\<close> callback group.
\<close>

theorem or_group_shape:
  "appendGroupCondition env ''$or'' m (VArr [sub]) = appendQueryCondition env sub None m
   \<and> (length subs \<noteq> 1 \<longrightarrow>
        appendGroupCondition env ''$or'' m (VArr subs) = wrapFn m (seqAll (map (orMember env) subs)))
   \<and> (simpleMember sub \<longrightarrow>
        orMember env sub = appendQueryCondition env sub (Some ''$or'') ''where'')
   \<and> (\<not> simpleMember sub \<longrightarrow>
        orMember env sub = wrapFn ''orWhere'' (appendQueryCondition env sub None ''where''))
   \<and> (k \<notin> {''$and'', ''$or'', ''$not''} \<and> \<not> isPlainObject v \<longrightarrow>
        (\<exists>call. orMember env (VObj [(k, v)]) = Inr [call] \<and> plainCall ''orWhere'' call))
   \<and> (k \<notin> {''$and'', ''$or'', ''$not''} \<and> op \<in> set (map fst OPERATORS) \<longrightarrow>
        (\<exists>call. orMember env (VObj [(k, VObj [(op, x)])]) = Inr [call]
               \<and> plainCall ''orWhere'' call))
   \<and> (k \<notin> {''$and'', ''$or'', ''$not''} \<and> list_all (\<lambda>k'. \<not> isOperator k') (map fst kvs) \<longrightarrow>
        orMember env (VObj [(k, VObj kvs)]) = Inl InvalidQueryCondition)
   \<and> (g \<in> {''$and'', ''$or''} \<longrightarrow>
        orMember env (VObj [(g, v)]) = wrapFn ''orWhere'' (appendGroupCondition env g ''where'' v))
   \<and> (simpleMember (VObj [(''$not'', v)]) \<longrightarrow>
        orMember env (VObj [(''$not'', v)])
          = wrapFn ''orWhereNot'' (appendQueryCondition env v None ''where''))"
proof -
  have one: "appendGroupCondition env ''$or'' m (VArr [sub]) = appendQueryCondition env sub None m"
    by (simp split: sum.splits)
  have many: "length subs \<noteq> 1 \<longrightarrow>
      appendGroupCondition env ''$or'' m (VArr subs) = wrapFn m (seqAll (map (orMember env) subs))"
    by (simp add: appendGroupNested_seqAll wrapFn_def)
  have direct: "simpleMember sub \<longrightarrow>
      orMember env sub = appendQueryCondition env sub (Some ''$or'') ''where''"
    by (simp add: orMember_def)
  have nested: "\<not> simpleMember sub \<longrightarrow>
      orMember env sub = wrapFn ''orWhere'' (appendQueryCondition env sub None ''where'')"
    by (simp add: orMember_def)
  have scalar: "\<exists>call. orMember env (VObj [(k, v)]) = Inr [call] \<and> plainCall ''orWhere'' call"
    if k: "k \<notin> {''$and'', ''$or'', ''$not''}" and v: "\<not> isPlainObject v"
  proof -
    from v have s: "simpleMember (VObj [(k, v)])" by (simp add: simpleMember_def)
    from k have run: "orMember env (VObj [(k, v)])
        = appendQuerySubCondition env ''where'' k v (Some ''$or'')"
      by (simp add: orMember_def s split: sum.splits)
    show ?thesis
      unfolding run
    proof (cases v)
      case (VRegExp src)
      with processOperator_regexp [of env k src "''orWhere''"] show
        "\<exists>call. appendQuerySubCondition env ''where'' k v (Some ''$or'') = Inr [call]
           \<and> plainCall ''orWhere'' call"
        by (auto simp: appendQuerySubCondition_def processObjectSubCondition_def
            getObjectKeysSize_def Let_def)
    qed (use v in \<open>auto simp: appendQuerySubCondition_def Let_def
          split: option.splits list.splits\<close>)
  qed
  have single: "\<exists>call. orMember env (VObj [(k, VObj [(op, x)])]) = Inr [call]
      \<and> plainCall ''orWhere'' call"
    if k: "k \<notin> {''$and'', ''$or'', ''$not''}" and op: "op \<in> set (map fst OPERATORS)"
  proof -
    have s: "simpleMember (VObj [(k, VObj [(op, x)])])"
      by (simp add: simpleMember_def getObjectKeysSize_def)
    from k have "orMember env (VObj [(k, VObj [(op, x)])])
        = processOperator env k (VObj [(op, x)]) ''orWhere''"
      by (simp add: orMember_def s appendQuerySubCondition_def processObjectSubCondition_def
          getObjectKeysSize_def split: sum.splits)
    with processOperator_plain [OF op, of env k x "''orWhere''"] show ?thesis by simp
  qed
  have invalid: "orMember env (VObj [(k, VObj kvs)]) = Inl InvalidQueryCondition"
    if k: "k \<notin> {''$and'', ''$or'', ''$not''}"
      and kvs: "list_all (\<lambda>k'. \<not> isOperator k') (map fst kvs)"
  proof -
    from kvs have s: "simpleMember (VObj [(k, VObj kvs)])"
      by (simp add: simpleMember_def list.pred_map comp_def)
    from k show ?thesis
      by (simp add: orMember_def s appendQuerySubCondition_def
          processObjectSubCondition_invalid [OF kvs])
  qed
  have group: "orMember env (VObj [(g, v)])
      = wrapFn ''orWhere'' (appendGroupCondition env g ''where'' v)"
    if "g \<in> {''$and'', ''$or''}"
    using that by (auto simp: orMember_def wrapFn_def split: sum.splits)
  have neg: "orMember env (VObj [(''$not'', v)])
      = wrapFn ''orWhereNot'' (appendQueryCondition env v None ''where'')"
    if "simpleMember (VObj [(''$not'', v)])"
    using that by (auto simp: orMember_def wrapFn_def split: sum.splits)
  from one many direct nested scalar single invalid group neg show ?thesis by blast
qed

theorem or_group_shape_witness:
  "appendGroupCondition plainEnv ''$or'' ''where'' (VArr [VObj [(''a'', VNum 1)]])
     = Inr [Where ''where'' (Col ''a'') ''='' (VNum 1)]
   \<and> length [VObj [(''a'', VObj [(''$gt'', VNum 1), (''$lt'', VNum 5)])], VObj [(''b'', VNum 2)]] \<noteq> 1
   \<and> appendGroupCondition plainEnv ''$or'' ''where''
        (VArr [VObj [(''a'', VObj [(''$gt'', VNum 1), (''$lt'', VNum 5)])], VObj [(''b'', VNum 2)]])
     = Inr [WhereFn ''where''
             [WhereFn ''orWhere'' [Where ''where'' (Col ''a'') ''>'' (VNum 1),
                                   Where ''where'' (Col ''a'') ''<'' (VNum 5)],
              Where ''orWhere'' (Col ''b'') ''='' (VNum 2)]]
   \<and> simpleMember (VObj [(''a'', VNum 1)])
   \<and> orMember plainEnv (VObj [(''a'', VNum 1)]) = Inr [Where ''orWhere'' (Col ''a'') ''='' (VNum 1)]
   \<and> \<not> simpleMember (VObj [(''a'', VObj [(''$gt'', VNum 1), (''$lt'', VNum 5)])])
   \<and> orMember plainEnv (VObj [(''a'', VObj [(''$gt'', VNum 1), (''$lt'', VNum 5)])])
     = Inr [WhereFn ''orWhere'' [Where ''where'' (Col ''a'') ''>'' (VNum 1),
                                 Where ''where'' (Col ''a'') ''<'' (VNum 5)]]
   \<and> ''a'' \<notin> {''$and'', ''$or'', ''$not''} \<and> \<not> isPlainObject (VNum 1)
   \<and> (\<exists>call. orMember plainEnv (VObj [(''a'', VNum 1)]) = Inr [call]
         \<and> plainCall ''orWhere'' call)
   \<and> ''$gt'' \<in> set (map fst OPERATORS)
   \<and> (\<exists>call. orMember plainEnv (VObj [(''a'', VObj [(''$gt'', VNum 1)])]) = Inr [call]
         \<and> plainCall ''orWhere'' call)
   \<and> list_all (\<lambda>k'. \<not> isOperator k') (map fst [(''x'', VNum 1)])
   \<and> orMember plainEnv (VObj [(''a'', VObj [(''x'', VNum 1)])]) = Inl InvalidQueryCondition
   \<and> ''$or'' \<in> {''$and'', ''$or''}
   \<and> orMember plainEnv (VObj [(''$or'', VArr [VObj [(''c'', VNum 3)]])])
     = Inr [WhereFn ''orWhere'' [Where ''where'' (Col ''c'') ''='' (VNum 3)]]
   \<and> simpleMember (VObj [(''$not'', VObj [(''a'', VNum 1)])])
   \<and> orMember plainEnv (VObj [(''$not'', VObj [(''a'', VNum 1)])])
     = Inr [WhereFn ''orWhereNot'' [Where ''where'' (Col ''a'') ''='' (VNum 1)]]"
proof -
  let ?range = "VObj [(''a'', VObj [(''$gt'', VNum 1), (''$lt'', VNum 5)])]"
  let ?subs = "[?range, VObj [(''b'', VNum 2)]]"
  note first = or_group_shape [where env = plainEnv and m = "''where''"
      and sub = "VObj [(''a'', VNum 1)]" and subs = ?subs and k = "''a''" and v = "VNum 1"
      and op = "''$gt''" and x = "VNum 1" and kvs = "[(''x'', VNum 1)]" and g = "''$or''"]
  note second = or_group_shape [where env = plainEnv and m = "''where''"
      and sub = ?range and subs = ?subs and k = "''a''" and v = "VArr [VObj [(''c'', VNum 3)]]"
      and op = "''$gt''" and x = "VNum 1" and kvs = "[(''x'', VNum 1)]" and g = "''$or''"]
  note third = or_group_shape [where env = plainEnv and m = "''where''"
      and sub = ?range and subs = ?subs and k = "''a''" and v = "VObj [(''a'', VNum 1)]"
      and op = "''$gt''" and x = "VNum 1" and kvs = "[(''x'', VNum 1)]" and g = "''$or''"]
  have h2: "length ?subs \<noteq> 1" by simp
  have h3: "simpleMember (VObj [(''a'', VNum 1)])" by code_simp
  have h4: "\<not> simpleMember ?range" by code_simp
  have h5: "''a'' \<notin> {''$and'', ''$or'', ''$not''}" "\<not> isPlainObject (VNum 1)" by simp_all
  have h6: "''$gt'' \<in> set (map fst OPERATORS)" by code_simp
  have h7: "list_all (\<lambda>k'. \<not> isOperator k') (map fst [(''x'', VNum 1)])" by code_simp
  have h8: "''$or'' \<in> {''$and'', ''$or''}" by simp
  have h9: "simpleMember (VObj [(''$not'', VObj [(''a'', VNum 1)])])" by code_simp
  have e1: "appendQueryCondition plainEnv (VObj [(''a'', VNum 1)]) None ''where''
      = Inr [Where ''where'' (Col ''a'') ''='' (VNum 1)]" by code_simp
  have e2: "wrapFn ''where'' (seqAll (map (orMember plainEnv) ?subs))
      = Inr [WhereFn ''where''
             [WhereFn ''orWhere'' [Where ''where'' (Col ''a'') ''>'' (VNum 1),
                                   Where ''where'' (Col ''a'') ''<'' (VNum 5)],
              Where ''orWhere'' (Col ''b'') ''='' (VNum 2)]]" by code_simp
  have e3: "appendQueryCondition plainEnv (VObj [(''a'', VNum 1)]) (Some ''$or'') ''where''
      = Inr [Where ''orWhere'' (Col ''a'') ''='' (VNum 1)]" by code_simp
  have e4: "wrapFn ''orWhere'' (appendQueryCondition plainEnv ?range None ''where'')
      = Inr [WhereFn ''orWhere'' [Where ''where'' (Col ''a'') ''>'' (VNum 1),
                                  Where ''where'' (Col ''a'') ''<'' (VNum 5)]]" by code_simp
  have e8: "wrapFn ''orWhere'' (appendGroupCondition plainEnv ''$or'' ''where''
        (VArr [VObj [(''c'', VNum 3)]]))
      = Inr [WhereFn ''orWhere'' [Where ''where'' (Col ''c'') ''='' (VNum 3)]]" by code_simp
  have e9: "wrapFn ''orWhereNot'' (appendQueryCondition plainEnv (VObj [(''a'', VNum 1)]) None ''where'')
      = Inr [WhereFn ''orWhereNot'' [Where ''where'' (Col ''a'') ''='' (VNum 1)]]" by code_simp
  from first e1 have c1: "appendGroupCondition plainEnv ''$or'' ''where'' (VArr [VObj [(''a'', VNum 1)]])
      = Inr [Where ''where'' (Col ''a'') ''='' (VNum 1)]" by simp
  from first h2 e2 have c2: "appendGroupCondition plainEnv ''$or'' ''where'' (VArr ?subs)
      = Inr [WhereFn ''where''
             [WhereFn ''orWhere'' [Where ''where'' (Col ''a'') ''>'' (VNum 1),
                                   Where ''where'' (Col ''a'') ''<'' (VNum 5)],
              Where ''orWhere'' (Col ''b'') ''='' (VNum 2)]]" by simp
  from first h3 e3 have c3: "orMember plainEnv (VObj [(''a'', VNum 1)])
      = Inr [Where ''orWhere'' (Col ''a'') ''='' (VNum 1)]" by simp
  from second h4 e4 have c4: "orMember plainEnv ?range
      = Inr [WhereFn ''orWhere'' [Where ''where'' (Col ''a'') ''>'' (VNum 1),
                                  Where ''where'' (Col ''a'') ''<'' (VNum 5)]]" by simp
  from first h5 have c5: "\<exists>call. orMember plainEnv (VObj [(''a'', VNum 1)]) = Inr [call]
      \<and> plainCall ''orWhere'' call" by blast
  from first h5 h6 have c6: "\<exists>call. orMember plainEnv (VObj [(''a'', VObj [(''$gt'', VNum 1)])]) = Inr [call]
      \<and> plainCall ''orWhere'' call" by blast
  from first h5 h7 have c7: "orMember plainEnv (VObj [(''a'', VObj [(''x'', VNum 1)])])
      = Inl InvalidQueryCondition" by blast
  from second h8 e8 have c8: "orMember plainEnv (VObj [(''$or'', VArr [VObj [(''c'', VNum 3)]])])
      = Inr [WhereFn ''orWhere'' [Where ''where'' (Col ''c'') ''='' (VNum 3)]]" by simp
  from third h9 e9 have c9: "orMember plainEnv (VObj [(''$not'', VObj [(''a'', VNum 1)])])
      = Inr [WhereFn ''orWhereNot'' [Where ''where'' (Col ''a'') ''='' (VNum 1)]]" by simp
  from c1 h2 c2 h3 c3 h4 c4 h5 c5 h6 c6 h7 c7 h8 c8 h9 c9 show ?thesis by blast
qed

text \<open>The claim as stated fails: the group of two simple equalities is compiled inside a
  callback group, and the group with the member \<open>{ a: { $gt: 1 } }\<close> has the very same
  shape, with no group around that member.\<close>

theorem or_group_counterexample:
  "appendQueryCondition plainEnv
      (VObj [(''$or'', VArr [VObj [(''a'', VNum 1)], VObj [(''b'', VNum 2)]])]) None ''where''
     = Inr [WhereFn ''where'' [Where ''orWhere'' (Col ''a'') ''='' (VNum 1),
                               Where ''orWhere'' (Col ''b'') ''='' (VNum 2)]]
   \<and> appendQueryCondition plainEnv
      (VObj [(''$or'', VArr [VObj [(''a'', VObj [(''$gt'', VNum 1)])], VObj [(''b'', VNum 2)]])])
      None ''where''
     = Inr [WhereFn ''where'' [Where ''orWhere'' (Col ''a'') ''>'' (VNum 1),
                               Where ''orWhere'' (Col ''b'') ''='' (VNum 2)]]"
  by code_simp

section \<open>Properties of \<open>processData\<close>\<close>

lemma processDict_fold_frame:
  "length hh = Suc n \<Longrightarrow>
   length (fold (\<lambda>k hh. hh[n := HDict (g hh k)]) ks hh) = Suc n
   \<and> take n (fold (\<lambda>k hh. hh[n := HDict (g hh k)]) ks hh) = take n hh"
  by (induction ks arbitrary: hh) auto

lemma processDict_frame:
  assumes "processDict env h kvs multi = (h', r)"
  shows "r = length h \<and> length h' = Suc (length h) \<and> take (length h) h' = h"
proof -
  let ?h1 = "h @ [HDict kvs]"
  let ?h2 = "fold (\<lambda>k hh. hh[length h := HDict (processKey env (dictAt hh (length h)) k)])
               (map fst kvs) ?h1"
  have "length ?h1 = Suc (length h)" by simp
  from processDict_fold_frame [OF this, of "\<lambda>hh k. processKey env (dictAt hh (length h)) k" "map fst kvs"]
  have h2: "length ?h2 = Suc (length h)" "take (length h) ?h2 = h" by simp_all
  from assms h2 show ?thesis
    by (auto simp: processDict_def Let_def split: option.splits if_splits)
qed

lemma processData_frame:
  "(processData env n h a multi = Some (h', r)
      \<longrightarrow> length h \<le> r \<and> r < length h' \<and> take (length h) h' = h)"
  "(processAll env n h refs = Some (h', rs)
      \<longrightarrow> length h \<le> length h' \<and> take (length h) h' = h)"
proof (induction env n h a multi and env n h refs arbitrary: h' r and h' rs
    rule: processData_processAll.induct)
  case (1 env h a multi)
  then show ?case by simp
next
  case (2 env n h a multi)
  show ?case
  proof (cases "a < length h")
    case False
    then show ?thesis by simp
  next
    case True
    show ?thesis
    proof (cases "h ! a")
      case (HDict kvs)
      with True show ?thesis
        using processDict_frame [of env h kvs multi h' r] by auto
    next
      case (HArr refs)
      show ?thesis
      proof
        assume run: "processData env (Suc n) h a multi = Some (h', r)"
        with True HArr obtain h1 rs1 where
          all: "processAll env n h refs = Some (h1, rs1)" and
          res: "h' = h1 @ [HArr rs1]" "r = length h1"
          by (auto split: option.splits)
        from "2.IH" [OF True HArr] all
        have "length h \<le> length h1" "take (length h) h1 = h" by auto
        with res show "length h \<le> r \<and> r < length h' \<and> take (length h) h' = h" by simp
      qed
    qed
  qed
next
  case (3 env n h)
  then show ?case by simp
next
  case (4 env n h r0 rs0)
  show ?case
  proof
    assume run: "processAll env n h (r0 # rs0) = Some (h', rs)"
    then obtain h1 r1 h2 rs2 where
      one: "processData env n h r0 True = Some (h1, r1)" and
      rest: "processAll env n h1 rs0 = Some (h2, rs2)" and
      res: "h' = h2" "rs = r1 # rs2"
      by (auto split: option.splits)
    from "4.IH"(1) [of h1 r1] one
    have a1: "length h \<le> length h1" "take (length h) h1 = h" by auto
    from "4.IH"(2) [OF one refl] rest
    have a2: "length h1 \<le> length h2" "take (length h1) h2 = h1" by auto
    have "take (length h) h2 = take (length h) (take (length h1) h2)"
      using a1(1) by (simp add: min_def)
    with a1 a2 res show "length h \<le> length h' \<and> take (length h) h' = h" by simp
  qed
qed

lemma processAll_returns:
  "\<forall>r \<in> set refs. r < length h \<and> (\<exists>kvs. h ! r = HDict kvs)
   \<Longrightarrow> \<exists>h' rs. processAll env (Suc n) h refs = Some (h', rs)"
proof (induction refs arbitrary: h)
  case Nil
  then show ?case by simp
next
  case (Cons r0 refs)
  from Cons.prems obtain kvs where r0: "r0 < length h" "h ! r0 = HDict kvs" by auto
  obtain h1 r1 where one: "processData env (Suc n) h r0 True = Some (h1, r1)"
    using r0 by (cases "processDict env h kvs True") simp
  from processData_frame(1) [of env "Suc n" h r0 True h1 r1] one
  have fr: "length h \<le> length h1" "take (length h) h1 = h" by auto
  have "\<forall>r \<in> set refs. r < length h1 \<and> (\<exists>kvs. h1 ! r = HDict kvs)"
  proof
    fix r assume "r \<in> set refs"
    with Cons.prems obtain kv where r: "r < length h" "h ! r = HDict kv" by auto
    have "h1 ! r = take (length h) h1 ! r" using r(1) by simp
    with fr r show "r < length h1 \<and> (\<exists>kvs. h1 ! r = HDict kvs)" by simp
  qed
  from Cons.IH [OF this] obtain h2 rs2 where "processAll env (Suc n) h1 refs = Some (h2, rs2)"
    by blast
  with one show ?case by simp
qed

text \<open>
  C10. For a dictionary, or an array of dictionaries, \<open>processData\<close> returns; the object
  it returns is a new one (its address is past every address of the store it was given),
  and every object of the given store, the argument included, is afterwards what it was
  before: no key of the input is renamed, deleted or replaced.
\<close>

theorem processData_leaves_argument:
  assumes "a < length h"
    and "(\<exists>kvs. h ! a = HDict kvs)
         \<or> (\<exists>refs. h ! a = HArr refs \<and> (\<forall>r \<in> set refs. r < length h \<and> (\<exists>kvs. h ! r = HDict kvs)))"
  shows "\<exists>h' r. processData env (Suc (Suc n)) h a multi = Some (h', r)
           \<and> length h \<le> r \<and> r < length h' \<and> take (length h) h' = h"
proof -
  have "\<exists>h' r. processData env (Suc (Suc n)) h a multi = Some (h', r)"
  proof -
    from assms(2) consider
      (dict) kvs where "h ! a = HDict kvs"
      | (arr) refs where "h ! a = HArr refs"
          "\<forall>r \<in> set refs. r < length h \<and> (\<exists>kvs. h ! r = HDict kvs)"
      by blast
    then show ?thesis
    proof cases
      case dict
      with assms(1) show ?thesis by (cases "processDict env h kvs multi") simp
    next
      case arr
      from processAll_returns [OF arr(2)] obtain h1 rs1 where
        "processAll env (Suc n) h refs = Some (h1, rs1)" by blast
      with assms(1) arr(1) show ?thesis by simp
    qed
  qed
  then obtain h' r where run: "processData env (Suc (Suc n)) h a multi = Some (h', r)" by blast
  with processData_frame(1) [of env "Suc (Suc n)" h a multi h' r] show ?thesis by blast
qed

theorem processData_leaves_argument_witness:
  "(0::nat) < length [HDict [(''fullName'', VStr ''Jon''), (''tags'', VArr [VStr ''a''])]]
   \<and> ((\<exists>kvs. [HDict [(''fullName'', VStr ''Jon''), (''tags'', VArr [VStr ''a''])]] ! 0 = HDict kvs)
       \<or> (\<exists>refs. [HDict [(''fullName'', VStr ''Jon''), (''tags'', VArr [VStr ''a''])]] ! 0 = HArr refs))
   \<and> processData authorDataEnv (Suc (Suc 0))
        [HDict [(''fullName'', VStr ''Jon''), (''tags'', VArr [VStr ''a''])]] 0 False
      = Some ([HDict [(''fullName'', VStr ''Jon''), (''tags'', VArr [VStr ''a''])],
               HDict [(''tags'', VStr ''[json]''), (''full_name'', VStr ''Jon'')]], 1)
   \<and> (\<exists>h' r. processData authorDataEnv (Suc (Suc 0))
        [HDict [(''fullName'', VStr ''Jon''), (''tags'', VArr [VStr ''a''])]] 0 False = Some (h', r)
      \<and> length [HDict [(''fullName'', VStr ''Jon''), (''tags'', VArr [VStr ''a''])]] \<le> r
      \<and> r < length h'
      \<and> take (length [HDict [(''fullName'', VStr ''Jon''), (''tags'', VArr [VStr ''a''])]]) h'
          = [HDict [(''fullName'', VStr ''Jon''), (''tags'', VArr [VStr ''a''])]])"
proof -
  let ?h = "[HDict [(''fullName'', VStr ''Jon''), (''tags'', VArr [VStr ''a''])]]"
  have a: "(0::nat) < length ?h" by simp
  have b: "(\<exists>kvs. ?h ! 0 = HDict kvs)
           \<or> (\<exists>refs. ?h ! 0 = HArr refs \<and> (\<forall>r \<in> set refs. r < length ?h \<and> (\<exists>kvs. ?h ! r = HDict kvs)))"
    by simp
  have c: "processData authorDataEnv (Suc (Suc 0)) ?h 0 False
      = Some ([HDict [(''fullName'', VStr ''Jon''), (''tags'', VArr [VStr ''a''])],
               HDict [(''tags'', VStr ''[json]''), (''full_name'', VStr ''Jon'')]], 1)"
    by code_simp
  from processData_leaves_argument [OF a b, of authorDataEnv 0 False] a b c
  show ?thesis by simp
qed

section \<open>Properties of safe mode\<close>

lemma computeTableDifference_safe_remove:
  "computeTableDifference hp meta table True = Inr d \<Longrightarrow> remove d = []"
  by (auto simp: computeTableDifference_def Let_def split: sum.splits)

lemma createForeignKey_no_column_drop:
  "\<not> list_ex dropsColumn (createForeignKey hp meta p diff)"
  by (simp add: createForeignKey_def Let_def)

lemma createForeignKeys_no_column_drop:
  "\<not> list_ex dropsColumn (createForeignKeys hp meta only)"
  by (simp add: createForeignKeys_def list_ex_iff createForeignKey_def Let_def)

lemma updateTableColumn_no_column_drop:
  "\<not> list_ex dropsColumn (updateTableColumn hp meta u)"
  by (simp add: updateTableColumn_def Let_def createForeignKey_def split: option.splits)

lemma dump_keeps:
  "P s \<Longrightarrow> list_all P (dump s)"
  by (cases s) (auto simp: dump_def split: list.splits)

lemma updateTable_safe:
  assumes "updateTable hp meta table True = Inr bs"
  shows "list_all (\<lambda>s. \<not> dropsTableOrColumn s) bs"
proof -
  from assms obtain d where d: "computeTableDifference hp meta table True = Inr d"
    by (auto simp: updateTable_def split: sum.splits)
  then have rm: "remove d = []" by (rule computeTableDifference_safe_remove)
  have ops: "\<not> list_ex dropsColumn (map (\<lambda>p. CreateColumn p NoAlter) (create d)
                @ concat (map (updateTableColumn hp meta) (update d)))"
    using updateTableColumn_no_column_drop [of hp meta]
    by (auto simp: list_ex_iff)
  from assms d rm ops show ?thesis
    by (auto simp: updateTable_def list_all_iff split: if_splits)
qed

lemma getUpdateTableSQL_safe:
  assumes "getUpdateTableSQL hp meta schema True = Inr out"
  shows "list_all (\<lambda>s. \<not> dropsTableOrColumn s) out"
proof (cases "getTable schema (collection meta)")
  case None
  with assms show ?thesis by (auto simp: getUpdateTableSQL_def dump_def)
next
  case (Some table)
  with assms obtain bs where bs: "updateTable hp meta table True = Inr bs"
    and out: "out = concat (map dump bs)"
    by (auto simp: getUpdateTableSQL_def split: sum.splits)
  from updateTable_safe [OF bs] have "\<forall>s \<in> set bs. \<not> dropsTableOrColumn s"
    by (simp add: list_all_iff)
  then have "\<forall>s \<in> set bs. list_all (\<lambda>s. \<not> dropsTableOrColumn s) (dump s)"
    by (simp add: dump_keeps)
  with out show ?thesis by (auto simp: list_all_iff)
qed

lemma getUpdateTableFKsSQL_no_drop:
  assumes "getUpdateTableFKsSQL hp meta schema = Inr out"
  shows "list_all (\<lambda>s. \<not> dropsTableOrColumn s) out"
proof -
  have "\<And>only. list_all (\<lambda>s. \<not> dropsTableOrColumn s)
                 (dump (AlterTable (collection meta) (createForeignKeys hp meta only)))"
    by (rule dump_keeps) (simp add: createForeignKeys_no_column_drop)
  with assms show ?thesis
    by (auto simp: getUpdateTableFKsSQL_def split: option.splits sum.splits if_splits)
qed

lemma createIndex_no_column_drop:
  "createIndex hp meta d = Inr ops \<Longrightarrow> \<not> list_ex dropsColumn ops"
  by (auto simp: createIndex_def Let_def split: sum.splits if_splits)

lemma concatE_all:
  "concatE rs = Inr out \<Longrightarrow> (\<And>r xs. r \<in> set rs \<Longrightarrow> r = Inr xs \<Longrightarrow> list_all P xs)
   \<Longrightarrow> list_all P out"
proof (induction rs arbitrary: out)
  case Nil
  then show ?case by simp
next
  case (Cons r rs)
  from Cons.prems(1) obtain xs ys where r: "r = Inr xs" and rest: "concatE rs = Inr ys"
    and out: "out = xs @ ys"
    by (auto split: sum.splits)
  from Cons.prems(2) [of r xs] r have "list_all P xs" by simp
  moreover from Cons.IH [OF rest] Cons.prems(2) have "list_all P ys" by simp
  ultimately show ?case using out by simp
qed

lemma indexStatement_no_column_drop:
  "list_all (\<lambda>s. \<not> dropsTableOrColumn s) (indexStatement meta dropping i)"
  unfolding indexStatement_def by (rule dump_keeps) simp

lemma getUpdateTableIndexesSQL_no_drop:
  assumes "getUpdateTableIndexesSQL hp meta schema = Inr out"
  shows "list_all (\<lambda>s. \<not> dropsTableOrColumn s) out"
proof (cases "getTable schema (collection meta)")
  case None
  with assms obtain ops where ops: "concatE (map (createIndex hp meta) (declaredIndexes meta)) = Inr ops"
    and out: "out = dump (AlterTable (collection meta) ops)"
    by (auto simp: getUpdateTableIndexesSQL_def split: sum.splits)
  have "list_all (\<lambda>op. \<not> dropsColumn op) ops"
    using ops
  proof (rule concatE_all)
    fix r xs assume "r \<in> set (map (createIndex hp meta) (declaredIndexes meta))" "r = Inr xs"
    then show "list_all (\<lambda>op. \<not> dropsColumn op) xs"
      using createIndex_no_column_drop [of hp meta _ xs] by (auto simp: list_all_iff list_ex_iff)
  qed
  then have "\<not> dropsTableOrColumn (AlterTable (collection meta) ops)"
    by (simp add: list_all_iff list_ex_iff)
  with out show ?thesis by (simp add: dump_keeps)
next
  case (Some table)
  with assms show ?thesis
    using indexStatement_no_column_drop [of meta]
    by (auto simp: getUpdateTableIndexesSQL_def list_all_iff split: sum.splits)
qed

text \<open>
  C2, as the code has it. With safe mode on, \<open>computeTableDifference\<close> returns an empty
  remove list, and no statement of \<open>getUpdateSchemaSQL\<close> drops a table or a column.
  (Indexes, unique constraints and foreign keys are still dropped in safe mode.)
\<close>

theorem safe_mode_no_table_or_column_drop:
  "(computeTableDifference hp meta table True = Inr d \<longrightarrow> remove d = [])
   \<and> (getUpdateSchemaSQL hp ordered schema wrap True dropTables = Inr out
        \<longrightarrow> list_all (\<lambda>s. \<not> dropsTableOrColumn s) out)"
proof
  show "computeTableDifference hp meta table True = Inr d \<longrightarrow> remove d = []"
    by (simp add: computeTableDifference_safe_remove)
next
  show "getUpdateSchemaSQL hp ordered schema wrap True dropTables = Inr out
        \<longrightarrow> list_all (\<lambda>s. \<not> dropsTableOrColumn s) out"
  proof
    assume run: "getUpdateSchemaSQL hp ordered schema wrap True dropTables = Inr out"
    let ?rs = "map (\<lambda>meta. getUpdateTableSQL hp meta schema True) ordered
               @ map (\<lambda>meta. getUpdateTableFKsSQL hp meta schema) ordered
               @ map (\<lambda>meta. getUpdateTableIndexesSQL hp meta schema) ordered"
    from run obtain ret where ret: "concatE ?rs = Inr ret" and out: "out = wrapSchema hp ret wrap"
      by (auto simp: getUpdateSchemaSQL_def split: sum.splits)
    have "list_all (\<lambda>s. \<not> dropsTableOrColumn s) ret"
      using ret
    proof (rule concatE_all)
      fix r xs assume "r \<in> set ?rs" "r = Inr xs"
      then show "list_all (\<lambda>s. \<not> dropsTableOrColumn s) xs"
        using getUpdateTableSQL_safe getUpdateTableFKsSQL_no_drop getUpdateTableIndexesSQL_no_drop
        by auto
    qed
    with out show "list_all (\<lambda>s. \<not> dropsTableOrColumn s) out"
      by (simp add: wrapSchema_def)
  qed
qed

theorem safe_mode_no_table_or_column_drop_witness:
  "computeTableDifference plainHelper bookMeta bookTableOld True
     = Inr \<lparr> create = [], update = [],
             rename = [(plainColumn ''name'' ''varchar'', titleProperty)],
             remove = [], addIndex = [], dropIndex = [] \<rparr>
   \<and> remove \<lparr> create = [], update = [],
             rename = [(plainColumn ''name'' ''varchar'', titleProperty)],
             remove = [], addIndex = [], dropIndex = [] \<rparr> = []
   \<and> getUpdateSchemaSQL plainHelper [bookMeta] [bookTableOld, legacyTable] False True True
     = Inr [RenameColumn ''book'' (plainColumn ''name'' ''varchar'') titleProperty]
   \<and> list_all (\<lambda>s. \<not> dropsTableOrColumn s)
        [RenameColumn ''book'' (plainColumn ''name'' ''varchar'') titleProperty]"
proof -
  have a: "computeTableDifference plainHelper bookMeta bookTableOld True
     = Inr \<lparr> create = [], update = [],
             rename = [(plainColumn ''name'' ''varchar'', titleProperty)],
             remove = [], addIndex = [], dropIndex = [] \<rparr>"
    by code_simp
  have b: "getUpdateSchemaSQL plainHelper [bookMeta] [bookTableOld, legacyTable] False True True
     = Inr [RenameColumn ''book'' (plainColumn ''name'' ''varchar'') titleProperty]"
    by code_simp
  from safe_mode_no_table_or_column_drop [of plainHelper bookMeta bookTableOld
      "\<lparr> create = [], update = [], rename = [(plainColumn ''name'' ''varchar'', titleProperty)],
         remove = [], addIndex = [], dropIndex = [] \<rparr>"
      "[bookMeta]" "[bookTableOld, legacyTable]" False True
      "[RenameColumn ''book'' (plainColumn ''name'' ''varchar'') titleProperty]"] a b
  show ?thesis by simp
qed

text \<open>The claim as stated fails: in safe mode the update of a table whose live index the
  metadata does not declare drops that index.\<close>

theorem safe_mode_counterexample:
  "getUpdateSchemaSQL plainHelper [bookMeta] [bookTableIndexed, legacyTable] False True True
     = Inr [AlterTable ''book'' [DropIndexOp [''title''] (Some ''title_custom'')]]
   \<and> dropsAnything (AlterTable ''book'' [DropIndexOp [''title''] (Some ''title_custom'')])"
  by code_simp

section \<open>Properties of rename detection\<close>


















section \<open>Properties of join-column derivation\<close>

lemma primaryKeyFieldNames_resolved:
  assumes "\<forall>pk \<in> set pks. \<exists>q. map_of (EntityMetadata.properties meta2) pk = Some q"
  shows "primaryKeyFieldNames meta2 pks =
     Inr (concat (map (\<lambda>pk. case map_of (EntityMetadata.properties meta2) pk of
                              Some q \<Rightarrow> fieldNamesOf q | None \<Rightarrow> []) pks))"
  using assms by (induction pks) auto

lemma initPrimaryKeyNames_resolved:
  assumes "findMeta st target = Some meta2"
    and "\<forall>pk \<in> set pks. \<exists>q f fs. map_of (EntityMetadata.properties meta2) pk = Some q
           \<and> fieldNames q = Some (f # fs)"
  shows "initPrimaryKeyNames ns (Suc n) st target nm pks =
     Some (Inr (st, map (\<lambda>fieldName. joinKeyColumnName ns nm fieldName (compositePK meta2))
        (concat (map (\<lambda>pk. case map_of (EntityMetadata.properties meta2) pk of
                              Some q \<Rightarrow> fieldNamesOf q | None \<Rightarrow> []) pks))))"
  using assms(2)
proof (induction pks)
  case Nil
  then show ?case by simp
next
  case (Cons pk pks)
  from Cons.prems obtain q f fs where
    q: "map_of (EntityMetadata.properties meta2) pk = Some q" "fieldNames q = Some (f # fs)"
    by auto
  with assms(1) have look: "lookupProperty st target pk = Some q"
    by (simp add: lookupProperty_def)
  with q have init: "initFieldName ns (Suc n) st target pk = Some (Inr st)"
    by (simp add: hasFieldNames_def)
  from Cons.IH Cons.prems have rest: "initPrimaryKeyNames ns (Suc n) st target nm pks =
     Some (Inr (st, map (\<lambda>fieldName. joinKeyColumnName ns nm fieldName (compositePK meta2))
        (concat (map (\<lambda>pk. case map_of (EntityMetadata.properties meta2) pk of
                              Some q \<Rightarrow> fieldNamesOf q | None \<Rightarrow> []) pks))))"
    by simp
  show ?case
    using init look q rest assms(1)
    by (simp add: joinKeyNames_def fieldNamesOf_def)
qed

text \<open>
  C7. Let the relation property \<open>p\<close> target an entity of the storage whose primary keys
  are properties with their field names set (they are, after resolution), and let \<open>p\<close>
  carry no explicit join columns. Then \<open>initManyToOneFields\<close> derives the join columns as
  one join-key name per primary-key field component of the target, in primary-key order,
  so their number is the number of components; and \<open>initManyToOneFieldName\<close> returns, for
  any fuel, and derives the field names in the same way.
\<close>

theorem join_columns_follow_primary_key:
  assumes "findMeta st (EntityProperty.type p) = Some meta2"
    and "\<forall>pk \<in> set (primaryKeys meta2). \<exists>q f fs.
           map_of (EntityMetadata.properties meta2) pk = Some q \<and> fieldNames q = Some (f # fs)"
    and "joinColumns p = None"
  shows "(\<exists>p'. initManyToOneFields ns st p = Inr p'
            \<and> joinColumns p' = Some (map (\<lambda>fieldName. joinKeyColumnName ns (EntityProperty.name p)
                   fieldName (length (primaryKeyComponents meta2) > 1)) (primaryKeyComponents meta2))
            \<and> length (joinColumnsOf p') = length (primaryKeyComponents meta2))
       \<and> initManyToOneFieldName ns (Suc n) st (EntityProperty.type p) nm =
           Some (Inr (st, map (\<lambda>fieldName. joinKeyColumnName ns nm fieldName (compositePK meta2))
                            (primaryKeyComponents meta2)))"
proof
  have "\<forall>pk \<in> set (primaryKeys meta2). \<exists>q. map_of (EntityMetadata.properties meta2) pk = Some q"
    using assms(2) by blast
  from primaryKeyFieldNames_resolved [OF this]
  have "primaryKeyFieldNames meta2 (primaryKeys meta2) = Inr (primaryKeyComponents meta2)"
    by (simp add: primaryKeyComponents_def)
  with assms(1,3)
  show "\<exists>p'. initManyToOneFields ns st p = Inr p'
            \<and> joinColumns p' = Some (map (\<lambda>fieldName. joinKeyColumnName ns (EntityProperty.name p)
                   fieldName (length (primaryKeyComponents meta2) > 1)) (primaryKeyComponents meta2))
            \<and> length (joinColumnsOf p') = length (primaryKeyComponents meta2)"
    by (simp add: initManyToOneFields_def joinColumnsOf_def)
next
  from initPrimaryKeyNames_resolved [OF assms(1,2), of ns n nm] assms(1)
  show "initManyToOneFieldName ns (Suc n) st (EntityProperty.type p) nm =
           Some (Inr (st, map (\<lambda>fieldName. joinKeyColumnName ns nm fieldName (compositePK meta2))
                            (primaryKeyComponents meta2)))"
    by (simp add: primaryKeyComponents_def)
qed

theorem join_columns_follow_primary_key_witness:
  "findMeta [(''Line'', lineMeta)] (EntityProperty.type lineReference) = Some lineMeta
   \<and> list_all (\<lambda>pk. case map_of (EntityMetadata.properties lineMeta) pk of
                      Some q \<Rightarrow> (case fieldNames q of Some (f # fs) \<Rightarrow> True | _ \<Rightarrow> False)
                    | None \<Rightarrow> False) (primaryKeys lineMeta)
   \<and> joinColumns lineReference = None
   \<and> primaryKeyComponents lineMeta = [''order_no'', ''pos'']
   \<and> (\<exists>p'. initManyToOneFields underscoreNames [(''Line'', lineMeta)] lineReference = Inr p'
          \<and> joinColumns p' = Some [''line_order_no'', ''line_pos'']
          \<and> length (joinColumnsOf p') = 2)
   \<and> initManyToOneFieldName underscoreNames (Suc 0) [(''Line'', lineMeta)] ''Line'' ''line''
       = Some (Inr ([(''Line'', lineMeta)], [''line_order_no'', ''line_pos'']))"
proof -
  have a1: "findMeta [(''Line'', lineMeta)] (EntityProperty.type lineReference) = Some lineMeta"
    by (simp add: findMeta_def lineReference_def)
  have a2': "list_all (\<lambda>pk. case map_of (EntityMetadata.properties lineMeta) pk of
                      Some q \<Rightarrow> (case fieldNames q of Some (f # fs) \<Rightarrow> True | _ \<Rightarrow> False)
                    | None \<Rightarrow> False) (primaryKeys lineMeta)"
    by code_simp
  have a2: "\<forall>pk \<in> set (primaryKeys lineMeta). \<exists>q f fs.
           map_of (EntityMetadata.properties lineMeta) pk = Some q \<and> fieldNames q = Some (f # fs)"
    by (simp add: lineMeta_def blankMeta_def blankProperty_def)
  have a3: "joinColumns lineReference = None"
    by (simp add: lineReference_def blankProperty_def)
  have c: "primaryKeyComponents lineMeta = [''order_no'', ''pos'']" by code_simp
  have nm: "EntityProperty.name lineReference = ''line''" "EntityProperty.type lineReference = ''Line''"
    by (simp_all add: lineReference_def)
  have cp: "compositePK lineMeta" by (simp add: lineMeta_def)
  from join_columns_follow_primary_key [OF a1 a2 a3, of underscoreNames 0 "''line''"]
    a1 a2' a3 c nm cp
  show ?thesis by (simp add: underscoreNames_def numeral_2_eq_2 del: initManyToOneFieldName.simps)
qed

section \<open>Properties of single-table inheritance\<close>

lemma map_of_replace:
  "map_of (map (\<lambda>(k', p'). if k' = k then (k', p) else (k', p')) qs) k'
     = (if k' = k then map_option (\<lambda>x. p) (map_of qs k) else map_of qs k')"
  by (induction qs) auto

lemma map_of_setProperty:
  "map_of (setProperty ps k p) k' = (if k' = k then Some p else map_of ps k')"
proof (cases "k \<in> set (map fst ps)")
  case False
  then have "map_of ps k = None" by (simp add: map_of_eq_None_iff)
  with False show ?thesis
    by (simp add: setProperty_def map_add_def split: option.splits)
next
  case True
  then have "map_of ps k \<noteq> None" by (simp add: map_of_eq_None_iff)
  with True show ?thesis by (auto simp: setProperty_def map_of_replace)
qed

lemma keys_setProperty:
  "set (map fst (setProperty ps k p)) = insert k (set (map fst ps))"
  by (auto simp: setProperty_def split: if_splits) force+

lemma findMeta_updateMeta:
  "findMeta (updateMeta st e g) e' = (if e' = e then map_option g (findMeta st e) else findMeta st e')"
  by (induction st) (auto simp: findMeta_def updateMeta_def)

lemma copyToRoot_eq:
  "copyToRoot p rp = setProperty rp (EntityProperty.name p) (copied rp p)"
  by (simp add: copyToRoot_def copied_def Let_def)

text \<open>The copying loop over any list of properties: the names grow, a name that the list
  lacks keeps its property, and a name of the list ends with the copy of the last property
  of that name.\<close>

lemma fold_copyToRoot_keys:
  "set (map fst (fold copyToRoot qs rp)) = set (map fst rp) \<union> EntityProperty.name ` set qs"
proof (induction qs arbitrary: rp)
  case Nil
  then show ?case by simp
next
  case (Cons q qs)
  have "set (map fst (copyToRoot q rp)) = insert (EntityProperty.name q) (set (map fst rp))"
    by (simp only: copyToRoot_eq keys_setProperty)
  with Cons.IH [of "copyToRoot q rp"] show ?case by auto
qed

lemma fold_copyToRoot_frame:
  "k \<notin> EntityProperty.name ` set qs \<Longrightarrow> map_of (fold copyToRoot qs rp) k = map_of rp k"
proof (induction qs arbitrary: rp)
  case Nil
  then show ?case by simp
next
  case (Cons q qs)
  from Cons.prems have "k \<noteq> EntityProperty.name q" "k \<notin> EntityProperty.name ` set qs" by auto
  with Cons.IH [of "copyToRoot q rp"] show ?case
    by (simp add: copyToRoot_eq map_of_setProperty)
qed

lemma fold_copyToRoot_last:
  assumes "EntityProperty.name p \<notin> EntityProperty.name ` set bs"
  shows "map_of (fold copyToRoot (as @ p # bs) rp) (EntityProperty.name p)
    = Some (p \<lparr> EntityProperty.nullable := True,
                inherited := (if map_of rp (EntityProperty.name p) = None
                                 \<and> EntityProperty.name p \<notin> EntityProperty.name ` set as
                              then True else inherited p) \<rparr>)"
proof -
  let ?rp = "fold copyToRoot as rp"
  have "map_of (fold copyToRoot (as @ p # bs) rp) (EntityProperty.name p)
      = map_of (copyToRoot p ?rp) (EntityProperty.name p)"
    using fold_copyToRoot_frame [OF assms, of "copyToRoot p ?rp"] by simp
  also have "\<dots> = Some (copied ?rp p)"
    by (simp add: copyToRoot_eq map_of_setProperty)
  finally have at: "map_of (fold copyToRoot (as @ p # bs) rp) (EntityProperty.name p)
      = Some (copied ?rp p)" .
  have "(map_of ?rp (EntityProperty.name p) = None)
      = (EntityProperty.name p \<notin> set (map fst ?rp))"
    by (simp add: map_of_eq_None_iff)
  also have "\<dots> = (map_of rp (EntityProperty.name p) = None
      \<and> EntityProperty.name p \<notin> EntityProperty.name ` set as)"
    unfolding fold_copyToRoot_keys map_of_eq_None_iff by simp
  finally show ?thesis unfolding at by (simp add: copied_def)
qed

text \<open>One call of \<open>initSingleTableInheritance\<close>, seen from a root \<open>r\<close>.\<close>

lemma init_other_root:
  assumes "rootOf e \<noteq> r" and "rootOf r = r"
  shows "findMeta (initSingleTableInheritance ns rootOf s e) r = findMeta s r"
proof -
  from assms have "e \<noteq> r" by auto
  with assms(1) show ?thesis
    by (auto simp: initSingleTableInheritance_def Let_def findMeta_updateMeta
        split: option.splits list.splits)
qed

lemma init_keeps_entries:
  "(findMeta (initSingleTableInheritance ns rootOf s e) e' = None) = (findMeta s e' = None)"
  by (auto simp: initSingleTableInheritance_def Let_def findMeta_updateMeta
      split: option.splits list.splits)

lemma init_keeps_subclass:
  assumes "rootOf (rootOf e) = rootOf e" and "rootOf e' \<noteq> e'"
  shows "map_option props (findMeta (initSingleTableInheritance ns rootOf s e) e')
    = map_option props (findMeta s e')"
proof -
  from assms have "e' \<noteq> rootOf e" by auto
  then show ?thesis
    by (auto simp: initSingleTableInheritance_def Let_def findMeta_updateMeta props_def
        split: option.splits list.splits)
qed

lemma init_same_root:
  assumes "rootOf e = r" and "rootOf r = r"
    and "findMeta s r = Some rt" and "discriminatorColumn rt = Some (c # cs)"
    and "findMeta s e = Some m"
  shows "\<exists>rt'. findMeta (initSingleTableInheritance ns rootOf s e) r = Some rt'
    \<and> discriminatorColumn rt' = Some (c # cs)
    \<and> EntityMetadata.properties rt'
        = fold copyToRoot (if e = r then [] else props m) (rootPropertiesBefore ns rt (c # cs))"
  using assms
  by (auto simp: initSingleTableInheritance_def Let_def findMeta_updateMeta
      rootPropertiesBefore_def)

lemma rootPropertiesBefore_keys:
  "dc \<in> set (map fst (rootPropertiesBefore ns rt dc))"
proof (cases "map_of (EntityMetadata.properties rt) dc = None")
  case True
  then have "rootPropertiesBefore ns rt dc
      = setProperty (EntityMetadata.properties rt) dc (createDiscriminatorProperty ns dc)"
    by (simp add: rootPropertiesBefore_def)
  then show ?thesis by (simp only: keys_setProperty insertI1)
next
  case False
  then have "dc \<in> fst ` set (EntityMetadata.properties rt)"
    unfolding map_of_eq_None_iff by simp
  moreover from False have "rootPropertiesBefore ns rt dc = EntityMetadata.properties rt"
    by (auto simp: rootPropertiesBefore_def)
  ultimately show ?thesis by simp
qed

lemma rootPropertiesBefore_present:
  "map_of (EntityMetadata.properties rt) dc \<noteq> None
     \<Longrightarrow> rootPropertiesBefore ns rt dc = EntityMetadata.properties rt"
  by (auto simp: rootPropertiesBefore_def)

lemma subclassProperties_Cons:
  "subclassProperties rootOf s r (e # es)
     = (if rootOf e = r \<and> e \<noteq> r
        then (case findMeta s e of Some m \<Rightarrow> props m | None \<Rightarrow> []) else [])
       @ subclassProperties rootOf s r es"
  by (simp add: subclassProperties_def)

lemma subclassProperties_init:
  assumes "\<forall>e. rootOf (rootOf e) = rootOf e"
  shows "subclassProperties rootOf (initSingleTableInheritance ns rootOf s e) r es
    = subclassProperties rootOf s r es"
proof -
  have "(case findMeta (initSingleTableInheritance ns rootOf s e) e' of
           Some m \<Rightarrow> props m | None \<Rightarrow> [])
      = (case findMeta s e' of Some m \<Rightarrow> props m | None \<Rightarrow> [])"
    if "rootOf e' = r \<and> e' \<noteq> r" for e'
  proof -
    from that have "rootOf e' \<noteq> e'" by auto
    with assms have "map_option props (findMeta (initSingleTableInheritance ns rootOf s e) e')
        = map_option props (findMeta s e')"
      by (simp add: init_keeps_subclass)
    then show ?thesis by (auto split: option.splits)
  qed
  then show ?thesis
    unfolding subclassProperties_def by (intro arg_cong [of _ _ concat] map_cong) auto
qed

lemma discoverInheritance_root:
  assumes "\<forall>e. rootOf (rootOf e) = rootOf e" and "rootOf r = r"
  shows "findMeta s r = Some rt \<Longrightarrow> discriminatorColumn rt = Some (c # cs) \<Longrightarrow>
     map_of (EntityMetadata.properties rt) (c # cs) \<noteq> None
       \<or> (\<exists>e \<in> set order. rootOf e = r \<and> findMeta s e \<noteq> None) \<Longrightarrow>
     \<exists>rt'. findMeta (discoverInheritance ns rootOf s order) r = Some rt'
       \<and> EntityMetadata.properties rt'
           = fold copyToRoot (subclassProperties rootOf s r order)
               (rootPropertiesBefore ns rt (c # cs))"
proof (induction order arbitrary: s rt)
  case Nil
  then show ?case
    by (simp add: discoverInheritance_def subclassProperties_def rootPropertiesBefore_present)
next
  case (Cons e es)
  let ?s = "initSingleTableInheritance ns rootOf s e"
  have unfold: "discoverInheritance ns rootOf s (e # es) = discoverInheritance ns rootOf ?s es"
    by (simp add: discoverInheritance_def)
  have subs: "subclassProperties rootOf ?s r es = subclassProperties rootOf s r es"
    using assms(1) by (rule subclassProperties_init)
  show ?case
  proof (cases "rootOf e = r \<and> findMeta s e \<noteq> None")
    case False
    have same: "findMeta ?s r = Some rt"
    proof (cases "rootOf e = r")
      case True
      with False have "findMeta s e = None" by simp
      then have "?s = s" by (simp add: initSingleTableInheritance_def)
      with Cons.prems(1) show ?thesis by simp
    next
      case False
      from init_other_root [OF False assms(2)] Cons.prems(1) show ?thesis by simp
    qed
    have next_ok: "map_of (EntityMetadata.properties rt) (c # cs) \<noteq> None
        \<or> (\<exists>e' \<in> set es. rootOf e' = r \<and> findMeta ?s e' \<noteq> None)"
      using Cons.prems(3) False by (auto simp: init_keeps_entries)
    have head: "subclassProperties rootOf s r (e # es) = subclassProperties rootOf s r es"
      using False by (auto simp: subclassProperties_Cons split: option.splits)
    from Cons.IH [OF same Cons.prems(2) next_ok] show ?thesis
      unfolding unfold subs head .
  next
    case True
    then obtain m where m: "findMeta s e = Some m" and re: "rootOf e = r" by auto
    let ?own = "if e = r then [] else props m"
    from init_same_root [OF re assms(2) Cons.prems(1,2) m, of ns]
    obtain rt1 where rt1: "findMeta ?s r = Some rt1"
      "discriminatorColumn rt1 = Some (c # cs)"
      "EntityMetadata.properties rt1
         = fold copyToRoot ?own (rootPropertiesBefore ns rt (c # cs))"
      by blast
    have "c # cs \<in> set (map fst (EntityMetadata.properties rt1))"
      unfolding rt1(3) fold_copyToRoot_keys using rootPropertiesBefore_keys by blast
    then have present: "map_of (EntityMetadata.properties rt1) (c # cs) \<noteq> None"
      by (simp add: map_of_eq_None_iff)
    then have before1: "rootPropertiesBefore ns rt1 (c # cs) = EntityMetadata.properties rt1"
      by (rule rootPropertiesBefore_present)
    have head: "subclassProperties rootOf s r (e # es)
        = ?own @ subclassProperties rootOf s r es"
      using re m by (simp add: subclassProperties_Cons)
    from Cons.IH [OF rt1(1,2)] present
    obtain rt' where "findMeta (discoverInheritance ns rootOf ?s es) r = Some rt'"
      "EntityMetadata.properties rt'
         = fold copyToRoot (subclassProperties rootOf ?s r es)
             (rootPropertiesBefore ns rt1 (c # cs))"
      by blast
    then show ?thesis
      unfolding unfold subs head before1 rt1(3) by simp
  qed
qed

text \<open>
  C8, as the code has it. Take a single-table-inheritance hierarchy whose root \<open>r\<close> has a
  discriminator column and is one of the discovered entities (the root of a root being
  the root itself). After \<open>discover\<close> has called \<open>initSingleTableInheritance\<close> for every
  discovered entity, the property names of the root are the names it had (with the
  discriminator property) and the names of all properties of its subclasses; a root
  property whose name no subclass declares is unchanged; under a name that subclasses
  declare, the root holds the copy of the property of the last subclass met that declares
  it. That copy is nullable, whether or not the root declared the name itself, and it is
  tagged \<open>inherited\<close> when neither the root nor a subclass met earlier had a property of
  that name; otherwise it keeps the tag of the subclass property.
\<close>

theorem sti_root_accumulates:
  assumes "\<forall>e. rootOf (rootOf e) = rootOf e"
    and "rootOf r = r"
    and "r \<in> set order"
    and "findMeta st r = Some root0"
    and "discriminatorColumn root0 = Some (c # cs)"
  shows "\<exists>root'. findMeta (discoverInheritance ns rootOf st order) r = Some root'
     \<and> set (map fst (EntityMetadata.properties root'))
         = set (map fst (rootPropertiesBefore ns root0 (c # cs)))
           \<union> EntityProperty.name ` set (subclassProperties rootOf st r order)
     \<and> (\<forall>k. k \<notin> EntityProperty.name ` set (subclassProperties rootOf st r order) \<longrightarrow>
           map_of (EntityMetadata.properties root') k
             = map_of (rootPropertiesBefore ns root0 (c # cs)) k)
     \<and> (\<forall>as p bs. subclassProperties rootOf st r order = as @ p # bs
             \<and> EntityProperty.name p \<notin> EntityProperty.name ` set bs \<longrightarrow>
           map_of (EntityMetadata.properties root') (EntityProperty.name p)
             = Some (p \<lparr> EntityProperty.nullable := True,
                         inherited :=
                           (if map_of (rootPropertiesBefore ns root0 (c # cs))
                                 (EntityProperty.name p) = None
                               \<and> EntityProperty.name p \<notin> EntityProperty.name ` set as
                            then True else inherited p) \<rparr>))"
proof -
  from assms(2,3,4) have "\<exists>e \<in> set order. rootOf e = r \<and> findMeta st e \<noteq> None" by auto
  then have "map_of (EntityMetadata.properties root0) (c # cs) \<noteq> None
      \<or> (\<exists>e \<in> set order. rootOf e = r \<and> findMeta st e \<noteq> None)" ..
  from discoverInheritance_root [OF assms(1,2,4,5) this, of ns]
  obtain root' where
    r: "findMeta (discoverInheritance ns rootOf st order) r = Some root'"
    and p: "EntityMetadata.properties root'
          = fold copyToRoot (subclassProperties rootOf st r order)
              (rootPropertiesBefore ns root0 (c # cs))"
    by blast
  have keys: "set (map fst (EntityMetadata.properties root'))
         = set (map fst (rootPropertiesBefore ns root0 (c # cs)))
           \<union> EntityProperty.name ` set (subclassProperties rootOf st r order)"
    unfolding p by (rule fold_copyToRoot_keys)
  have frame: "\<forall>k. k \<notin> EntityProperty.name ` set (subclassProperties rootOf st r order) \<longrightarrow>
           map_of (EntityMetadata.properties root') k
             = map_of (rootPropertiesBefore ns root0 (c # cs)) k"
    unfolding p by (simp add: fold_copyToRoot_frame)
  have last: "\<forall>as p bs. subclassProperties rootOf st r order = as @ p # bs
             \<and> EntityProperty.name p \<notin> EntityProperty.name ` set bs \<longrightarrow>
           map_of (EntityMetadata.properties root') (EntityProperty.name p)
             = Some (p \<lparr> EntityProperty.nullable := True,
                         inherited :=
                           (if map_of (rootPropertiesBefore ns root0 (c # cs))
                                 (EntityProperty.name p) = None
                               \<and> EntityProperty.name p \<notin> EntityProperty.name ` set as
                            then True else inherited p) \<rparr>)"
  proof (intro allI impI)
    fix as q bs
    assume h: "subclassProperties rootOf st r order = as @ q # bs
        \<and> EntityProperty.name q \<notin> EntityProperty.name ` set bs"
    then have eq: "subclassProperties rootOf st r order = as @ q # bs"
      and fresh: "EntityProperty.name q \<notin> EntityProperty.name ` set bs" by simp_all
    show "map_of (EntityMetadata.properties root') (EntityProperty.name q)
        = Some (q \<lparr> EntityProperty.nullable := True,
                    inherited :=
                      (if map_of (rootPropertiesBefore ns root0 (c # cs))
                            (EntityProperty.name q) = None
                          \<and> EntityProperty.name q \<notin> EntityProperty.name ` set as
                       then True else inherited q) \<rparr>)"
      unfolding p eq by (rule fold_copyToRoot_last [OF fresh])
  qed
  from r keys frame last show ?thesis by blast
qed

theorem sti_root_accumulates_witness:
  "(\<forall>e. (\<lambda>c. ''Person'') ((\<lambda>c. ''Person'') e) = (\<lambda>c. ''Person'') e)
   \<and> (\<lambda>c. ''Person'') ''Person'' = ''Person''
   \<and> ''Person'' \<in> set [''Person'', ''Employee'', ''Manager'']
   \<and> findMeta teamStorage ''Person'' = Some personMeta
   \<and> discriminatorColumn personMeta = Some ''kind''
   \<and> subclassProperties (\<lambda>c. ''Person'') teamStorage ''Person'' [''Person'', ''Employee'', ''Manager'']
       = [nameProperty, salaryProperty] @ managerSalary # [levelProperty]
   \<and> (\<exists>root'. findMeta (discoverInheritance underscoreNames (\<lambda>c. ''Person'') teamStorage
                  [''Person'', ''Employee'', ''Manager'']) ''Person'' = Some root'
        \<and> set (map fst (EntityMetadata.properties root'))
            = {''kind'', ''name'', ''salary'', ''level''}
        \<and> map_of (EntityMetadata.properties root') ''kind''
            = map_of (EntityMetadata.properties personMeta) ''kind''
        \<and> map_of (EntityMetadata.properties root') ''name''
            = Some (nameProperty \<lparr> EntityProperty.nullable := True, inherited := False \<rparr>)
        \<and> map_of (EntityMetadata.properties root') ''salary''
            = Some (managerSalary \<lparr> EntityProperty.nullable := True, inherited := False \<rparr>)
        \<and> map_of (EntityMetadata.properties root') ''level''
            = Some (levelProperty \<lparr> EntityProperty.nullable := True, inherited := True \<rparr>))"
proof -
  let ?rootOf = "\<lambda>c :: string. ''Person''"
  let ?order = "[''Person'', ''Employee'', ''Manager'']"
  have a1: "\<forall>e. ?rootOf (?rootOf e) = ?rootOf e" by simp
  have a2: "?rootOf ''Person'' = ''Person''" by simp
  have a3: "''Person'' \<in> set ?order" by simp
  have a4: "findMeta teamStorage ''Person'' = Some personMeta" by code_simp
  have a5: "discriminatorColumn personMeta = Some (CHR ''k'' # ''ind'')" by code_simp
  have subs: "subclassProperties ?rootOf teamStorage ''Person'' ?order
      = [nameProperty, salaryProperty, managerSalary, levelProperty]"
    by (simp add: subclassProperties_def findMeta_def teamStorage_def props_def
        employeeMeta_def managerMeta_def)
  have before: "rootPropertiesBefore underscoreNames personMeta ''kind''
      = EntityMetadata.properties personMeta"
    by code_simp
  have nm: "EntityProperty.name nameProperty = ''name''"
    "EntityProperty.name salaryProperty = ''salary''"
    "EntityProperty.name managerSalary = ''salary''"
    "EntityProperty.name levelProperty = ''level''"
    "inherited nameProperty = False" "inherited managerSalary = False"
    by (simp_all add: nameProperty_def salaryProperty_def managerSalary_def levelProperty_def
        blankProperty_def)
  have look: "map_of (EntityMetadata.properties personMeta) ''salary'' = None"
    "map_of (EntityMetadata.properties personMeta) ''level'' = None"
    "map_of (EntityMetadata.properties personMeta) ''name'' \<noteq> None"
    "set (map fst (EntityMetadata.properties personMeta)) = {''kind'', ''name''}"
    by (simp_all add: personMeta_def)
  from sti_root_accumulates [where rootOf = ?rootOf and ns = underscoreNames and order = ?order,
      OF a1 a2 a3 a4 a5]
  obtain root' where
    r: "findMeta (discoverInheritance underscoreNames ?rootOf teamStorage ?order) ''Person''
          = Some root'"
    and keys: "set (map fst (EntityMetadata.properties root'))
         = set (map fst (rootPropertiesBefore underscoreNames personMeta ''kind''))
           \<union> EntityProperty.name ` set (subclassProperties ?rootOf teamStorage ''Person'' ?order)"
    and frame: "\<forall>k. k \<notin> EntityProperty.name ` set (subclassProperties ?rootOf teamStorage ''Person'' ?order) \<longrightarrow>
           map_of (EntityMetadata.properties root') k
             = map_of (rootPropertiesBefore underscoreNames personMeta ''kind'') k"
    and last: "\<forall>as p bs. subclassProperties ?rootOf teamStorage ''Person'' ?order = as @ p # bs
             \<and> EntityProperty.name p \<notin> EntityProperty.name ` set bs \<longrightarrow>
           map_of (EntityMetadata.properties root') (EntityProperty.name p)
             = Some (p \<lparr> EntityProperty.nullable := True,
                         inherited :=
                           (if map_of (rootPropertiesBefore underscoreNames personMeta ''kind'')
                                 (EntityProperty.name p) = None
                               \<and> EntityProperty.name p \<notin> EntityProperty.name ` set as
                            then True else inherited p) \<rparr>)"
    by blast
  have k1: "set (map fst (EntityMetadata.properties root')) = {''kind'', ''name'', ''salary'', ''level''}"
    unfolding keys subs before look(4) by (auto simp: nm)
  have k2: "map_of (EntityMetadata.properties root') ''kind''
      = map_of (EntityMetadata.properties personMeta) ''kind''"
    using frame [rule_format, of "''kind''"] unfolding subs before by (simp add: nm)
  have k3: "map_of (EntityMetadata.properties root') ''name''
      = Some (nameProperty \<lparr> EntityProperty.nullable := True, inherited := False \<rparr>)"
    using last [rule_format, of "[]" nameProperty "[salaryProperty, managerSalary, levelProperty]"]
    unfolding subs before by (simp add: nm look)
  have k4: "map_of (EntityMetadata.properties root') ''salary''
      = Some (managerSalary \<lparr> EntityProperty.nullable := True, inherited := False \<rparr>)"
    using last [rule_format, of "[nameProperty, salaryProperty]" managerSalary "[levelProperty]"]
    unfolding subs before by (simp add: nm look)
  have k5: "map_of (EntityMetadata.properties root') ''level''
      = Some (levelProperty \<lparr> EntityProperty.nullable := True, inherited := True \<rparr>)"
    using last [rule_format, of "[nameProperty, salaryProperty, managerSalary]" levelProperty "[]"]
    unfolding subs before by (simp add: nm look)
  from a1 a2 a3 a4 a5 subs r k1 k2 k3 k4 k5 show ?thesis by simp
qed

text \<open>The claim as stated fails. \<open>name\<close> is declared on the root \<open>Person\<close> as required,
  the subclass \<open>Employee\<close> declares it too, and after the loop the root's \<open>name\<close> is
  nullable. \<open>salary\<close> is declared by the subclasses \<open>Employee\<close> and \<open>Manager\<close> and not
  by the root: the root ends with the copy of \<open>Manager\<close>'s property, which replaced the
  copy of \<open>Employee\<close>'s and is not tagged \<open>inherited\<close>.\<close>

theorem sti_nullable_counterexample:
  "map_option EntityProperty.nullable (map_of (EntityMetadata.properties personMeta) ''name'')
     = Some False
   \<and> map_option EntityProperty.nullable (map_of (EntityMetadata.properties employeeMeta) ''name'')
     = Some False
   \<and> map_option (\<lambda>r. map_option EntityProperty.nullable (map_of (EntityMetadata.properties r) ''name''))
       (findMeta (discoverInheritance underscoreNames (\<lambda>c. ''Person'') teamStorage
          [''Person'', ''Employee'', ''Manager'']) ''Person'')
     = Some (Some True)
   \<and> map_of (EntityMetadata.properties personMeta) ''salary'' = None
   \<and> map_option (\<lambda>r. map_option (\<lambda>p. (EntityProperty.type p, inherited p))
                        (map_of (EntityMetadata.properties r) ''salary''))
       (findMeta (discoverInheritance underscoreNames (\<lambda>c. ''Person'') teamStorage
          [''Person'', ''Employee'', ''Manager'']) ''Person'')
     = Some (Some (''string'', False))"
  by code_simp

section \<open>Properties of pivot-table synthesis\<close>

lemma map_of_update:
  "map_of (map (\<lambda>(k', p'). if k' = k then (k', g p') else (k', p')) qs) k'
     = (if k' = k then map_option g (map_of qs k) else map_of qs k')"
  by (induction qs) auto

lemma lookupProperty_updateProperty:
  "lookupProperty (updateProperty st e k g) e' k'
     = (if e' = e \<and> k' = k then map_option g (lookupProperty st e k)
        else lookupProperty st e' k')"
  by (auto simp: lookupProperty_def updateProperty_def findMeta_updateMeta map_of_update
      split: option.splits)

lemma lookup_editInverse:
  assumes "editInverse st p g = Inr st'"
    and "\<not> (EntityProperty.type p = e \<and> inversedBy p = Some k)"
  shows "lookupProperty st' e k = lookupProperty st e k"
  using assms
  by (auto simp: editInverse_def lookupProperty_updateProperty
      split: option.splits list.splits)

lemma findMeta_setMeta: "findMeta (setMeta st e m) e = Some m"
proof (cases "e \<in> set (map fst st)")
  case True
  have "e \<in> set (map fst qs) \<Longrightarrow>
      map_of (map (\<lambda>(k, m'). if k = e then (k, m) else (k, m')) qs) e = Some m" for qs
    by (induction qs) auto
  with True show ?thesis by (simp add: findMeta_def setMeta_def)
next
  case False
  then have "map_of st e = None" by (simp add: map_of_eq_None_iff)
  with False show ?thesis by (simp add: findMeta_def setMeta_def map_add_def)
qed

text \<open>The first step keeps the join columns of the property.\<close>

lemma fixedOrder_step_keeps:
  assumes "defineFixedOrderProperty ns st e k p0 = Inr (pp, st1)"
    and "lookupProperty st e k = Some p0"
    and "\<not> (EntityProperty.type p0 = e \<and> inversedBy p0 = Some k)"
  shows "\<exists>p1. lookupProperty st1 e k = Some p1
           \<and> joinColumns p1 = joinColumns p0 \<and> inverseJoinColumns p1 = inverseJoinColumns p0
           \<and> referencedColumnNames p1 = referencedColumnNames p0
           \<and> EntityProperty.type p1 = EntityProperty.type p0 \<and> inversedBy p1 = inversedBy p0"
proof -
  let ?pk = "case fixedOrderColumn p0 of Some (c # cs) \<Rightarrow> c # cs | _ \<Rightarrow> referenceColumnName ns"
  let ?st = "updateProperty st e k (\<lambda>q. q \<lparr> fixedOrderColumn := Some ?pk \<rparr>)"
  from assms(1) have ed: "editInverse ?st p0
      (\<lambda>q. q \<lparr> fixedOrder := True, fixedOrderColumn := Some ?pk \<rparr>) = Inr st1"
    by (auto simp: defineFixedOrderProperty_def Let_def split: sum.splits)
  from lookup_editInverse [OF ed assms(3)] assms(2)
  have "lookupProperty st1 e k = Some (p0 \<lparr> fixedOrderColumn := Some ?pk \<rparr>)"
    by (simp add: lookupProperty_updateProperty)
  then show ?thesis by simp
qed

text \<open>The renaming step, for a self-referential property whose two sets of join columns
  agree.\<close>

lemma renameSelfReference_renames:
  assumes "renameSelfReference ns st meta e k p = Inr st'"
    and "lookupProperty st e k = Some p"
    and "\<not> (EntityProperty.type p = e \<and> inversedBy p = Some k)"
    and "EntityMetadata.name meta = EntityProperty.type p"
    and "joinColumns p = Some jcs" "inverseJoinColumns p = Some ijs" "everyEqual jcs ijs"
    and "referencedColumnNames p = Some refs"
  shows "\<exists>p2. lookupProperty st' e k = Some p2
     \<and> joinColumns p2 = Some (map (\<lambda>n. joinKeyColumnName ns (collection meta @ ''_1'') n
                                        (compositePK meta)) refs)
     \<and> inverseJoinColumns p2 = Some (map (\<lambda>n. joinKeyColumnName ns (collection meta @ ''_2'') n
                                               (compositePK meta)) refs)
     \<and> EntityProperty.type p2 = EntityProperty.type p"
proof -
  let ?g = "\<lambda>q. q \<lparr>
      joinColumns := Some (map (\<lambda>n. joinKeyColumnName ns (collection meta @ ''_1'') n
                                   (compositePK meta)) refs),
      inverseJoinColumns := Some (map (\<lambda>n. joinKeyColumnName ns (collection meta @ ''_2'') n
                                          (compositePK meta)) refs) \<rparr>"
  let ?st1 = "updateProperty st e k ?g"
  from assms(1,4-8) obtain st2 where
    e1: "editInverse ?st1 p (\<lambda>q. q \<lparr> inverseJoinColumns :=
            Option.bind (lookupProperty ?st1 e k) joinColumns \<rparr>) = Inr st2" and
    e2: "editInverse st2 p (\<lambda>q. q \<lparr> joinColumns :=
            Option.bind (lookupProperty st2 e k) inverseJoinColumns \<rparr>) = Inr st'"
    by (auto simp: renameSelfReference_def Let_def split: sum.splits)
  have "lookupProperty ?st1 e k = Some (?g p)"
    using assms(2) by (simp add: lookupProperty_updateProperty)
  with lookup_editInverse [OF e1 assms(3)] lookup_editInverse [OF e2 assms(3)]
  have "lookupProperty st' e k = Some (?g p)" by simp
  then show ?thesis by simp
qed

lemma definePivotProperty_fieldNames:
  "definePivotProperty st p nm ty inverseName True = Inr po \<Longrightarrow> fieldNames po = joinColumns p"
  "definePivotProperty st p nm ty inverseName False = Inr pi \<Longrightarrow> fieldNames pi = inverseJoinColumns p"
  by (auto simp: definePivotProperty_def Let_def split: option.splits sum.splits)

text \<open>
  C9. Let the owning many-to-many property \<open>p\<close> of an entity target that same entity,
  with join columns that agree with its inverse join columns position by position, and
  let its inverse side, if any, be another property. When \<open>definePivotTableEntity\<close>
  returns, the pivot entity is in the storage under the pivot table name, its owner
  property has the column names derived from the table name suffixed \<open>_1\<close> and its inverse
  property those derived from the table name suffixed \<open>_2\<close>, one per referenced column.
  With a naming strategy that gives different names for the two suffixed table names, the
  two sets of join columns share no name.
\<close>

theorem pivot_self_reference_disambiguated:
  assumes "definePivotTableEntity ns st e k = Inr st'"
    and "findMeta st e = Some meta"
    and "lookupProperty st e k = Some p"
    and "EntityProperty.pivotTable p = Some t"
    and "\<not> (EntityProperty.type p = e \<and> inversedBy p = Some k)"
    and "EntityMetadata.name meta = EntityProperty.type p"
    and "joinColumns p = Some jcs"
    and "inverseJoinColumns p = Some ijs"
    and "everyEqual jcs ijs"
    and "referencedColumnNames p = Some refs"
    and "\<forall>a b. joinKeyColumnName ns (collection meta @ ''_1'') a (compositePK meta)
               \<noteq> joinKeyColumnName ns (collection meta @ ''_2'') b (compositePK meta)"
  shows "\<exists>data ownerProp inverseProp.
      findMeta st' t = Some data
      \<and> map_of (EntityMetadata.properties data) (EntityMetadata.name meta @ ''_owner'') = Some ownerProp
      \<and> map_of (EntityMetadata.properties data) (EntityProperty.type p @ ''_inverse'') = Some inverseProp
      \<and> fieldNames ownerProp = Some (map (\<lambda>n. joinKeyColumnName ns (collection meta @ ''_1'') n
                                               (compositePK meta)) refs)
      \<and> fieldNames inverseProp = Some (map (\<lambda>n. joinKeyColumnName ns (collection meta @ ''_2'') n
                                                 (compositePK meta)) refs)
      \<and> set (fieldNamesOf ownerProp) \<inter> set (fieldNamesOf inverseProp) = {}"
proof -
  let ?ownerKey = "EntityMetadata.name meta @ ''_owner''"
  let ?inverseKey = "EntityProperty.type p @ ''_inverse''"
  let ?one = "map (\<lambda>n. joinKeyColumnName ns (collection meta @ ''_1'') n (compositePK meta)) refs"
  let ?two = "map (\<lambda>n. joinKeyColumnName ns (collection meta @ ''_2'') n (compositePK meta)) refs"
  from assms(1-4) obtain data1 st1 p1 st2 p2 ownerProp inverseProp where
    step1: "pivotSkeleton ns st e k meta p = Inr (data1, st1)"
    and l1: "lookupProperty st1 e k = Some p1"
    and step2: "renameSelfReference ns st1 meta e k p1 = Inr st2"
    and l2: "lookupProperty st2 e k = Some p2"
    and po: "definePivotProperty st2 p2 ?ownerKey (EntityMetadata.name meta) ?inverseKey True
               = Inr ownerProp"
    and pi: "definePivotProperty st2 p2 ?inverseKey (EntityProperty.type p2) ?ownerKey False
               = Inr inverseProp"
    and res: "st' = setMeta st2 t (data1 \<lparr> EntityMetadata.properties :=
                 setProperty (setProperty (EntityMetadata.properties data1) ?ownerKey ownerProp)
                   ?inverseKey inverseProp \<rparr>)"
    by (auto simp: definePivotTableEntity_def Let_def split: sum.splits option.splits)
  have keep: "joinColumns p1 = joinColumns p \<and> inverseJoinColumns p1 = inverseJoinColumns p
           \<and> referencedColumnNames p1 = referencedColumnNames p
           \<and> EntityProperty.type p1 = EntityProperty.type p \<and> inversedBy p1 = inversedBy p"
  proof (cases "fixedOrder p")
    case False
    with step1 l1 assms(3) show ?thesis by (simp add: pivotSkeleton_def Let_def)
  next
    case True
    with step1 obtain pp where "defineFixedOrderProperty ns st e k p = Inr (pp, st1)"
      by (auto simp: pivotSkeleton_def Let_def split: sum.splits)
    from fixedOrder_step_keeps [OF this assms(3,5)] l1 show ?thesis by auto
  qed
  with assms(5) have apart: "\<not> (EntityProperty.type p1 = e \<and> inversedBy p1 = Some k)" by simp
  from keep assms(6-10) have
    "EntityMetadata.name meta = EntityProperty.type p1" "joinColumns p1 = Some jcs"
    "inverseJoinColumns p1 = Some ijs" "referencedColumnNames p1 = Some refs"
    by simp_all
  from renameSelfReference_renames [OF step2 l1 apart this(1,2,3) assms(9) this(4)] l2
  have p2: "joinColumns p2 = Some ?one" "inverseJoinColumns p2 = Some ?two"
    "EntityProperty.type p2 = EntityProperty.type p"
    using keep by auto
  from definePivotProperty_fieldNames(1) [OF po] p2
  have fo: "fieldNames ownerProp = Some ?one" by simp
  from definePivotProperty_fieldNames(2) [OF pi] p2
  have fi: "fieldNames inverseProp = Some ?two" by simp
  have differ: "?ownerKey \<noteq> ?inverseKey" using assms(6) by simp
  have "map_of (setProperty (setProperty (EntityMetadata.properties data1) ?ownerKey ownerProp)
                  ?inverseKey inverseProp) ?ownerKey = Some ownerProp"
    and "map_of (setProperty (setProperty (EntityMetadata.properties data1) ?ownerKey ownerProp)
                  ?inverseKey inverseProp) ?inverseKey = Some inverseProp"
    using differ by (simp_all add: map_of_setProperty)
  moreover have "findMeta st' t = Some (data1 \<lparr> EntityMetadata.properties :=
                 setProperty (setProperty (EntityMetadata.properties data1) ?ownerKey ownerProp)
                   ?inverseKey inverseProp \<rparr>)"
    by (simp add: res findMeta_setMeta)
  moreover have "set (fieldNamesOf ownerProp) \<inter> set (fieldNamesOf inverseProp) = {}"
    using assms(11) by (auto simp: fieldNamesOf_def fo fi)
  ultimately show ?thesis using fo fi by auto
qed

theorem pivot_self_reference_disambiguated_witness:
  "findMeta [(''Friend'', friendMeta)] ''Friend'' = Some friendMeta
   \<and> lookupProperty [(''Friend'', friendMeta)] ''Friend'' ''friends'' = Some friendsProperty
   \<and> EntityProperty.pivotTable friendsProperty = Some ''friend_friends''
   \<and> \<not> (EntityProperty.type friendsProperty = ''Friend''
          \<and> inversedBy friendsProperty = Some ''friends'')
   \<and> EntityMetadata.name friendMeta = EntityProperty.type friendsProperty
   \<and> joinColumns friendsProperty = Some [''friend_id'']
   \<and> inverseJoinColumns friendsProperty = Some [''friend_id'']
   \<and> everyEqual [''friend_id''] [''friend_id'']
   \<and> referencedColumnNames friendsProperty = Some [''id'']
   \<and> (\<forall>a b. joinKeyColumnName underscoreNames (collection friendMeta @ ''_1'') a (compositePK friendMeta)
              \<noteq> joinKeyColumnName underscoreNames (collection friendMeta @ ''_2'') b (compositePK friendMeta))
   \<and> (\<exists>st' data ownerProp inverseProp.
        definePivotTableEntity underscoreNames [(''Friend'', friendMeta)] ''Friend'' ''friends'' = Inr st'
        \<and> findMeta st' ''friend_friends'' = Some data
        \<and> map_of (EntityMetadata.properties data) ''Friend_owner'' = Some ownerProp
        \<and> map_of (EntityMetadata.properties data) ''Friend_inverse'' = Some inverseProp
        \<and> fieldNames ownerProp = Some [''friend_1_id'']
        \<and> fieldNames inverseProp = Some [''friend_2_id'']
        \<and> set (fieldNamesOf ownerProp) \<inter> set (fieldNamesOf inverseProp) = {})"
proof -
  let ?st = "[(''Friend'', friendMeta)]"
  have a2: "findMeta ?st ''Friend'' = Some friendMeta" by (simp add: findMeta_def)
  have a3: "lookupProperty ?st ''Friend'' ''friends'' = Some friendsProperty"
    by (simp add: lookupProperty_def findMeta_def friendMeta_def)
  have a4: "EntityProperty.pivotTable friendsProperty = Some ''friend_friends''"
    by (simp add: friendsProperty_def)
  have a5: "\<not> (EntityProperty.type friendsProperty = ''Friend''
          \<and> inversedBy friendsProperty = Some ''friends'')"
    by (simp add: friendsProperty_def blankProperty_def)
  have a6: "EntityMetadata.name friendMeta = EntityProperty.type friendsProperty"
    by (simp add: friendMeta_def friendsProperty_def)
  have a7: "joinColumns friendsProperty = Some [''friend_id'']"
    and a8: "inverseJoinColumns friendsProperty = Some [''friend_id'']"
    and a10: "referencedColumnNames friendsProperty = Some [''id'']"
    by (simp_all add: friendsProperty_def)
  have a9: "everyEqual [''friend_id''] [''friend_id'']" by (simp add: everyEqual_def)
  have meta: "collection friendMeta = ''friend''" "compositePK friendMeta = False"
    "EntityMetadata.name friendMeta = ''Friend''" "EntityProperty.type friendsProperty = ''Friend''"
    by (simp_all add: friendMeta_def blankMeta_def friendsProperty_def)
  have a11: "\<forall>a b. joinKeyColumnName underscoreNames (collection friendMeta @ ''_1'') a (compositePK friendMeta)
              \<noteq> joinKeyColumnName underscoreNames (collection friendMeta @ ''_2'') b (compositePK friendMeta)"
    by (simp add: meta underscoreNames_def)
  have "case definePivotTableEntity underscoreNames ?st ''Friend'' ''friends'' of
          Inl err \<Rightarrow> False | Inr s \<Rightarrow> True"
    by code_simp
  then obtain st' where a1: "definePivotTableEntity underscoreNames ?st ''Friend'' ''friends'' = Inr st'"
    by (auto split: sum.splits)
  from pivot_self_reference_disambiguated [OF a1 a2 a3 a4 a5 a6 a7 a8 a9 a10 a11]
  obtain data ownerProp inverseProp where
    "findMeta st' ''friend_friends'' = Some data"
    "map_of (EntityMetadata.properties data) ''Friend_owner'' = Some ownerProp"
    "map_of (EntityMetadata.properties data) ''Friend_inverse'' = Some inverseProp"
    "fieldNames ownerProp = Some [''friend_1_id'']"
    "fieldNames inverseProp = Some [''friend_2_id'']"
    "set (fieldNamesOf ownerProp) \<inter> set (fieldNamesOf inverseProp) = {}"
    by (auto simp: meta underscoreNames_def)
  with a1 have "\<exists>st' data ownerProp inverseProp.
        definePivotTableEntity underscoreNames ?st ''Friend'' ''friends'' = Inr st'
        \<and> findMeta st' ''friend_friends'' = Some data
        \<and> map_of (EntityMetadata.properties data) ''Friend_owner'' = Some ownerProp
        \<and> map_of (EntityMetadata.properties data) ''Friend_inverse'' = Some inverseProp
        \<and> fieldNames ownerProp = Some [''friend_1_id'']
        \<and> fieldNames inverseProp = Some [''friend_2_id'']
        \<and> set (fieldNamesOf ownerProp) \<inter> set (fieldNamesOf inverseProp) = {}"
    by blast
  with a2 a3 a4 a5 a6 a7 a8 a9 a10 a11 show ?thesis by blast
qed

section \<open>The commit order\<close>

declare sortLoop.simps [simp del]

lemma blocked_iff:
  "blocked deps least remaining n
     = (\<exists>f w. (f, n, w) \<in> set deps \<and> least \<le> w \<and> f \<in> set remaining)"
  by (force simp: blocked_def list_ex_iff)

lemma nextNode_member: "nextNode deps remaining = Some n \<Longrightarrow> n \<in> set remaining"
  by (auto simp: nextNode_def find_Some_iff split: option.splits)

lemma nextNode_free:
  assumes "nextNode deps remaining = Some n"
  shows "\<not> blocked deps 1 remaining n"
proof (cases "find (\<lambda>n. \<not> blocked deps 0 remaining n) remaining")
  case None
  with assms show ?thesis by (auto simp: nextNode_def find_Some_iff)
next
  case (Some m)
  with assms have "\<not> blocked deps 0 remaining n"
    by (auto simp: nextNode_def find_Some_iff)
  then show ?thesis by (auto simp: blocked_iff)
qed

lemma nextNode_None:
  assumes "nextNode deps remaining = None" and "n \<in> set remaining"
  shows "blocked deps 1 remaining n"
  using assms by (auto simp: nextNode_def find_None_iff split: option.splits)

lemma sortLoop_extends:
  "sortLoop deps remaining placed = Inr ordered \<Longrightarrow> distinct remaining \<Longrightarrow>
     \<exists>rest. ordered = placed @ rest \<and> set rest = set remaining \<and> distinct rest"
proof (induction deps remaining placed rule: sortLoop.induct)
  case (1 deps remaining placed)
  show ?case
  proof (cases "remaining = []")
    case True
    with "1.prems" show ?thesis by (simp add: sortLoop.simps)
  next
    case False
    with "1.prems" obtain n where n: "nextNode deps remaining = Some n"
      and run: "sortLoop deps (remove1 n remaining) (placed @ [n]) = Inr ordered"
      by (auto simp: sortLoop.simps [of deps remaining] split: option.splits)
    have mem: "n \<in> set remaining" using n by (rule nextNode_member)
    from "1.IH" [OF False n run] "1.prems"(2)
    obtain rest where rest: "ordered = (placed @ [n]) @ rest"
      "set rest = set (remove1 n remaining)" "distinct rest"
      by auto
    have "set (n # rest) = set remaining"
      using rest(2) mem "1.prems"(2) by auto
    moreover have "distinct (n # rest)"
      using rest(2,3) "1.prems"(2) by auto
    ultimately show ?thesis using rest(1) by (intro exI [of _ "n # rest"]) simp
  qed
qed

lemma precedes_append: "precedes x y xs \<Longrightarrow> precedes x y (xs @ ys)"
  by (auto simp: precedes_def takeWhile_append1)

lemma precedes_last:
  assumes "x \<in> set xs" and "y \<notin> set xs"
  shows "precedes x y (xs @ [y])"
proof -
  from assms(2) have "takeWhile (\<lambda>z. z \<noteq> y) (xs @ [y]) = xs"
    by (induction xs) auto
  with assms(1) show ?thesis by (simp add: precedes_def)
qed

lemma sortLoop_respects:
  "sortLoop deps remaining placed = Inr ordered \<Longrightarrow> distinct (placed @ remaining) \<Longrightarrow>
   (\<And>f t w. (f, t, w) \<in> set deps \<Longrightarrow> f \<in> set placed \<union> set remaining) \<Longrightarrow>
   (\<And>f t w. (f, t, w) \<in> set deps \<Longrightarrow> 1 \<le> w \<Longrightarrow> t \<in> set placed \<Longrightarrow> precedes f t placed) \<Longrightarrow>
   (f, t, w) \<in> set deps \<Longrightarrow> 1 \<le> w \<Longrightarrow> t \<in> set ordered \<Longrightarrow> precedes f t ordered"
proof (induction deps remaining placed rule: sortLoop.induct)
  case (1 deps remaining placed)
  show ?case
  proof (cases "remaining = []")
    case True
    with "1.prems"(1) have "ordered = placed" by (simp add: sortLoop.simps)
    with "1.prems"(4) [OF "1.prems"(5,6)] "1.prems"(7) show ?thesis by simp
  next
    case False
    with "1.prems"(1) obtain n where n: "nextNode deps remaining = Some n"
      and run: "sortLoop deps (remove1 n remaining) (placed @ [n]) = Inr ordered"
      by (auto simp: sortLoop.simps [of deps remaining] split: option.splits)
    have mem: "n \<in> set remaining" using n by (rule nextNode_member)
    have free: "\<not> blocked deps 1 remaining n" using n by (rule nextNode_free)
    have fresh: "n \<notin> set placed" using mem "1.prems"(2) by auto
    have d: "distinct ((placed @ [n]) @ remove1 n remaining)"
      using "1.prems"(2) mem by auto
    have nodes: "set (placed @ [n]) \<union> set (remove1 n remaining) = set placed \<union> set remaining"
      using "1.prems"(2) mem by auto
    have src: "\<And>f t w. (f, t, w) \<in> set deps \<Longrightarrow> f \<in> set (placed @ [n]) \<union> set (remove1 n remaining)"
      unfolding nodes by (rule "1.prems"(3))
    have inv: "precedes f' t' (placed @ [n])"
      if e: "(f', t', w') \<in> set deps" and w: "1 \<le> w'" and t: "t' \<in> set (placed @ [n])"
      for f' t' w'
    proof (cases "t' \<in> set placed")
      case True
      from "1.prems"(4) [OF e w True] show ?thesis by (rule precedes_append)
    next
      case False
      with t have tn: "t' = n" by simp
      have "f' \<notin> set remaining" using free e w tn by (auto simp: blocked_iff)
      with "1.prems"(3) [OF e] have "f' \<in> set placed" by simp
      then show ?thesis unfolding tn using fresh by (rule precedes_last)
    qed
    show ?thesis
      by (rule "1.IH" [OF False n run d src inv "1.prems"(5,6,7)])
  qed
qed

lemma sortLoop_returns:
  "acyclic (edges deps) \<Longrightarrow> \<exists>ordered. sortLoop deps remaining placed = Inr ordered"
proof (induction deps remaining placed rule: sortLoop.induct)
  case (1 deps remaining placed)
  show ?case
  proof (cases "remaining = []")
    case True
    then show ?thesis by (simp add: sortLoop.simps)
  next
    case False
    have "finite (edges deps)" by (simp add: edges_def)
    with "1.prems" have wf: "wf (edges deps)" by (simp add: finite_acyclic_wf)
    from False obtain x where "x \<in> set remaining" by (cases remaining) auto
    with wf obtain z where z: "z \<in> set remaining"
      and least: "\<And>y. (y, z) \<in> edges deps \<Longrightarrow> y \<notin> set remaining"
      by (rule wfE_min) blast
    have "\<not> blocked deps 1 remaining z"
    proof
      assume "blocked deps 1 remaining z"
      then obtain f w where e: "(f, z, w) \<in> set deps" and f: "f \<in> set remaining"
        by (auto simp: blocked_iff)
      from e have "(f, z) \<in> edges deps" by (force simp: edges_def)
      with least f show False by blast
    qed
    with z have "nextNode deps remaining \<noteq> None" using nextNode_None by blast
    then obtain n where n: "nextNode deps remaining = Some n" by auto
    from "1.IH" [OF False n "1.prems"] obtain ordered
      where "sortLoop deps (remove1 n remaining) (placed @ [n]) = Inr ordered" by blast
    with False n show ?thesis by (simp add: sortLoop.simps [of deps remaining])
  qed
qed

lemma sortLoop_knot:
  "K \<noteq> {} \<Longrightarrow> K \<subseteq> set remaining \<Longrightarrow>
   (\<And>n. n \<in> K \<Longrightarrow> \<exists>f \<in> K. \<exists>w. (f, n, w) \<in> set deps \<and> 1 \<le> w) \<Longrightarrow>
   sortLoop deps remaining placed = Inl SchemaDependencyError"
proof (induction deps remaining placed rule: sortLoop.induct)
  case (1 deps remaining placed)
  from "1.prems"(1,2) have False: "remaining \<noteq> []" by auto
  show ?case
  proof (cases "nextNode deps remaining")
    case None
    with False show ?thesis by (simp add: sortLoop.simps [of deps remaining])
  next
    case (Some n)
    have free: "\<not> blocked deps 1 remaining n" using Some by (rule nextNode_free)
    have "n \<notin> K"
    proof
      assume "n \<in> K"
      from "1.prems"(3) [OF this] "1.prems"(2) have "blocked deps 1 remaining n"
        by (auto simp: blocked_iff)
      with free show False by simp
    qed
    have sub: "K \<subseteq> set (remove1 n remaining)"
    proof
      fix x assume x: "x \<in> K"
      with \<open>n \<notin> K\<close> have "x \<noteq> n" by auto
      with x "1.prems"(2) show "x \<in> set (remove1 n remaining)"
        by (auto simp: in_set_remove1)
    qed
    from "1.IH" [OF False Some "1.prems"(1) sub "1.prems"(3)]
    have "sortLoop deps (remove1 n remaining) (placed @ [n]) = Inl SchemaDependencyError"
      by simp
    with False Some show ?thesis by (simp add: sortLoop.simps [of deps remaining])
  qed
qed

lemma requiredCycle_knot:
  assumes "requiredCycle deps ns" and "n \<in> set ns"
  shows "\<exists>f \<in> set ns. \<exists>w. (f, n, w) \<in> set deps \<and> 1 \<le> w"
proof -
  have "set (rotate1 ns) = set ns" by simp
  with assms(2) obtain i where "i < length (rotate1 ns)" and at: "rotate1 ns ! i = n"
    by (metis in_set_conv_nth)
  then have i: "i < length ns" by simp
  with at have "(ns ! i, n) \<in> set (zip ns (rotate1 ns))"
    unfolding set_zip by (intro CollectI exI [of _ i]) simp
  with assms(1) have "(ns ! i, n, 1) \<in> set deps"
    by (auto simp: requiredCycle_def list_all_iff)
  with i show ?thesis by (intro bexI [of _ "ns ! i"] exI [of _ 1]) auto
qed

text \<open>The graph that \<open>getOrderedMetadata\<close> builds.\<close>

lemma addNode_fold:
  "nodes (fold (\<lambda>meta c. addNode c (EntityMetadata.name meta)) ms c) = ns \<Longrightarrow>
     set ns = set (nodes c) \<union> EntityMetadata.name ` set ms
     \<and> (distinct (nodes c) \<longrightarrow> distinct ns)
     \<and> dependencies (fold (\<lambda>meta c. addNode c (EntityMetadata.name meta)) ms c) = dependencies c"
proof (induction ms arbitrary: c ns)
  case Nil
  then show ?case by auto
next
  case (Cons m ms)
  from Cons.IH [of "addNode c (EntityMetadata.name m)" ns] Cons.prems
  show ?case by (auto simp: addNode_def split: if_splits)
qed

lemma property_fold:
  fixes ename :: string
  defines "step \<equiv> (\<lambda>p c'. if \<not> hasNode c' (EntityProperty.type p) then c'
                            else addCommitDependency c' p ename)"
  shows "nodes (fold step ps c) = nodes c
    \<and> set (dependencies (fold step ps c))
        = set (dependencies c)
          \<union> {(EntityProperty.type p, ename, if EntityProperty.nullable p then 0 else 1) | p.
               p \<in> set ps \<and> ownsForeignKey p \<and> EntityProperty.type p \<in> set (nodes c)}"
proof (induction ps arbitrary: c)
  case Nil
  then show ?case by simp
next
  case (Cons q ps)
  have n: "nodes (step q c) = nodes c"
    by (simp add: step_def addCommitDependency_def addDependency_def)
  have d: "set (dependencies (step q c)) = set (dependencies c)
      \<union> (if ownsForeignKey q \<and> EntityProperty.type q \<in> set (nodes c)
         then {(EntityProperty.type q, ename, if EntityProperty.nullable q then 0 else 1)}
         else {})"
    by (auto simp: step_def addCommitDependency_def addDependency_def hasNode_def
        ownsForeignKey_def)
  from Cons.IH [of "step q c"] show ?case
    unfolding fold_simps n d by (auto split: if_splits)
qed

lemma entity_fold:
  defines "step \<equiv> (\<lambda>meta c.
               fold (\<lambda>p c'. if \<not> hasNode c' (EntityProperty.type p) then c'
                             else addCommitDependency c' p (EntityMetadata.name meta))
                    (props meta) c)"
  shows "nodes (fold step ms c) = nodes c
    \<and> set (dependencies (fold step ms c))
        = set (dependencies c)
          \<union> {commitEdge meta p | meta p.
               meta \<in> set ms \<and> p \<in> set (props meta) \<and> ownsForeignKey p
               \<and> EntityProperty.type p \<in> set (nodes c)}"
proof (induction ms arbitrary: c)
  case Nil
  then show ?case by simp
next
  case (Cons m ms)
  have n: "nodes (step m c) = nodes c"
    unfolding step_def using property_fold [of "EntityMetadata.name m" "props m" c] by simp
  have d: "set (dependencies (step m c)) = set (dependencies c)
      \<union> {commitEdge m p | p. p \<in> set (props m) \<and> ownsForeignKey p
             \<and> EntityProperty.type p \<in> set (nodes c)}"
    unfolding step_def commitEdge_def
    using property_fold [of "EntityMetadata.name m" "props m" c] by simp
  from Cons.IH [of "step m c"] show ?case
    unfolding fold_simps n d by auto
qed

lemma commitGraph_nodes:
  "set (nodes (commitGraph storage)) = EntityMetadata.name ` set (rootEntities storage)"
  "distinct (nodes (commitGraph storage))"
  using entity_fold [of "rev (rootEntities storage)"
      "fold (\<lambda>meta c. addNode c (EntityMetadata.name meta)) (rootEntities storage) newCalculator"]
    addNode_fold [OF refl, of "rootEntities storage" newCalculator]
  by (simp_all add: commitGraph_def Let_def newCalculator_def)

lemma commitGraph_dependencies:
  "set (dependencies (commitGraph storage))
     = {commitEdge meta p | meta p.
          meta \<in> set (rootEntities storage) \<and> p \<in> set (props meta) \<and> ownsForeignKey p
          \<and> EntityProperty.type p \<in> EntityMetadata.name ` set (rootEntities storage)}"
  using entity_fold [of "rev (rootEntities storage)"
      "fold (\<lambda>meta c. addNode c (EntityMetadata.name meta)) (rootEntities storage) newCalculator"]
    addNode_fold [OF refl, of "rootEntities storage" newCalculator]
  by (simp add: commitGraph_def Let_def newCalculator_def)

lemma sorted_names:
  assumes keyed: "\<forall>km \<in> set storage. fst km = EntityMetadata.name (snd km)"
    and known: "set ns \<subseteq> fst ` set storage"
  shows "map EntityMetadata.name (List.map_filter (findMeta storage) ns) = ns"
  using known
proof (induction ns)
  case Nil
  then show ?case by simp
next
  case (Cons n ns)
  from Cons.prems have "n \<in> fst ` set storage" by simp
  then obtain m where m: "map_of storage n = Some m"
    by (cases "map_of storage n") (auto simp: map_of_eq_None_iff)
  then have "(n, m) \<in> set storage" by (rule map_of_SomeD)
  with keyed have "EntityMetadata.name m = n" by force
  with m Cons show ?case by (simp add: findMeta_def)
qed

lemma rootEntities_keys:
  assumes "\<forall>km \<in> set storage. fst km = EntityMetadata.name (snd km)"
  shows "EntityMetadata.name ` set (rootEntities storage) \<subseteq> fst ` set storage"
  using assms by (force simp: rootEntities_def)

lemma commitGraph_edge:
  assumes "(f, t, w) \<in> set (dependencies (commitGraph storage))"
  shows "f \<in> set (nodes (commitGraph storage))" and "t \<in> set (nodes (commitGraph storage))"
  using assms unfolding commitGraph_dependencies commitGraph_nodes commitEdge_def by auto

lemma commitGraph_registers:
  assumes "meta \<in> set (rootEntities storage)" and "p \<in> set (props meta)"
    and "ownsForeignKey p"
    and "EntityProperty.type p \<in> EntityMetadata.name ` set (rootEntities storage)"
  shows "(EntityProperty.type p, EntityMetadata.name meta,
           if EntityProperty.nullable p then 0 else 1) \<in> set (dependencies (commitGraph storage))"
  unfolding commitGraph_dependencies commitEdge_def using assms by blast

lemma getOrderedMetadata_names:
  assumes keyed: "\<forall>km \<in> set storage. fst km = EntityMetadata.name (snd km)"
    and run: "sortNodes (commitGraph storage) = Inr ns"
  shows "\<exists>ordered. getOrderedMetadata storage = Inr ordered
           \<and> map EntityMetadata.name ordered = ns"
proof -
  from run sortLoop_extends [of "dependencies (commitGraph storage)"
      "nodes (commitGraph storage)" "[]" ns]
  have "set ns = set (nodes (commitGraph storage))"
    by (auto simp: sortNodes_def commitGraph_nodes(2))
  with rootEntities_keys [OF keyed] have "set ns \<subseteq> fst ` set storage"
    by (simp add: commitGraph_nodes(1))
  with keyed have "map EntityMetadata.name (List.map_filter (findMeta storage) ns) = ns"
    by (rule sorted_names)
  with run show ?thesis by (simp add: getOrderedMetadata_def)
qed

lemma commitGraph_stems:
  assumes "d \<in> set (dependencies (commitGraph storage))"
  shows "\<exists>meta \<in> set (rootEntities storage). \<exists>p \<in> set (props meta).
      ownsForeignKey p
      \<and> EntityProperty.type p \<in> EntityMetadata.name ` set (rootEntities storage)
      \<and> d = (EntityProperty.type p, EntityMetadata.name meta,
               if EntityProperty.nullable p then 0 else 1)"
  using assms unfolding commitGraph_dependencies commitEdge_def by blast

text \<open>
  Claim C1, as the code has it. Let the storage be keyed by entity name.
  \<open>getOrderedMetadata\<close> orders the root entities, those that are their own root and not
  embeddable. Every many-to-one property and every owning one-to-one property of a root
  entity that targets a root entity is registered as a dependency of the entity on the
  target, with weight \<open>1\<close> when the property is required and weight \<open>0\<close> when it is
  nullable, and no other dependency is registered: a property whose entity or whose target
  is not a root entity registers none. When the dependency graph is acyclic,
  \<open>getOrderedMetadata\<close> returns an ordering of exactly the root entities in which the
  target of every such required property stands before the entity that has the property.
  When the graph has a cycle of weight-1 dependencies, \<open>getOrderedMetadata\<close> raises
  \<open>SchemaDependencyError\<close>.
\<close>

theorem commit_order:
  assumes keyed: "\<forall>km \<in> set storage. fst km = EntityMetadata.name (snd km)"
  shows "(\<forall>meta \<in> set (rootEntities storage). \<forall>p \<in> set (props meta).
            ownsForeignKey p
              \<and> EntityProperty.type p \<in> EntityMetadata.name ` set (rootEntities storage) \<longrightarrow>
            (EntityProperty.type p, EntityMetadata.name meta,
               if EntityProperty.nullable p then 0 else 1)
              \<in> set (dependencies (commitGraph storage)))
       \<and> (\<forall>d \<in> set (dependencies (commitGraph storage)).
            \<exists>meta \<in> set (rootEntities storage). \<exists>p \<in> set (props meta).
              ownsForeignKey p
              \<and> EntityProperty.type p \<in> EntityMetadata.name ` set (rootEntities storage)
              \<and> d = (EntityProperty.type p, EntityMetadata.name meta,
                       if EntityProperty.nullable p then 0 else 1))
       \<and> (acyclic (edges (dependencies (commitGraph storage))) \<longrightarrow>
            (\<exists>ordered. getOrderedMetadata storage = Inr ordered
               \<and> set (map EntityMetadata.name ordered)
                   = EntityMetadata.name ` set (rootEntities storage)
               \<and> (\<forall>meta \<in> set (rootEntities storage). \<forall>p \<in> set (props meta).
                    ownsForeignKey p \<and> \<not> EntityProperty.nullable p
                      \<and> EntityProperty.type p
                          \<in> EntityMetadata.name ` set (rootEntities storage) \<longrightarrow>
                    precedes (EntityProperty.type p) (EntityMetadata.name meta)
                      (map EntityMetadata.name ordered))))
       \<and> (requiredCycle (dependencies (commitGraph storage)) ns \<longrightarrow>
            getOrderedMetadata storage = Inl SchemaDependencyError)"
proof (intro conjI impI ballI)
  fix meta p
  assume "meta \<in> set (rootEntities storage)" "p \<in> set (props meta)"
    "ownsForeignKey p
       \<and> EntityProperty.type p \<in> EntityMetadata.name ` set (rootEntities storage)"
  then show "(EntityProperty.type p, EntityMetadata.name meta,
       if EntityProperty.nullable p then 0 else 1) \<in> set (dependencies (commitGraph storage))"
    by (simp add: commitGraph_registers)
next
  fix d
  assume "d \<in> set (dependencies (commitGraph storage))"
  then show "\<exists>meta \<in> set (rootEntities storage). \<exists>p \<in> set (props meta).
      ownsForeignKey p
      \<and> EntityProperty.type p \<in> EntityMetadata.name ` set (rootEntities storage)
      \<and> d = (EntityProperty.type p, EntityMetadata.name meta,
               if EntityProperty.nullable p then 0 else 1)"
    by (rule commitGraph_stems)
next
  let ?c = "commitGraph storage"
  assume "acyclic (edges (dependencies ?c))"
  then obtain names where run: "sortLoop (dependencies ?c) (nodes ?c) [] = Inr names"
    using sortLoop_returns by blast
  then have sorted: "sortNodes ?c = Inr names" by (simp add: sortNodes_def)
  from getOrderedMetadata_names [OF keyed sorted] obtain ordered
    where res: "getOrderedMetadata storage = Inr ordered"
      and names: "map EntityMetadata.name ordered = names" by blast
  from sortLoop_extends [OF run commitGraph_nodes(2)]
  have all: "set names = set (nodes ?c)" by auto
  have before: "precedes (EntityProperty.type p) (EntityMetadata.name meta) names"
    if m: "meta \<in> set (rootEntities storage)" and p: "p \<in> set (props meta)"
      and q: "ownsForeignKey p \<and> \<not> EntityProperty.nullable p
        \<and> EntityProperty.type p \<in> EntityMetadata.name ` set (rootEntities storage)"
    for meta p
  proof -
    from commitGraph_registers [OF m p] q
    have e: "(EntityProperty.type p, EntityMetadata.name meta, 1)
        \<in> set (dependencies ?c)" by simp
    have d: "distinct ([] @ nodes ?c)" by (simp add: commitGraph_nodes(2))
    have src: "\<And>f t w. (f, t, w) \<in> set (dependencies ?c) \<Longrightarrow> f \<in> set [] \<union> set (nodes ?c)"
      by (simp add: commitGraph_edge(1))
    have inv: "\<And>f t w. (f, t, w) \<in> set (dependencies ?c) \<Longrightarrow> 1 \<le> w \<Longrightarrow> t \<in> set []
        \<Longrightarrow> precedes f t []" by simp
    have t: "EntityMetadata.name meta \<in> set names"
      using commitGraph_edge(2) [OF e] all by simp
    have w: "(1::nat) \<le> 1" by simp
    show ?thesis
      by (rule sortLoop_respects [OF run d src inv e w t])
  qed
  show "\<exists>ordered. getOrderedMetadata storage = Inr ordered
      \<and> set (map EntityMetadata.name ordered)
          = EntityMetadata.name ` set (rootEntities storage)
      \<and> (\<forall>meta \<in> set (rootEntities storage). \<forall>p \<in> set (props meta).
           ownsForeignKey p \<and> \<not> EntityProperty.nullable p
             \<and> EntityProperty.type p \<in> EntityMetadata.name ` set (rootEntities storage) \<longrightarrow>
           precedes (EntityProperty.type p) (EntityMetadata.name meta)
             (map EntityMetadata.name ordered))"
    using res before all unfolding names commitGraph_nodes(1)
    by (intro exI [of _ ordered]) (simp add: names)
next
  let ?c = "commitGraph storage"
  assume cyc: "requiredCycle (dependencies ?c) ns"
  then have ne: "set ns \<noteq> {}" by (simp add: requiredCycle_def)
  have knot: "\<And>n. n \<in> set ns \<Longrightarrow>
      \<exists>f \<in> set ns. \<exists>w. (f, n, w) \<in> set (dependencies ?c) \<and> 1 \<le> w"
    using cyc by (rule requiredCycle_knot)
  have sub: "set ns \<subseteq> set (nodes ?c)"
  proof
    fix n assume "n \<in> set ns"
    from knot [OF this] obtain f w where "(f, n, w) \<in> set (dependencies ?c)" by blast
    then show "n \<in> set (nodes ?c)" by (rule commitGraph_edge(2))
  qed
  from sortLoop_knot [OF ne sub knot]
  have "sortNodes ?c = Inl SchemaDependencyError" by (simp add: sortNodes_def)
  then show "getOrderedMetadata storage = Inl SchemaDependencyError"
    by (simp add: getOrderedMetadata_def)
qed

theorem commit_order_witness:
  "(''Author'', ''Book'', 1) \<in> set (dependencies (commitGraph libraryStorage))
   \<and> (\<exists>ordered. getOrderedMetadata libraryStorage = Inr ordered
         \<and> precedes ''Author'' ''Book'' (map EntityMetadata.name ordered))
   \<and> getOrderedMetadata knotStorage = Inl SchemaDependencyError"
proof -
  have k1: "\<forall>km \<in> set libraryStorage. fst km = EntityMetadata.name (snd km)"
    by code_simp
  have k2: "\<forall>km \<in> set knotStorage. fst km = EntityMetadata.name (snd km)"
    by code_simp
  have roots: "rootEntities libraryStorage = [libraryBook, authorMeta]"
    by (simp add: rootEntities_def libraryStorage_def libraryBook_def bookMeta_def
        authorMeta_def blankMeta_def)
  have m: "libraryBook \<in> set (rootEntities libraryStorage)"
    unfolding roots by simp
  have p: "authorReference \<in> set (props libraryBook)"
    by (simp add: props_def libraryBook_def)
  have q: "ownsForeignKey authorReference \<and> \<not> EntityProperty.nullable authorReference
      \<and> EntityProperty.type authorReference
          \<in> EntityMetadata.name ` set (rootEntities libraryStorage)"
    unfolding roots
    by (simp add: ownsForeignKey_def authorReference_def blankProperty_def authorMeta_def)
  have deps: "dependencies (commitGraph libraryStorage) = [(''Author'', ''Book'', 1)]"
    by code_simp
  have a: "acyclic (edges (dependencies (commitGraph libraryStorage)))"
  proof -
    have "acyclic ({} :: (string \<times> string) set)" by (simp add: acyclic_def)
    then show ?thesis unfolding deps by (simp add: edges_def)
  qed
  have c: "requiredCycle (dependencies (commitGraph knotStorage)) [''A'', ''B'']"
    by code_simp
  have names: "EntityProperty.type authorReference = ''Author''"
    "EntityMetadata.name libraryBook = ''Book''"
    by (simp_all add: authorReference_def libraryBook_def bookMeta_def)
  note main = commit_order [OF k1, of "[]"]
  from main have "\<forall>meta \<in> set (rootEntities libraryStorage). \<forall>p \<in> set (props meta).
      ownsForeignKey p
        \<and> EntityProperty.type p \<in> EntityMetadata.name ` set (rootEntities libraryStorage) \<longrightarrow>
      (EntityProperty.type p, EntityMetadata.name meta,
         if EntityProperty.nullable p then 0 else 1)
        \<in> set (dependencies (commitGraph libraryStorage))"
    by (rule conjunct1)
  from this m have "\<forall>p \<in> set (props libraryBook).
      ownsForeignKey p
        \<and> EntityProperty.type p \<in> EntityMetadata.name ` set (rootEntities libraryStorage) \<longrightarrow>
      (EntityProperty.type p, EntityMetadata.name libraryBook,
         if EntityProperty.nullable p then 0 else 1)
        \<in> set (dependencies (commitGraph libraryStorage))"
    by (rule bspec)
  from this p have "ownsForeignKey authorReference
        \<and> EntityProperty.type authorReference
            \<in> EntityMetadata.name ` set (rootEntities libraryStorage) \<longrightarrow>
      (EntityProperty.type authorReference, EntityMetadata.name libraryBook,
         if EntityProperty.nullable authorReference then 0 else 1)
        \<in> set (dependencies (commitGraph libraryStorage))"
    by (rule bspec)
  with q have one: "(''Author'', ''Book'', 1) \<in> set (dependencies (commitGraph libraryStorage))"
    unfolding names by simp
  from main have "acyclic (edges (dependencies (commitGraph libraryStorage))) \<longrightarrow>
      (\<exists>ordered. getOrderedMetadata libraryStorage = Inr ordered
         \<and> set (map EntityMetadata.name ordered)
             = EntityMetadata.name ` set (rootEntities libraryStorage)
         \<and> (\<forall>meta \<in> set (rootEntities libraryStorage). \<forall>p \<in> set (props meta).
              ownsForeignKey p \<and> \<not> EntityProperty.nullable p
                \<and> EntityProperty.type p
                    \<in> EntityMetadata.name ` set (rootEntities libraryStorage) \<longrightarrow>
              precedes (EntityProperty.type p) (EntityMetadata.name meta)
                (map EntityMetadata.name ordered)))"
    by blast
  with a obtain ordered where res: "getOrderedMetadata libraryStorage = Inr ordered"
    and ord: "\<forall>meta \<in> set (rootEntities libraryStorage). \<forall>p \<in> set (props meta).
              ownsForeignKey p \<and> \<not> EntityProperty.nullable p
                \<and> EntityProperty.type p
                    \<in> EntityMetadata.name ` set (rootEntities libraryStorage) \<longrightarrow>
              precedes (EntityProperty.type p) (EntityMetadata.name meta)
                (map EntityMetadata.name ordered)"
    by blast
  from ord m have "\<forall>p \<in> set (props libraryBook).
              ownsForeignKey p \<and> \<not> EntityProperty.nullable p
                \<and> EntityProperty.type p
                    \<in> EntityMetadata.name ` set (rootEntities libraryStorage) \<longrightarrow>
              precedes (EntityProperty.type p) (EntityMetadata.name libraryBook)
                (map EntityMetadata.name ordered)"
    by (rule bspec)
  from this p have "ownsForeignKey authorReference \<and> \<not> EntityProperty.nullable authorReference
                \<and> EntityProperty.type authorReference
                    \<in> EntityMetadata.name ` set (rootEntities libraryStorage) \<longrightarrow>
              precedes (EntityProperty.type authorReference) (EntityMetadata.name libraryBook)
                (map EntityMetadata.name ordered)"
    by (rule bspec)
  with q have "precedes ''Author'' ''Book'' (map EntityMetadata.name ordered)"
    unfolding names by blast
  with res have two: "\<exists>ordered. getOrderedMetadata libraryStorage = Inr ordered
         \<and> precedes ''Author'' ''Book'' (map EntityMetadata.name ordered)"
    by blast
  from commit_order [OF k2, of "[''A'', ''B'']"] c
  have three: "getOrderedMetadata knotStorage = Inl SchemaDependencyError" by blast
  from one two three show ?thesis by blast
qed

text \<open>The claim as stated fails. \<open>Book.editor\<close> is a required many-to-one reference to
  \<open>Employee\<close>, a subclass of \<open>Person\<close> in single-table inheritance. \<open>Employee\<close> is no
  node of the graph, so no dependency is registered, the graph is acyclic, and the
  ordering has \<open>Book\<close> first: neither \<open>Employee\<close> nor its root stands before
  \<open>Book\<close>.\<close>

theorem commit_order_counterexample:
  "map_option (\<lambda>m. ownsForeignKey editorReference \<and> \<not> EntityProperty.nullable editorReference
                     \<and> editorReference \<in> set (props m))
      (findMeta staffStorage ''Book'') = Some True
   \<and> EntityProperty.type editorReference = ''Employee''
   \<and> findMeta staffStorage ''Employee'' \<noteq> None
   \<and> dependencies (commitGraph staffStorage) = []
   \<and> map_sum id (map EntityMetadata.name) (getOrderedMetadata staffStorage)
       = Inr [''Book'', ''Person'']
   \<and> \<not> precedes ''Employee'' ''Book'' [''Book'', ''Person'']
   \<and> \<not> precedes ''Person'' ''Book'' [''Book'', ''Person'']"
  by code_simp

end
